theory Spec2Isabelle
  imports Complex_Main "HOL-Library.Word"
begin

unbundle bit_operations_syntax

section \<open>Data model of ShapesApp.cpp\<close>

text \<open>
  Machine types. \<open>UINT\<close> is a 32-bit unsigned word whose arithmetic wraps; a C++ \<open>int\<close>
  that receives a \<open>UINT\<close> value is read back with \<open>sint\<close> (two's complement). Sizes of
  \<open>std::vector\<close>s are natural numbers, cast to \<open>UINT\<close> with \<open>of_nat\<close> where the source
  writes \<open>(UINT)v.size()\<close>. The element type of a matrix (a 32-bit float in the source) is
  a type parameter \<open>'a\<close>: the modelled code only moves matrix entries around.
\<close>

type_synonym UINT = "32 word"
type_synonym 'a XMFLOAT4X4 = "'a list list"

text \<open>\<open>const int gNumFrameResources = 3;\<close> The functions below take the ring depth as
  their first argument \<open>N\<close>; the program runs them at \<open>N = gNumFrameResources\<close>.\<close>

definition gNumFrameResources :: nat where
  "gNumFrameResources = 3"

definition Identity4x4 :: "('a::{zero,one}) XMFLOAT4X4" where
  "Identity4x4 = [[1, 0, 0, 0], [0, 1, 0, 0], [0, 0, 1, 0], [0, 0, 0, 1]]"

text \<open>\<open>XMMatrixTranspose\<close> (DirectXMath): entry \<open>(j, i)\<close> of the result is entry \<open>(i, j)\<close>
  of the argument.\<close>

definition XMMatrixTranspose :: "'a XMFLOAT4X4 \<Rightarrow> 'a XMFLOAT4X4" where
  "XMMatrixTranspose M = map (\<lambda>j. map (\<lambda>i. M ! i ! j) [0..<4]) [0..<4]"

text \<open>Modelled from the spec: \<open>SubmeshGeometry\<close> (declared in d3dUtil.h, which is not
  among the sources) is the spec's sub-range of index count, start index and base vertex.
  The three fields carry the types of the fields of the same names in \<open>RenderItem\<close>.\<close>

record SubmeshGeometry =
  IndexCount :: UINT
  StartIndexLocation :: UINT
  BaseVertexLocation :: int

datatype D3D_PRIMITIVE_TOPOLOGY = D3D_PRIMITIVE_TOPOLOGY_TRIANGLELIST

text \<open>\<open>struct RenderItem\<close>. \<open>Geo\<close> is a pointer to a \<open>MeshGeometry\<close> owned by
  \<open>mGeometries\<close>; the model keeps the key under which that geometry is stored, \<open>None\<close>
  for \<open>nullptr\<close>. The draw parameters are the fields \<open>riIndexCount\<close>,
  \<open>riStartIndexLocation\<close> and \<open>riBaseVertexLocation\<close>.\<close>

record 'a RenderItem =
  World :: "'a XMFLOAT4X4"
  NumFramesDirty :: int
  ObjCBIndex :: UINT
  Geo :: "string option"
  PrimitiveType :: D3D_PRIMITIVE_TOPOLOGY
  riIndexCount :: UINT
  riStartIndexLocation :: UINT
  riBaseVertexLocation :: int

text \<open>The member initialisers of \<open>RenderItem\<close>: \<open>World = Identity4x4()\<close>,
  \<open>NumFramesDirty = gNumFrameResources\<close>, \<open>ObjCBIndex = -1\<close> (as a \<open>UINT\<close>),
  \<open>Geo = nullptr\<close>, zero draw parameters.\<close>

definition RenderItem_default :: "nat \<Rightarrow> ('a::{zero,one}) RenderItem" where
  "RenderItem_default N =
     \<lparr> World = Identity4x4, NumFramesDirty = int N, ObjCBIndex = - 1, Geo = None,
       PrimitiveType = D3D_PRIMITIVE_TOPOLOGY_TRIANGLELIST,
       riIndexCount = 0, riStartIndexLocation = 0, riBaseVertexLocation = 0 \<rparr>"

text \<open>Modelled from the spec: \<open>FrameResource\<close> (FrameResource.h is not among the sources) is
  the bundle of a per-object uniform buffer with one slot per render item, a per-pass
  uniform buffer with one slot, and the last-submitted fence value; \<open>mCurrentFence\<close>, a
  member of the base class (d3dApp.h is not among the sources), is the process-wide
  fence counter. Fence values are the \<open>UINT64\<close> that \<open>ID3D12Fence::GetCompletedValue\<close>
  returns and \<open>ID3D12CommandQueue::Signal\<close> takes: 64-bit unsigned words, whose
  increment wraps. A uniform buffer is its persistently mapped memory, addressed by
  element index.\<close>

type_synonym UINT64 = "64 word"

record ('a, 'p) FrameResource =
  Fence :: UINT64
  ObjectCB :: "UINT \<rightharpoonup> 'a XMFLOAT4X4"
  PassCB :: "'p option"

text \<open>Modelled from the spec: \<open>UploadBuffer::CopyData\<close> (UploadBuffer.h is not among the
  sources) is a direct copy of the data into the element at the given index.\<close>

definition CopyData :: "UINT \<Rightarrow> 'c \<Rightarrow> (UINT \<rightharpoonup> 'c) \<Rightarrow> (UINT \<rightharpoonup> 'c)" where
  "CopyData elementIndex data buf = buf(elementIndex \<mapsto> data)"

text \<open>Modelled from the spec: a frame resource is created with nothing submitted yet, its
  fence value 0 and its buffers unwritten.\<close>

definition FrameResource_new :: "('a, 'p) FrameResource" where
  "FrameResource_new = \<lparr> Fence = 0, ObjectCB = Map.empty, PassCB = None \<rparr>"

text \<open>The shader-visible descriptor heap: its capacity and, per descriptor index, the
  constant-buffer view created there. An object view names the frame resource and the
  element of its per-object buffer it points at; a pass view names the frame resource.\<close>

datatype CBV = ObjectCBV nat UINT | PassCBV nat

record DescriptorHeap =
  NumDescriptors :: UINT
  Descriptors :: "int \<rightharpoonup> CBV"

text \<open>Commands recorded into the command list by \<open>Draw\<close> (those that name a descriptor
  or a sub-range of the geometry buffers), and the entries of the GPU command queue:
  a command list, recorded on the allocator of the named frame resource, and a fence
  signal.\<close>

datatype Cmd =
    SetGraphicsRootDescriptorTable nat int
  | DrawIndexedInstanced UINT UINT UINT int UINT

datatype QueueCmd = ExecuteCommandLists nat "Cmd list" | Signal UINT64

text \<open>What the frame loop does to the resources it shares with the GPU, in the order
  in which it does it: blocking until the fence reaches a value
  (\<open>SetEventOnCompletion\<close>, \<open>WaitForSingleObject\<close>) on behalf of a frame resource, a
  \<open>CopyData\<close> into an element of the per-object buffer of a frame resource, a
  \<open>CopyData\<close> into its per-pass buffer, the submission of the command list recorded on
  its allocator, the assignment of its \<open>Fence\<close> member, and the queueing of a fence
  signal. The frame resource is named by its position in \<open>mFrameResources\<close>.\<close>

datatype Event =
    WaitForFence nat UINT64
  | CopyObjectCB nat UINT
  | CopyPassCB nat
  | QueueExecute nat
  | StoreFence nat UINT64
  | QueueSignal UINT64

text \<open>Dereferencing \<open>mCurrFrameResource\<close> while it is \<open>nullptr\<close> yields no state.\<close>

datatype fault = NullFrameResource

text \<open>The state of \<open>ShapesApp\<close> that the frame loop reads and writes.
  \<open>mCurrFrameResource\<close> is a pointer to an element of \<open>mFrameResources\<close>: the position
  of that element, \<open>None\<close> for \<open>nullptr\<close>, its initial value.
  \<open>mOpaqueRitems\<close> holds pointers to elements of \<open>mAllRitems\<close>: positions in that list.
  \<open>trace\<close> is a ghost field: the events so far, oldest first.\<close>

record ('a, 'p) ShapesApp =
  mFrameResources :: "('a, 'p) FrameResource list"
  mCurrFrameResource :: "nat option"
  mCurrFrameResourceIndex :: nat
  mCbvHeap :: DescriptorHeap
  mAllRitems :: "'a RenderItem list"
  mOpaqueRitems :: "nat list"
  mPassCbvOffset :: UINT
  mCurrentFence :: UINT64
  mCommandQueue :: "QueueCmd list"
  trace :: "Event list"

definition ShapesApp_new :: "UINT64 \<Rightarrow> ('a, 'p) ShapesApp" where
  "ShapesApp_new f0 =
     \<lparr> mFrameResources = [], mCurrFrameResource = None, mCurrFrameResourceIndex = 0,
       mCbvHeap = \<lparr> NumDescriptors = 0, Descriptors = Map.empty \<rparr>,
       mAllRitems = [], mOpaqueRitems = [], mPassCbvOffset = 0,
       mCurrentFence = f0, mCommandQueue = [], trace = [] \<rparr>"

text \<open>Read off the trace: the fence values the CPU has blocked on, the number of
  \<open>CopyData\<close> calls made on per-object buffers, and the values stored into \<open>Fence\<close>
  members.\<close>

fun WaitedValue :: "Event \<Rightarrow> UINT64 list" where
  "WaitedValue (WaitForFence f v) = [v]"
| "WaitedValue (CopyObjectCB f i) = []"
| "WaitedValue (CopyPassCB f) = []"
| "WaitedValue (QueueExecute f) = []"
| "WaitedValue (StoreFence f v) = []"
| "WaitedValue (QueueSignal v) = []"

fun ObjectCopy :: "Event \<Rightarrow> bool" where
  "ObjectCopy (WaitForFence f v) = False"
| "ObjectCopy (CopyObjectCB f i) = True"
| "ObjectCopy (CopyPassCB f) = False"
| "ObjectCopy (QueueExecute f) = False"
| "ObjectCopy (StoreFence f v) = False"
| "ObjectCopy (QueueSignal v) = False"

fun StoredValue :: "Event \<Rightarrow> UINT64 list" where
  "StoredValue (WaitForFence f v) = []"
| "StoredValue (CopyObjectCB f i) = []"
| "StoredValue (CopyPassCB f) = []"
| "StoredValue (QueueExecute f) = []"
| "StoredValue (StoreFence f v) = [v]"
| "StoredValue (QueueSignal v) = []"

definition waits :: "('a, 'p) ShapesApp \<Rightarrow> UINT64 list" where
  "waits s = concat (map WaitedValue (trace s))"

definition objCBWrites :: "('a, 'p) ShapesApp \<Rightarrow> nat" where
  "objCBWrites s = length (filter ObjectCopy (trace s))"

definition stamps :: "('a, 'p) ShapesApp \<Rightarrow> UINT64 list" where
  "stamps s = concat (map StoredValue (trace s))"

section \<open>Render items: \<open>ShapesApp::BuildRenderItems\<close>\<close>

text \<open>\<open>geo->DrawArgs[name]\<close> on a \<open>std::unordered_map\<close>: the stored sub-range, or a
  value-initialised one when the key is absent.\<close>

definition DrawArgs_at :: "(string \<rightharpoonup> SubmeshGeometry) \<Rightarrow> string \<Rightarrow> SubmeshGeometry" where
  "DrawArgs_at args shape =
     (case args shape of
        Some sm \<Rightarrow> sm
      | None \<Rightarrow> \<lparr> IndexCount = 0, StartIndexLocation = 0, BaseVertexLocation = 0 \<rparr>)"

text \<open>One block of \<open>BuildRenderItems\<close>: a fresh \<open>RenderItem\<close> whose world matrix, constant
  buffer index, geometry and draw parameters are assigned. \<open>objIndex\<close> is the \<open>int\<close>
  counter whose value is stored into the \<open>UINT\<close> field.\<close>

definition NewRitem ::
  "nat \<Rightarrow> (string \<rightharpoonup> SubmeshGeometry) \<Rightarrow> ('a::{zero,one}) XMFLOAT4X4 \<Rightarrow> int \<Rightarrow> string
     \<Rightarrow> 'a RenderItem" where
  "NewRitem N args W objIndex shape =
     (RenderItem_default N)
       \<lparr> World := W, ObjCBIndex := of_int objIndex, Geo := Some ''shapeGeo'',
         PrimitiveType := D3D_PRIMITIVE_TOPOLOGY_TRIANGLELIST,
         riIndexCount := IndexCount (DrawArgs_at args shape),
         riStartIndexLocation := StartIndexLocation (DrawArgs_at args shape),
         riBaseVertexLocation := BaseVertexLocation (DrawArgs_at args shape) \<rparr>"

text \<open>The 22 blocks in source order: the world matrix each one stores and the shape whose
  sub-range it draws. Every world matrix except the grid's is a product of floating-point
  scaling, translation and rotation matrices; these products are not computed here but
  supplied by \<open>world_of\<close>, keyed by the name of the source variable.\<close>

definition Scene :: "(string \<Rightarrow> ('a::{zero,one}) XMFLOAT4X4) \<Rightarrow> ('a XMFLOAT4X4 \<times> string) list" where
  "Scene world_of =
     [ (world_of ''leftWallRitem'', ''box''),
       (world_of ''rightWallRitem'', ''box''),
       (world_of ''backWallRitem'', ''box''),
       (world_of ''frontLWallRitem'', ''box''),
       (world_of ''frontRWallRitem'', ''box''),
       (world_of ''cylinder1Ritem'', ''cylinder''),
       (world_of ''cylinder2Ritem'', ''cylinder''),
       (world_of ''cylinder3Ritem'', ''cylinder''),
       (world_of ''cylinder4Ritem'', ''cylinder''),
       (world_of ''coneRitem'', ''cone''),
       (world_of ''cone1Ritem'', ''cone''),
       (world_of ''cone2Ritem'', ''cone''),
       (world_of ''cone3Ritem'', ''cone''),
       (Identity4x4, ''grid''),
       (world_of ''sphereRitem'', ''sphere''),
       (world_of ''pyramidRitem'', ''pyramid''),
       (world_of ''pyramid1Ritem'', ''pyramid''),
       (world_of ''wedgeRitem'', ''wedge''),
       (world_of ''wedge1Ritem'', ''wedge''),
       (world_of ''halfConeRitem'', ''halfCone''),
       (world_of ''prismRitem'', ''prism''),
       (world_of ''diamondRitem'', ''diamond'') ]"

text \<open>The blocks run in order, each taking \<open>objIndex++\<close> and pushing its item onto
  \<open>mAllRitems\<close>.\<close>

fun PushRitems ::
  "nat \<Rightarrow> (string \<rightharpoonup> SubmeshGeometry) \<Rightarrow> int \<Rightarrow> (('a::{zero,one}) XMFLOAT4X4 \<times> string) list
     \<Rightarrow> 'a RenderItem list \<Rightarrow> 'a RenderItem list" where
  "PushRitems N args objIndex [] all = all"
| "PushRitems N args objIndex ((W, shape) # rest) all =
     PushRitems N args (objIndex + 1) rest (all @ [NewRitem N args W objIndex shape])"

text \<open>\<open>BuildRenderItems\<close>; \<open>args\<close> is \<open>mGeometries["shapeGeo"]->DrawArgs\<close>. The closing loop
  pushes a pointer to every element of \<open>mAllRitems\<close> onto \<open>mOpaqueRitems\<close>.\<close>

definition BuildRenderItems ::
  "nat \<Rightarrow> (string \<rightharpoonup> SubmeshGeometry) \<Rightarrow> (string \<Rightarrow> ('a::{zero,one}) XMFLOAT4X4)
     \<Rightarrow> ('a, 'p) ShapesApp \<Rightarrow> ('a, 'p) ShapesApp" where
  "BuildRenderItems N args world_of s =
     (let all = PushRitems N args 0 (Scene world_of) (mAllRitems s)
      in s\<lparr> mAllRitems := all, mOpaqueRitems := mOpaqueRitems s @ [0..<length all] \<rparr>)"

text \<open>\<open>BuildFrameResources\<close>: one new frame resource per ring slot.\<close>

definition BuildFrameResources :: "nat \<Rightarrow> ('a, 'p) ShapesApp \<Rightarrow> ('a, 'p) ShapesApp" where
  "BuildFrameResources N s =
     s\<lparr> mFrameResources := mFrameResources s @ replicate N FrameResource_new \<rparr>"

section \<open>Descriptor heap: \<open>BuildDescriptorHeaps\<close> and \<open>BuildConstantBufferViews\<close>\<close>

text \<open>\<open>(objCount + 1) * gNumFrameResources\<close> and \<open>objCount * gNumFrameResources\<close>, computed
  in \<open>UINT\<close>.\<close>

definition BuildDescriptorHeaps :: "nat \<Rightarrow> ('a, 'p) ShapesApp \<Rightarrow> ('a, 'p) ShapesApp" where
  "BuildDescriptorHeaps N s =
     (let objCount = (of_nat (length (mOpaqueRitems s)) :: UINT);
          numDescriptors = (objCount + 1) * of_nat N
      in s\<lparr> mPassCbvOffset := objCount * of_nat N,
            mCbvHeap := \<lparr> NumDescriptors = numDescriptors, Descriptors = Map.empty \<rparr> \<rparr>)"

text \<open>\<open>int heapIndex = frameIndex * objCount + i;\<close> and
  \<open>int heapIndex = mPassCbvOffset + frameIndex;\<close>: the right-hand sides are \<open>UINT\<close>
  expressions, stored into an \<open>int\<close>. \<open>Draw\<close> and \<open>DrawRenderItems\<close> compute the same two
  expressions from \<open>mCurrFrameResourceIndex\<close> and hand them to
  \<open>CD3DX12_GPU_DESCRIPTOR_HANDLE::Offset\<close>, which takes an \<open>INT\<close>.\<close>

definition ObjCbvHeapIndex :: "nat \<Rightarrow> UINT \<Rightarrow> UINT \<Rightarrow> int" where
  "ObjCbvHeapIndex frameIndex objCount i = sint (of_nat frameIndex * objCount + i)"

definition PassCbvHeapIndex :: "UINT \<Rightarrow> nat \<Rightarrow> int" where
  "PassCbvHeapIndex passCbvOffset frameIndex = sint (passCbvOffset + of_nat frameIndex)"

definition CreateConstantBufferView :: "CBV \<Rightarrow> int \<Rightarrow> DescriptorHeap \<Rightarrow> DescriptorHeap" where
  "CreateConstantBufferView view heapIndex heap =
     heap\<lparr> Descriptors := (Descriptors heap)(heapIndex \<mapsto> view) \<rparr>"

text \<open>The two loop nests of \<open>BuildConstantBufferViews\<close>: for every frame index and every
  \<open>UINT i < objCount\<close> an object view, then for every frame index a pass view.\<close>

definition BuildConstantBufferViews :: "nat \<Rightarrow> ('a, 'p) ShapesApp \<Rightarrow> ('a, 'p) ShapesApp" where
  "BuildConstantBufferViews N s =
     (let objCount = (of_nat (length (mOpaqueRitems s)) :: UINT);
          h1 = fold (\<lambda>frameIndex. fold (\<lambda>i. CreateConstantBufferView (ObjectCBV frameIndex i)
                        (ObjCbvHeapIndex frameIndex objCount i))
                      (map of_nat [0..<unat objCount]))
                 [0..<N] (mCbvHeap s);
          h2 = fold (\<lambda>frameIndex. CreateConstantBufferView (PassCBV frameIndex)
                        (PassCbvHeapIndex (mPassCbvOffset s) frameIndex))
                 [0..<N] h1
      in s\<lparr> mCbvHeap := h2 \<rparr>)"

section \<open>The frame loop: \<open>Update\<close> and \<open>Draw\<close>\<close>

text \<open>The device calls that the source wraps in \<open>ThrowIfFailed\<close> are taken to succeed.

  The loop of \<open>UpdateObjectCBs\<close> over \<open>mAllRitems\<close>: an item with
  \<open>NumFramesDirty > 0\<close> has its transposed world matrix copied into element \<open>ObjCBIndex\<close>
  of the current per-object buffer and its counter decremented. The loop threads the
  buffer and the trace; \<open>cur\<close> is the frame resource whose buffer it is.\<close>

fun UpdateObjectCBs_loop ::
  "nat \<Rightarrow> 'a RenderItem list \<Rightarrow> (UINT \<rightharpoonup> 'a XMFLOAT4X4) \<Rightarrow> Event list
     \<Rightarrow> 'a RenderItem list \<times> (UINT \<rightharpoonup> 'a XMFLOAT4X4) \<times> Event list" where
  "UpdateObjectCBs_loop cur [] currObjectCB tr = ([], currObjectCB, tr)"
| "UpdateObjectCBs_loop cur (e # es) currObjectCB tr =
     (if NumFramesDirty e > 0 then
        (case UpdateObjectCBs_loop cur es
                (CopyData (ObjCBIndex e) (XMMatrixTranspose (World e)) currObjectCB)
                (tr @ [CopyObjectCB cur (ObjCBIndex e)]) of
           (es', cb', tr') \<Rightarrow> (e\<lparr> NumFramesDirty := NumFramesDirty e - 1 \<rparr> # es', cb', tr'))
      else
        (case UpdateObjectCBs_loop cur es currObjectCB tr of
           (es', cb', tr') \<Rightarrow> (e # es', cb', tr')))"

text \<open>\<open>UpdateObjectCBs\<close> starts with \<open>mCurrFrameResource->ObjectCB.get()\<close>.\<close>

definition UpdateObjectCBs :: "('a, 'p) ShapesApp \<Rightarrow> fault + ('a, 'p) ShapesApp" where
  "UpdateObjectCBs s =
     (case mCurrFrameResource s of
        None \<Rightarrow> Inl NullFrameResource
      | Some cur \<Rightarrow>
          (let fr = mFrameResources s ! cur
           in case UpdateObjectCBs_loop cur (mAllRitems s) (ObjectCB fr) (trace s) of
                (items', cb', tr') \<Rightarrow>
                  Inr (s\<lparr> mAllRitems := items',
                          mFrameResources := (mFrameResources s)[cur := fr\<lparr> ObjectCB := cb' \<rparr>],
                          trace := tr' \<rparr>)))"

text \<open>\<open>UpdateMainPassCB\<close> fills \<open>mMainPassCB\<close> from the camera matrices and the timer
  (floating-point matrix algebra, not modelled: the resulting constants are the
  argument) and copies it into element 0 of \<open>mCurrFrameResource->PassCB\<close>.\<close>

definition UpdateMainPassCB :: "'p \<Rightarrow> ('a, 'p) ShapesApp \<Rightarrow> fault + ('a, 'p) ShapesApp" where
  "UpdateMainPassCB mainPassCB s =
     (case mCurrFrameResource s of
        None \<Rightarrow> Inl NullFrameResource
      | Some cur \<Rightarrow>
          Inr (s\<lparr> mFrameResources :=
                    (mFrameResources s)[cur := (mFrameResources s ! cur)\<lparr> PassCB := Some mainPassCB \<rparr>],
                  trace := trace s @ [CopyPassCB cur] \<rparr>))"

text \<open>\<open>Update\<close>. Its input is what the environment supplies during the call: the value
  \<open>mFence->GetCompletedValue()\<close> returns and the pass constants of this frame.
  \<open>OnKeyboardInput\<close> and \<open>UpdateCamera\<close> touch none of the modelled fields. The ring
  index is advanced and \<open>mCurrFrameResource\<close> is pointed at
  \<open>mFrameResources[mCurrFrameResourceIndex]\<close>; if the fence value of that frame resource
  is nonzero and the GPU has not reached it, the CPU blocks on exactly that value; then
  \<open>UpdateObjectCBs\<close> and \<open>UpdateMainPassCB\<close> run.\<close>

definition Update ::
  "nat \<Rightarrow> UINT64 \<times> 'p \<Rightarrow> ('a, 'p) ShapesApp \<Rightarrow> fault + ('a, 'p) ShapesApp" where
  "Update N inp s =
     (let idx = (mCurrFrameResourceIndex s + 1) mod N;
          s1 = s\<lparr> mCurrFrameResourceIndex := idx, mCurrFrameResource := Some idx \<rparr>;
          fence = Fence (mFrameResources s1 ! idx);
          s2 = (if fence \<noteq> 0 \<and> fst inp < fence
                then s1\<lparr> trace := trace s1 @ [WaitForFence idx fence] \<rparr> else s1)
      in case UpdateObjectCBs s2 of
           Inl e \<Rightarrow> Inl e
         | Inr s3 \<Rightarrow> UpdateMainPassCB (snd inp) s3)"

text \<open>\<open>DrawRenderItems\<close> starts with \<open>mCurrFrameResource->ObjectCB->Resource()\<close>. Then,
  per render item, the binding of its object view, at
  \<open>mCurrFrameResourceIndex * (UINT)mOpaqueRitems.size() + ri->ObjCBIndex\<close>, and its draw
  call.\<close>

definition DrawRenderItems :: "('a, 'p) ShapesApp \<Rightarrow> nat list \<Rightarrow> fault + Cmd list" where
  "DrawRenderItems s ritems =
     (case mCurrFrameResource s of
        None \<Rightarrow> Inl NullFrameResource
      | Some cur \<Rightarrow>
          Inr (concat (map (\<lambda>p. let ri = mAllRitems s ! p;
                                    cbvIndex = ObjCbvHeapIndex (mCurrFrameResourceIndex s)
                                                 (of_nat (length (mOpaqueRitems s))) (ObjCBIndex ri)
                                in [ SetGraphicsRootDescriptorTable 0 cbvIndex,
                                     DrawIndexedInstanced (riIndexCount ri) 1
                                       (riStartIndexLocation ri) (riBaseVertexLocation ri) 0 ])
                       ritems)))"

text \<open>\<open>Draw\<close> starts with \<open>mCurrFrameResource->CmdListAlloc\<close>. The command list is
  recorded on that allocator, with the pass view at
  \<open>mPassCbvOffset + mCurrFrameResourceIndex\<close>, and queued; then
  \<open>mCurrFrameResource->Fence = ++mCurrentFence;\<close> and
  \<open>mCommandQueue->Signal(mFence.Get(), mCurrentFence);\<close> in that order.\<close>

definition Draw :: "('a, 'p) ShapesApp \<Rightarrow> fault + ('a, 'p) ShapesApp" where
  "Draw s =
     (case mCurrFrameResource s of
        None \<Rightarrow> Inl NullFrameResource
      | Some cur \<Rightarrow>
          (case DrawRenderItems s (mOpaqueRitems s) of
             Inl e \<Rightarrow> Inl e
           | Inr draws \<Rightarrow>
               (let passCbvIndex = PassCbvHeapIndex (mPassCbvOffset s) (mCurrFrameResourceIndex s);
                    cmds = SetGraphicsRootDescriptorTable 1 passCbvIndex # draws;
                    s1 = s\<lparr> mCommandQueue := mCommandQueue s @ [ExecuteCommandLists cur cmds],
                           trace := trace s @ [QueueExecute cur] \<rparr>;
                    s2 = s1\<lparr> mCurrentFence := mCurrentFence s1 + 1 \<rparr>;
                    s3 = s2\<lparr> mFrameResources :=
                              (mFrameResources s2)[cur := (mFrameResources s2 ! cur)
                                                            \<lparr> Fence := mCurrentFence s2 \<rparr>],
                            trace := trace s2 @ [StoreFence cur (mCurrentFence s2)] \<rparr>
                in Inr (s3\<lparr> mCommandQueue := mCommandQueue s3 @ [Signal (mCurrentFence s3)],
                           trace := trace s3 @ [QueueSignal (mCurrentFence s3)] \<rparr>))))"

text \<open>One cycle of the application loop calls \<open>Update\<close>, then \<open>Draw\<close>.\<close>

definition Frame ::
  "nat \<Rightarrow> UINT64 \<times> 'p \<Rightarrow> ('a, 'p) ShapesApp \<Rightarrow> fault + ('a, 'p) ShapesApp" where
  "Frame N inp s = (case Update N inp s of Inl e \<Rightarrow> Inl e | Inr s1 \<Rightarrow> Draw s1)"

fun RunFrames ::
  "nat \<Rightarrow> (UINT64 \<times> 'p) list \<Rightarrow> ('a, 'p) ShapesApp \<Rightarrow> fault + ('a, 'p) ShapesApp" where
  "RunFrames N [] s = Inr s"
| "RunFrames N (inp # inps) s =
     (case Frame N inp s of Inl e \<Rightarrow> Inl e | Inr s1 \<Rightarrow> RunFrames N inps s1)"

text \<open>The frame-resource slot that is current during each of the successive cycles.\<close>

fun FrameSlots :: "nat \<Rightarrow> (UINT64 \<times> 'p) list \<Rightarrow> ('a, 'p) ShapesApp \<Rightarrow> nat list" where
  "FrameSlots N [] s = []"
| "FrameSlots N (inp # inps) s =
     (case Update N inp s of
        Inl e \<Rightarrow> []
      | Inr s1 \<Rightarrow>
          mCurrFrameResourceIndex s1 #
            (case Draw s1 of Inl e \<Rightarrow> [] | Inr s2 \<Rightarrow> FrameSlots N inps s2))"

text \<open>The values signalled on the command queue, in queue order.\<close>

fun Signals :: "QueueCmd list \<Rightarrow> UINT64 list" where
  "Signals [] = []"
| "Signals (Signal v # q) = v # Signals q"
| "Signals (ExecuteCommandLists a cmds # q) = Signals q"

text \<open>The parts of \<open>Initialize\<close> that set up the modelled state, in source order, given
  the sub-range table of the geometry built before them. \<open>f0\<close> is the value of the fence
  counter of the base class when \<open>Initialize\<close> returns.\<close>

definition Initialize ::
  "nat \<Rightarrow> UINT64 \<Rightarrow> (string \<rightharpoonup> SubmeshGeometry) \<Rightarrow> (string \<Rightarrow> ('a::{zero,one}) XMFLOAT4X4)
     \<Rightarrow> ('a, 'p) ShapesApp" where
  "Initialize N f0 args world_of =
     BuildConstantBufferViews N
       (BuildDescriptorHeaps N
          (BuildFrameResources N
             (BuildRenderItems N args world_of (ShapesApp_new f0))))"

text \<open>\<open>Update\<close>, \<open>Draw\<close> and the cycles made of them return a state unless they meet
  a null \<open>mCurrFrameResource\<close>; the state they return is named as follows.\<close>

abbreviation AfterUpdate ::
  "nat \<Rightarrow> UINT64 \<times> 'p \<Rightarrow> ('a, 'p) ShapesApp \<Rightarrow> ('a, 'p) ShapesApp" where
  "AfterUpdate N inp s \<equiv> projr (Update N inp s)"

abbreviation AfterDraw :: "('a, 'p) ShapesApp \<Rightarrow> ('a, 'p) ShapesApp" where
  "AfterDraw s \<equiv> projr (Draw s)"

abbreviation AfterFrame ::
  "nat \<Rightarrow> UINT64 \<times> 'p \<Rightarrow> ('a, 'p) ShapesApp \<Rightarrow> ('a, 'p) ShapesApp" where
  "AfterFrame N inp s \<equiv> projr (Frame N inp s)"

abbreviation AfterFrames ::
  "nat \<Rightarrow> (UINT64 \<times> 'p) list \<Rightarrow> ('a, 'p) ShapesApp \<Rightarrow> ('a, 'p) ShapesApp" where
  "AfterFrames N inps s \<equiv> projr (RunFrames N inps s)"

section \<open>Geometry: \<open>ShapesApp::BuildShapeGeometry\<close>\<close>

text \<open>Modelled from the spec: the output of a shape generator (GeometryGenerator.h is not
  among the sources) is a vertex array, of which this file reads the \<open>Position\<close> of
  type \<open>'pos\<close>, and an array of 32-bit indices. The ten meshes are the inputs of the
  build.\<close>

record 'pos GVertex =
  Position :: 'pos

record 'pos MeshData =
  Vertices :: "'pos GVertex list"
  Indices32 :: "32 word list"

text \<open>Modelled from the spec: \<open>GetIndices16\<close> delivers the mesh's index array at the chosen
  index width of 16 bits, each 32-bit index cast to 16 bits.\<close>

definition GetIndices16 :: "'pos MeshData \<Rightarrow> 16 word list" where
  "GetIndices16 m = map ucast (Indices32 m)"

record 'pos Meshes =
  box :: "'pos MeshData"
  grid :: "'pos MeshData"
  sphere :: "'pos MeshData"
  cylinder :: "'pos MeshData"
  pyramid :: "'pos MeshData"
  wedge :: "'pos MeshData"
  cone :: "'pos MeshData"
  halfCone :: "'pos MeshData"
  prism :: "'pos MeshData"
  diamond :: "'pos MeshData"

text \<open>\<open>struct Vertex\<close> (position and colour, 12 + 16 bytes as the input layout of
  \<open>BuildShadersAndInputLayout\<close> lays them out). \<open>NoColor\<close> is the colour of a
  value-initialised vertex.\<close>

datatype Color4 = NoColor | Purple | Gray | LightBlue | SteelBlue | Yellow | Crimson | Pink | LightGreen | Orange | Silver

record 'pos Vertex =
  Pos :: 'pos
  Color :: Color4

definition sizeof_Vertex :: nat where
  "sizeof_Vertex = 28"

definition sizeof_uint16 :: nat where
  "sizeof_uint16 = 2"

datatype DXGI_FORMAT = DXGI_FORMAT_R16_UINT

record 'pos MeshGeometry =
  Name :: string
  VertexBufferCPU :: "'pos Vertex list"
  IndexBufferCPU :: "16 word list"
  VertexBufferGPU :: "'pos Vertex list"
  IndexBufferGPU :: "16 word list"
  VertexByteStride :: UINT
  VertexBufferByteSize :: UINT
  IndexFormat :: DXGI_FORMAT
  IndexBufferByteSize :: UINT
  DrawArgs :: "string \<rightharpoonup> SubmeshGeometry"

text \<open>Modelled from the spec: the device calls of the build that can fail are the
  resource creations \<open>D3DCreateBlob\<close> and \<open>d3dUtil::CreateDefaultBuffer\<close> (d3dUtil.h is
  not among the sources), each given the byte size requested; a failed creation is
  fatal, thrown by \<open>ThrowIfFailed\<close> as a \<open>DxException\<close>.\<close>

datatype error = DxException

record Device =
  D3DCreateBlob :: "UINT \<Rightarrow> bool"
  CreateDefaultBuffer :: "UINT \<Rightarrow> bool"

text \<open>The vertex offsets, \<open>UINT\<close> sums of the preceding vertex counts.\<close>

definition boxVertexOffset :: "'pos Meshes \<Rightarrow> UINT" where
  "boxVertexOffset m = 0"

definition gridVertexOffset :: "'pos Meshes \<Rightarrow> UINT" where
  "gridVertexOffset m = of_nat (length (Vertices (box m)))"

definition sphereVertexOffset :: "'pos Meshes \<Rightarrow> UINT" where
  "sphereVertexOffset m = gridVertexOffset m + of_nat (length (Vertices (grid m)))"

definition cylinderVertexOffset :: "'pos Meshes \<Rightarrow> UINT" where
  "cylinderVertexOffset m = sphereVertexOffset m + of_nat (length (Vertices (sphere m)))"

definition pyramidVertexOffset :: "'pos Meshes \<Rightarrow> UINT" where
  "pyramidVertexOffset m = cylinderVertexOffset m + of_nat (length (Vertices (cylinder m)))"

definition wedgeVertexOffset :: "'pos Meshes \<Rightarrow> UINT" where
  "wedgeVertexOffset m = pyramidVertexOffset m + of_nat (length (Vertices (pyramid m)))"

definition coneVertexOffset :: "'pos Meshes \<Rightarrow> UINT" where
  "coneVertexOffset m = wedgeVertexOffset m + of_nat (length (Vertices (wedge m)))"

definition halfConeVertexOffset :: "'pos Meshes \<Rightarrow> UINT" where
  "halfConeVertexOffset m = coneVertexOffset m + of_nat (length (Vertices (cone m)))"

definition prismVertexOffset :: "'pos Meshes \<Rightarrow> UINT" where
  "prismVertexOffset m = halfConeVertexOffset m + of_nat (length (Vertices (halfCone m)))"

definition diamondVertexOffset :: "'pos Meshes \<Rightarrow> UINT" where
  "diamondVertexOffset m = prismVertexOffset m + of_nat (length (Vertices (prism m)))"

text \<open>The index offsets, \<open>UINT\<close> sums of the preceding index counts.\<close>

definition boxIndexOffset :: "'pos Meshes \<Rightarrow> UINT" where
  "boxIndexOffset m = 0"

definition gridIndexOffset :: "'pos Meshes \<Rightarrow> UINT" where
  "gridIndexOffset m = of_nat (length (Indices32 (box m)))"

definition sphereIndexOffset :: "'pos Meshes \<Rightarrow> UINT" where
  "sphereIndexOffset m = gridIndexOffset m + of_nat (length (Indices32 (grid m)))"

definition cylinderIndexOffset :: "'pos Meshes \<Rightarrow> UINT" where
  "cylinderIndexOffset m = sphereIndexOffset m + of_nat (length (Indices32 (sphere m)))"

definition pyramidIndexOffset :: "'pos Meshes \<Rightarrow> UINT" where
  "pyramidIndexOffset m = cylinderIndexOffset m + of_nat (length (Indices32 (cylinder m)))"

definition wedgeIndexOffset :: "'pos Meshes \<Rightarrow> UINT" where
  "wedgeIndexOffset m = pyramidIndexOffset m + of_nat (length (Indices32 (pyramid m)))"

definition coneIndexOffset :: "'pos Meshes \<Rightarrow> UINT" where
  "coneIndexOffset m = wedgeIndexOffset m + of_nat (length (Indices32 (wedge m)))"

definition halfConeIndexOffset :: "'pos Meshes \<Rightarrow> UINT" where
  "halfConeIndexOffset m = coneIndexOffset m + of_nat (length (Indices32 (cone m)))"

definition prismIndexOffset :: "'pos Meshes \<Rightarrow> UINT" where
  "prismIndexOffset m = halfConeIndexOffset m + of_nat (length (Indices32 (halfCone m)))"

definition diamondIndexOffset :: "'pos Meshes \<Rightarrow> UINT" where
  "diamondIndexOffset m = prismIndexOffset m + of_nat (length (Indices32 (prism m)))"

text \<open>The sub-ranges; \<open>BaseVertexLocation\<close> is an \<open>INT\<close> that receives the \<open>UINT\<close>
  vertex offset.\<close>

definition boxSubmesh :: "'pos Meshes \<Rightarrow> SubmeshGeometry" where
  "boxSubmesh m =
     \<lparr> IndexCount = of_nat (length (Indices32 (box m))),
       StartIndexLocation = boxIndexOffset m,
       BaseVertexLocation = sint (boxVertexOffset m) \<rparr>"

definition gridSubmesh :: "'pos Meshes \<Rightarrow> SubmeshGeometry" where
  "gridSubmesh m =
     \<lparr> IndexCount = of_nat (length (Indices32 (grid m))),
       StartIndexLocation = gridIndexOffset m,
       BaseVertexLocation = sint (gridVertexOffset m) \<rparr>"

definition sphereSubmesh :: "'pos Meshes \<Rightarrow> SubmeshGeometry" where
  "sphereSubmesh m =
     \<lparr> IndexCount = of_nat (length (Indices32 (sphere m))),
       StartIndexLocation = sphereIndexOffset m,
       BaseVertexLocation = sint (sphereVertexOffset m) \<rparr>"

definition cylinderSubmesh :: "'pos Meshes \<Rightarrow> SubmeshGeometry" where
  "cylinderSubmesh m =
     \<lparr> IndexCount = of_nat (length (Indices32 (cylinder m))),
       StartIndexLocation = cylinderIndexOffset m,
       BaseVertexLocation = sint (cylinderVertexOffset m) \<rparr>"

definition pyramidSubmesh :: "'pos Meshes \<Rightarrow> SubmeshGeometry" where
  "pyramidSubmesh m =
     \<lparr> IndexCount = of_nat (length (Indices32 (pyramid m))),
       StartIndexLocation = pyramidIndexOffset m,
       BaseVertexLocation = sint (pyramidVertexOffset m) \<rparr>"

definition wedgeSubmesh :: "'pos Meshes \<Rightarrow> SubmeshGeometry" where
  "wedgeSubmesh m =
     \<lparr> IndexCount = of_nat (length (Indices32 (wedge m))),
       StartIndexLocation = wedgeIndexOffset m,
       BaseVertexLocation = sint (wedgeVertexOffset m) \<rparr>"

definition coneSubmesh :: "'pos Meshes \<Rightarrow> SubmeshGeometry" where
  "coneSubmesh m =
     \<lparr> IndexCount = of_nat (length (Indices32 (cone m))),
       StartIndexLocation = coneIndexOffset m,
       BaseVertexLocation = sint (coneVertexOffset m) \<rparr>"

definition halfConeSubmesh :: "'pos Meshes \<Rightarrow> SubmeshGeometry" where
  "halfConeSubmesh m =
     \<lparr> IndexCount = of_nat (length (Indices32 (halfCone m))),
       StartIndexLocation = halfConeIndexOffset m,
       BaseVertexLocation = sint (halfConeVertexOffset m) \<rparr>"

definition prismSubmesh :: "'pos Meshes \<Rightarrow> SubmeshGeometry" where
  "prismSubmesh m =
     \<lparr> IndexCount = of_nat (length (Indices32 (prism m))),
       StartIndexLocation = prismIndexOffset m,
       BaseVertexLocation = sint (prismVertexOffset m) \<rparr>"

definition diamondSubmesh :: "'pos Meshes \<Rightarrow> SubmeshGeometry" where
  "diamondSubmesh m =
     \<lparr> IndexCount = of_nat (length (Indices32 (diamond m))),
       StartIndexLocation = diamondIndexOffset m,
       BaseVertexLocation = sint (diamondVertexOffset m) \<rparr>"

definition totalVertexCount :: "'pos Meshes \<Rightarrow> nat" where
  "totalVertexCount m =
     length (Vertices (box m)) +
     length (Vertices (grid m)) +
     length (Vertices (sphere m)) +
     length (Vertices (cylinder m)) +
     length (Vertices (pyramid m)) +
     length (Vertices (wedge m)) +
     length (Vertices (cone m)) +
     length (Vertices (halfCone m)) +
     length (Vertices (prism m)) +
     length (Vertices (diamond m))"

text \<open>One of the ten copy loops: \<open>vertices[k]\<close> receives the position of the next vertex
  of the mesh and the colour of the shape, and the \<open>UINT k\<close> is incremented.\<close>

fun FillVertices ::
  "Color4 \<Rightarrow> 'pos GVertex list \<Rightarrow> 'pos Vertex list \<Rightarrow> UINT \<Rightarrow> 'pos Vertex list \<times> UINT" where
  "FillVertices c [] vertices k = (vertices, k)"
| "FillVertices c (v # vs) vertices k =
     FillVertices c vs (vertices[unat k := \<lparr> Pos = Position v, Color = c \<rparr>]) (k + 1)"

text \<open>\<open>std::vector<Vertex> vertices(totalVertexCount)\<close> and the state \<open>(vertices, k)\<close>
  after each of the ten loops.\<close>

definition verticesAfter_box :: "('pos::zero) Meshes \<Rightarrow> 'pos Vertex list \<times> UINT" where
  "verticesAfter_box m =
     FillVertices Purple (Vertices (box m))
       (replicate (totalVertexCount m) \<lparr> Pos = 0, Color = NoColor \<rparr>) 0"

definition verticesAfter_grid :: "('pos::zero) Meshes \<Rightarrow> 'pos Vertex list \<times> UINT" where
  "verticesAfter_grid m =
     (case verticesAfter_box m of
        (vertices, k) \<Rightarrow> FillVertices Gray (Vertices (grid m)) vertices k)"

definition verticesAfter_sphere :: "('pos::zero) Meshes \<Rightarrow> 'pos Vertex list \<times> UINT" where
  "verticesAfter_sphere m =
     (case verticesAfter_grid m of
        (vertices, k) \<Rightarrow> FillVertices LightBlue (Vertices (sphere m)) vertices k)"

definition verticesAfter_cylinder :: "('pos::zero) Meshes \<Rightarrow> 'pos Vertex list \<times> UINT" where
  "verticesAfter_cylinder m =
     (case verticesAfter_sphere m of
        (vertices, k) \<Rightarrow> FillVertices SteelBlue (Vertices (cylinder m)) vertices k)"

definition verticesAfter_pyramid :: "('pos::zero) Meshes \<Rightarrow> 'pos Vertex list \<times> UINT" where
  "verticesAfter_pyramid m =
     (case verticesAfter_cylinder m of
        (vertices, k) \<Rightarrow> FillVertices Yellow (Vertices (pyramid m)) vertices k)"

definition verticesAfter_wedge :: "('pos::zero) Meshes \<Rightarrow> 'pos Vertex list \<times> UINT" where
  "verticesAfter_wedge m =
     (case verticesAfter_pyramid m of
        (vertices, k) \<Rightarrow> FillVertices Crimson (Vertices (wedge m)) vertices k)"

definition verticesAfter_cone :: "('pos::zero) Meshes \<Rightarrow> 'pos Vertex list \<times> UINT" where
  "verticesAfter_cone m =
     (case verticesAfter_wedge m of
        (vertices, k) \<Rightarrow> FillVertices Pink (Vertices (cone m)) vertices k)"

definition verticesAfter_halfCone :: "('pos::zero) Meshes \<Rightarrow> 'pos Vertex list \<times> UINT" where
  "verticesAfter_halfCone m =
     (case verticesAfter_cone m of
        (vertices, k) \<Rightarrow> FillVertices LightGreen (Vertices (halfCone m)) vertices k)"

definition verticesAfter_prism :: "('pos::zero) Meshes \<Rightarrow> 'pos Vertex list \<times> UINT" where
  "verticesAfter_prism m =
     (case verticesAfter_halfCone m of
        (vertices, k) \<Rightarrow> FillVertices Orange (Vertices (prism m)) vertices k)"

definition verticesAfter_diamond :: "('pos::zero) Meshes \<Rightarrow> 'pos Vertex list \<times> UINT" where
  "verticesAfter_diamond m =
     (case verticesAfter_prism m of
        (vertices, k) \<Rightarrow> FillVertices Silver (Vertices (diamond m)) vertices k)"

definition vertices :: "('pos::zero) Meshes \<Rightarrow> 'pos Vertex list" where
  "vertices m = fst (verticesAfter_diamond m)"

text \<open>The index buffer: the 16-bit index arrays appended in order.\<close>

definition indices :: "'pos Meshes \<Rightarrow> 16 word list" where
  "indices m =
     GetIndices16 (box m) @
     GetIndices16 (grid m) @
     GetIndices16 (sphere m) @
     GetIndices16 (cylinder m) @
     GetIndices16 (pyramid m) @
     GetIndices16 (wedge m) @
     GetIndices16 (cone m) @
     GetIndices16 (halfCone m) @
     GetIndices16 (prism m) @
     GetIndices16 (diamond m)"

text \<open>\<open>(UINT)vertices.size() * sizeof(Vertex)\<close> and
  \<open>(UINT)indices.size() * sizeof(std::uint16_t)\<close>, each stored into a \<open>UINT\<close>.\<close>

definition vbByteSize :: "('pos::zero) Meshes \<Rightarrow> UINT" where
  "vbByteSize m = of_nat (unat (of_nat (length (vertices m)) :: UINT) * sizeof_Vertex)"

definition ibByteSize :: "'pos Meshes \<Rightarrow> UINT" where
  "ibByteSize m = of_nat (unat (of_nat (length (indices m)) :: UINT) * sizeof_uint16)"

text \<open>The sub-range table, assigned key by key.\<close>

definition BuildDrawArgs :: "'pos Meshes \<Rightarrow> (string \<rightharpoonup> SubmeshGeometry)" where
  "BuildDrawArgs m =
     Map.empty(''box'' \<mapsto> boxSubmesh m,
       ''grid'' \<mapsto> gridSubmesh m,
       ''sphere'' \<mapsto> sphereSubmesh m,
       ''cylinder'' \<mapsto> cylinderSubmesh m,
       ''pyramid'' \<mapsto> pyramidSubmesh m,
       ''wedge'' \<mapsto> wedgeSubmesh m,
       ''cone'' \<mapsto> coneSubmesh m,
       ''halfCone'' \<mapsto> halfConeSubmesh m,
       ''prism'' \<mapsto> prismSubmesh m,
       ''diamond'' \<mapsto> diamondSubmesh m)"

text \<open>\<open>BuildShapeGeometry\<close>. The CPU blobs and the GPU buffers receive the first
  \<open>vbByteSize\<close> bytes of \<open>vertices\<close> and the first \<open>ibByteSize\<close> bytes of \<open>indices\<close>.
  The only failing branches are the four device calls.\<close>

definition BuildShapeGeometry :: "Device \<Rightarrow> ('pos::zero) Meshes \<Rightarrow> error + 'pos MeshGeometry" where
  "BuildShapeGeometry dev m =
     (if \<not> D3DCreateBlob dev (vbByteSize m) then Inl DxException
      else if \<not> D3DCreateBlob dev (ibByteSize m) then Inl DxException
      else if \<not> CreateDefaultBuffer dev (vbByteSize m) then Inl DxException
      else if \<not> CreateDefaultBuffer dev (ibByteSize m) then Inl DxException
      else Inr
        \<lparr> Name = ''shapeGeo'',
          VertexBufferCPU = take (unat (vbByteSize m) div sizeof_Vertex) (vertices m),
          IndexBufferCPU = take (unat (ibByteSize m) div sizeof_uint16) (indices m),
          VertexBufferGPU = take (unat (vbByteSize m) div sizeof_Vertex) (vertices m),
          IndexBufferGPU = take (unat (ibByteSize m) div sizeof_uint16) (indices m),
          VertexByteStride = of_nat sizeof_Vertex,
          VertexBufferByteSize = vbByteSize m,
          IndexFormat = DXGI_FORMAT_R16_UINT,
          IndexBufferByteSize = ibByteSize m,
          DrawArgs = BuildDrawArgs m \<rparr>)"

text \<open>The shapes in input order, each with the key of its sub-range, its mesh and its
  colour.\<close>

definition Shapes :: "'pos Meshes \<Rightarrow> (string \<times> 'pos MeshData \<times> Color4) list" where
  "Shapes m =
     [ (''box'', box m, Purple),
       (''grid'', grid m, Gray),
       (''sphere'', sphere m, LightBlue),
       (''cylinder'', cylinder m, SteelBlue),
       (''pyramid'', pyramid m, Yellow),
       (''wedge'', wedge m, Crimson),
       (''cone'', cone m, Pink),
       (''halfCone'', halfCone m, LightGreen),
       (''prism'', prism m, Orange),
       (''diamond'', diamond m, Silver) ]"

text \<open>Sub-ranges tile \<open>[start, fin)\<close> when each begins where the one before it ends
  and the last ends at \<open>fin\<close>.\<close>

fun tiles :: "nat \<Rightarrow> SubmeshGeometry list \<Rightarrow> nat \<Rightarrow> bool" where
  "tiles start [] fin = (start = fin)"
| "tiles start (sm # sms) fin =
     (unat (StartIndexLocation sm) = start \<and> tiles (start + unat (IndexCount sm)) sms fin)"

text \<open>What the build is to deliver, stated over the list of shapes: the coloured
  vertices and the 16-bit indices of all shapes in input order, and for each shape the
  sub-range that begins at the index count and the vertex count accumulated before it.\<close>

definition Colored :: "Color4 \<Rightarrow> 'pos MeshData \<Rightarrow> 'pos Vertex list" where
  "Colored c mesh = map (\<lambda>v. \<lparr> Pos = Position v, Color = c \<rparr>) (Vertices mesh)"

definition AllVertices :: "(string \<times> 'pos MeshData \<times> Color4) list \<Rightarrow> 'pos Vertex list" where
  "AllVertices shapes = concat (map (\<lambda>(name, mesh, c). Colored c mesh) shapes)"

definition AllIndices :: "(string \<times> 'pos MeshData \<times> Color4) list \<Rightarrow> 16 word list" where
  "AllIndices shapes = concat (map (\<lambda>(name, mesh, c). GetIndices16 mesh) shapes)"

fun SubRanges :: "nat \<Rightarrow> nat \<Rightarrow> (string \<times> 'pos MeshData \<times> Color4) list \<Rightarrow> SubmeshGeometry list" where
  "SubRanges i v [] = []"
| "SubRanges i v ((name, mesh, c) # shapes) =
     \<lparr> IndexCount = of_nat (length (Indices32 mesh)),
       StartIndexLocation = of_nat i,
       BaseVertexLocation = sint (of_nat v :: UINT) \<rparr>
     # SubRanges (i + length (Indices32 mesh)) (v + length (Vertices mesh)) shapes"

text \<open>A mesh is well formed when each of its indices addresses one of its vertices.\<close>

definition WellFormedMesh :: "'pos MeshData \<Rightarrow> bool" where
  "WellFormedMesh mesh = list_all (\<lambda>ix. unat ix < length (Vertices mesh)) (Indices32 mesh)"

text \<open>A sub-range \<open>sm\<close> fits a shape in the buffers \<open>vb\<close> and \<open>ib\<close> when its index count
  is the shape's, the indices it covers are the shape's 16-bit indices, the vertices from
  its base vertex on are the shape's coloured vertices, and the base vertex plus any of
  the shape's stored indices addresses a vertex of \<open>vb\<close>.\<close>

definition SliceOK ::
  "'pos Vertex list \<Rightarrow> 16 word list \<Rightarrow> SubmeshGeometry \<Rightarrow> 'pos MeshData \<Rightarrow> Color4 \<Rightarrow> bool" where
  "SliceOK vb ib sm mesh c =
     (unat (IndexCount sm) = length (Indices32 mesh) \<and>
      take (unat (IndexCount sm)) (drop (unat (StartIndexLocation sm)) ib) = GetIndices16 mesh \<and>
      0 \<le> BaseVertexLocation sm \<and>
      take (length (Vertices mesh)) (drop (nat (BaseVertexLocation sm)) vb) = Colored c mesh \<and>
      list_all (\<lambda>ix. nat (BaseVertexLocation sm) + unat ix < length vb) (GetIndices16 mesh))"

text \<open>A device on which every creation succeeds, and a shape set of 65537 vertices: a
  box of 65537 vertices whose last index is 65536, all other shapes empty.\<close>

definition AcceptAll :: Device where
  "AcceptAll = \<lparr> D3DCreateBlob = (\<lambda>size. True), CreateDefaultBuffer = (\<lambda>size. True) \<rparr>"

definition EmptyMesh :: "nat MeshData" where
  "EmptyMesh = \<lparr> Vertices = [], Indices32 = [] \<rparr>"

definition BigMeshes :: "nat Meshes" where
  "BigMeshes =
     \<lparr> box = \<lparr> Vertices = replicate 65537 \<lparr> Position = 0 \<rparr>, Indices32 = [0, 1, 65536] \<rparr>,
       grid = EmptyMesh, sphere = EmptyMesh, cylinder = EmptyMesh, pyramid = EmptyMesh,
       wedge = EmptyMesh, cone = EmptyMesh, halfCone = EmptyMesh, prism = EmptyMesh,
       diamond = EmptyMesh \<rparr>"

section \<open>Camera: \<open>ShapesApp::OnMouseMove\<close>\<close>

text \<open>The orbit camera. A \<open>float\<close> is a single-precision number, modelled by the real
  number it denotes. \<open>RoundToSingle\<close> takes a real number to the nearest
  single-precision number, a tie going to the even significand: with \<open>e\<close> the binary
  exponent of the argument, not below -126 where the subnormal numbers begin, the result
  is the nearest multiple of \<open>2 powi (e - 23)\<close>. Results of magnitude \<open>2 ^ 128\<close> or more,
  which single precision replaces by an infinity, are not modelled. Every floating-point
  operation is the exact operation followed by \<open>RoundToSingle\<close>, and a decimal literal
  denotes \<open>RoundToSingle\<close> of its decimal value.\<close>

fun ExponentSearch :: "nat \<Rightarrow> real \<Rightarrow> int" where
  "ExponentSearch 0 y = - 126"
| "ExponentSearch (Suc n) y =
     (if 2 powi (int n - 125) \<le> y then int n - 125 else ExponentSearch n y)"

definition RoundHalfEven :: "real \<Rightarrow> int" where
  "RoundHalfEven z =
     (let f = \<lfloor>z\<rfloor>; d = z - of_int f
      in if d < 1 / 2 then f else if 1 / 2 < d then f + 1 else if even f then f else f + 1)"

definition RoundToSingle :: "real \<Rightarrow> real" where
  "RoundToSingle x =
     (let q = 2 powi (ExponentSearch 253 \<bar>x\<bar> - 23)
      in of_int (RoundHalfEven (x / q)) * q)"

text \<open>Window coordinates are 32-bit integers (\<open>int\<close>, and the \<open>LONG\<close> members of
  \<open>POINT\<close>), read as signed; their difference is taken in 32 bits.\<close>

record Camera =
  mTheta :: real
  mPhi :: real
  mRadius :: real
  mLastMousePos :: "32 word \<times> 32 word"

text \<open>\<open>XM_PI\<close> (DirectXMath) is the literal \<open>3.141592654f\<close>.\<close>

definition XM_PI :: real where
  "XM_PI = RoundToSingle 3.141592654"

text \<open>The member initialisers \<open>1.5f*XM_PI\<close>, \<open>0.2f*XM_PI\<close>, \<open>15.0f\<close>; \<open>mLastMousePos\<close>
  has none, \<open>p0\<close> is whatever it holds.\<close>

definition Camera_new :: "32 word \<times> 32 word \<Rightarrow> Camera" where
  "Camera_new p0 =
     \<lparr> mTheta = RoundToSingle (RoundToSingle 1.5 * XM_PI),
       mPhi = RoundToSingle (RoundToSingle 0.2 * XM_PI),
       mRadius = RoundToSingle 15, mLastMousePos = p0 \<rparr>"

text \<open>Modelled from the spec: \<open>MathHelper::Clamp\<close> (MathHelper.h is not among the sources)
  restricts a value to the range from \<open>low\<close> to \<open>high\<close>, and \<open>MathHelper::Pi\<close> is the
  constant \<open>\<pi>\<close> as a \<open>float\<close>, the literal \<open>3.1415926535f\<close>.\<close>

definition Clamp :: "real \<Rightarrow> real \<Rightarrow> real \<Rightarrow> real" where
  "Clamp x low high = (if x < low then low else if x > high then high else x)"

definition MathHelper_Pi :: real where
  "MathHelper_Pi = RoundToSingle 3.1415926535"

text \<open>\<open>XMConvertToRadians\<close> (DirectXMath) returns \<open>fDegrees * (XM_PI / 180.0f)\<close>.\<close>

definition XMConvertToRadians :: "real \<Rightarrow> real" where
  "XMConvertToRadians fDegrees =
     RoundToSingle (fDegrees * RoundToSingle (XM_PI / RoundToSingle 180))"

definition MK_LBUTTON :: "64 word" where
  "MK_LBUTTON = 1"

definition MK_RBUTTON :: "64 word" where
  "MK_RBUTTON = 2"

definition OnMouseDown :: "64 word \<Rightarrow> 32 word \<Rightarrow> 32 word \<Rightarrow> Camera \<Rightarrow> Camera" where
  "OnMouseDown btnState x y s = s\<lparr> mLastMousePos := (x, y) \<rparr>"

definition OnMouseMove :: "64 word \<Rightarrow> 32 word \<Rightarrow> 32 word \<Rightarrow> Camera \<Rightarrow> Camera" where
  "OnMouseMove btnState x y s =
     (let s' =
        (if btnState AND MK_LBUTTON \<noteq> 0 then
           (let dx = XMConvertToRadians
                       (RoundToSingle (RoundToSingle 0.25 *
                          RoundToSingle (real_of_int (sint (x - fst (mLastMousePos s))))));
                dy = XMConvertToRadians
                       (RoundToSingle (RoundToSingle 0.25 *
                          RoundToSingle (real_of_int (sint (y - snd (mLastMousePos s))))));
                s1 = s\<lparr> mTheta := RoundToSingle (mTheta s + dx) \<rparr>;
                s2 = s1\<lparr> mPhi := RoundToSingle (mPhi s1 + dy) \<rparr>
            in s2\<lparr> mPhi := Clamp (mPhi s2) (RoundToSingle 0.1)
                              (RoundToSingle (MathHelper_Pi - RoundToSingle 0.1)) \<rparr>)
         else if btnState AND MK_RBUTTON \<noteq> 0 then
           (let dx = RoundToSingle (RoundToSingle 0.05 *
                       RoundToSingle (real_of_int (sint (x - fst (mLastMousePos s)))));
                dy = RoundToSingle (RoundToSingle 0.05 *
                       RoundToSingle (real_of_int (sint (y - snd (mLastMousePos s)))));
                s1 = s\<lparr> mRadius := RoundToSingle (mRadius s + RoundToSingle (dx - dy)) \<rparr>
            in s1\<lparr> mRadius := Clamp (mRadius s1) (RoundToSingle 5) (RoundToSingle 150) \<rparr>)
         else s)
      in s'\<lparr> mLastMousePos := (x, y) \<rparr>)"

text \<open>A sequence of pointer-move events, each a button state and a position.\<close>

definition PointerMoves :: "(64 word \<times> 32 word \<times> 32 word) list \<Rightarrow> Camera \<Rightarrow> Camera" where
  "PointerMoves evs s = fold (\<lambda>(btnState, x, y). OnMouseMove btnState x y) evs s"

text \<open>The bounds the camera is kept to: the two arguments of each \<open>Clamp\<close>.\<close>

definition CameraInRange :: "Camera \<Rightarrow> bool" where
  "CameraInRange s =
     (RoundToSingle 0.1 \<le> mPhi s \<and>
      mPhi s \<le> RoundToSingle (MathHelper_Pi - RoundToSingle 0.1) \<and>
      RoundToSingle 5 \<le> mRadius s \<and> mRadius s \<le> RoundToSingle 150)"

text \<open>The two effects of one iteration of the loop of \<open>UpdateObjectCBs\<close>, on the item
  and on the current per-object buffer.\<close>

definition ItemRefreshed :: "'a RenderItem \<Rightarrow> 'a RenderItem" where
  "ItemRefreshed e =
     (if NumFramesDirty e > 0 then e\<lparr> NumFramesDirty := NumFramesDirty e - 1 \<rparr> else e)"

definition BufferRefreshed ::
  "'a RenderItem \<Rightarrow> (UINT \<rightharpoonup> 'a XMFLOAT4X4) \<Rightarrow> (UINT \<rightharpoonup> 'a XMFLOAT4X4)" where
  "BufferRefreshed e cb =
     (if NumFramesDirty e > 0
      then CopyData (ObjCBIndex e) (XMMatrixTranspose (World e)) cb else cb)"

text \<open>The slot that the next \<open>Update\<close> makes current, and the fence value last stored
  in it.\<close>

definition NextSlot :: "nat \<Rightarrow> ('a, 'p) ShapesApp \<Rightarrow> nat" where
  "NextSlot N s = (mCurrFrameResourceIndex s + 1) mod N"

definition NextSlotFence :: "nat \<Rightarrow> ('a, 'p) ShapesApp \<Rightarrow> UINT64" where
  "NextSlotFence N s = Fence (mFrameResources s ! NextSlot N s)"

section \<open>A concrete run\<close>

text \<open>A small input on which the functions above are evaluated: every generator
  delivers one triangle, positions are numbered, every world matrix is the identity over
  the integers, the fence counter is 0 when \<open>Initialize\<close> returns, and pass constants
  carry no data.\<close>

definition TriangleMesh :: "nat MeshData" where
  "TriangleMesh =
     \<lparr> Vertices = [\<lparr> Position = 0 \<rparr>, \<lparr> Position = 1 \<rparr>, \<lparr> Position = 2 \<rparr>],
       Indices32 = [0, 1, 2] \<rparr>"

definition ExampleMeshes :: "nat Meshes" where
  "ExampleMeshes =
     \<lparr> box = TriangleMesh, grid = TriangleMesh, sphere = TriangleMesh,
       cylinder = TriangleMesh, pyramid = TriangleMesh, wedge = TriangleMesh,
       cone = TriangleMesh, halfCone = TriangleMesh, prism = TriangleMesh,
       diamond = TriangleMesh \<rparr>"

definition ExampleApp :: "(int, unit) ShapesApp" where
  "ExampleApp =
     Initialize gNumFrameResources 0 (BuildDrawArgs ExampleMeshes) (\<lambda>name. Identity4x4)"

text \<open>A state with 17 opaque render items, before the descriptor heap is built.\<close>

definition SeventeenObjects :: "(int, unit) ShapesApp" where
  "SeventeenObjects =
     (ShapesApp_new 0)
       \<lparr> mAllRitems := replicate 17 (RenderItem_default gNumFrameResources),
         mOpaqueRitems := [0..<17] \<rparr>"

section \<open>Verified properties\<close>

subsection \<open>Single-precision constants\<close>

lemma ExponentSearch_eq:
  "2 powi e \<le> y \<Longrightarrow> y < 2 powi (e + 1) \<Longrightarrow> - 126 \<le> e \<Longrightarrow> e \<le> int n - 126 \<Longrightarrow>
   ExponentSearch n y = e"
proof (induction n)
  case 0 then show ?case by simp
next
  case (Suc n)
  show ?case
  proof (cases "e = int n - 125")
    case True then show ?thesis using Suc.prems(1) by simp
  next
    case False
    then have le: "e \<le> int n - 126" using Suc.prems(4) by simp
    then have "e + 1 \<le> int n - 125" by simp
    then have "(2::real) powi (e + 1) \<le> 2 powi (int n - 125)"
      by (intro power_int_increasing) simp_all
    then have "\<not> 2 powi (int n - 125) \<le> y" using Suc.prems(2) by simp
    then show ?thesis using Suc.IH[OF Suc.prems(1,2,3) le] by simp
  qed
qed

lemma RoundToSingle_eval:
  assumes "2 powi e \<le> \<bar>x\<bar>" "\<bar>x\<bar> < 2 powi (e + 1)" "- 126 \<le> e" "e \<le> 127"
  shows "RoundToSingle x = of_int (RoundHalfEven (x / 2 powi (e - 23))) * 2 powi (e - 23)"
proof -
  have "ExponentSearch 253 \<bar>x\<bar> = e" using assms by (intro ExponentSearch_eq) simp_all
  then show ?thesis by (simp add: RoundToSingle_def Let_def)
qed

lemma MathHelper_Pi_value: "MathHelper_Pi = 13176795 / 4194304"
  unfolding MathHelper_Pi_def
  by (subst RoundToSingle_eval[where e = 1])
     (simp_all add: RoundHalfEven_def Let_def power_int_def power_one_over)

lemma XM_PI_value: "XM_PI = 13176795 / 4194304"
  unfolding XM_PI_def
  by (subst RoundToSingle_eval[where e = 1])
     (simp_all add: RoundHalfEven_def Let_def power_int_def power_one_over)

lemma single_tenth: "RoundToSingle 0.1 = 13421773 / 134217728"
  by (subst RoundToSingle_eval[where e = "- 4"])
     (simp_all add: RoundHalfEven_def Let_def power_int_def power_one_over)

lemma single_fifth: "RoundToSingle 0.2 = 13421773 / 67108864"
  by (subst RoundToSingle_eval[where e = "- 3"])
     (simp_all add: RoundHalfEven_def Let_def power_int_def power_one_over)

lemma single_quarter: "RoundToSingle 0.25 = 1 / 4"
  by (subst RoundToSingle_eval[where e = "- 2"])
     (simp_all add: RoundHalfEven_def Let_def power_int_def power_one_over)

lemma single_5: "RoundToSingle 5 = 5"
  by (subst RoundToSingle_eval[where e = 2])
     (simp_all add: RoundHalfEven_def Let_def power_int_def power_one_over)

lemma single_15: "RoundToSingle 15 = 15"
  by (subst RoundToSingle_eval[where e = 3])
     (simp_all add: RoundHalfEven_def Let_def power_int_def power_one_over)

lemma single_150: "RoundToSingle 150 = 150"
  by (subst RoundToSingle_eval[where e = 7])
     (simp_all add: RoundHalfEven_def Let_def power_int_def power_one_over)

lemma single_180: "RoundToSingle 180 = 180"
  by (subst RoundToSingle_eval[where e = 7])
     (simp_all add: RoundHalfEven_def Let_def power_int_def power_one_over)

lemma single_500: "RoundToSingle 500 = 500"
  by (subst RoundToSingle_eval[where e = 8])
     (simp_all add: RoundHalfEven_def Let_def power_int_def power_one_over)

lemma single_2000: "RoundToSingle 2000 = 2000"
  by (subst RoundToSingle_eval[where e = 10])
     (simp_all add: RoundHalfEven_def Let_def power_int_def power_one_over)

lemma phi_max: "RoundToSingle (MathHelper_Pi - RoundToSingle 0.1) = 12757365 / 4194304"
  unfolding MathHelper_Pi_value single_tenth
  by (subst RoundToSingle_eval[where e = 1])
     (simp_all add: RoundHalfEven_def Let_def power_int_def power_one_over)

lemma phi_initial: "RoundToSingle (RoundToSingle 0.2 * XM_PI) = 2635359 / 4194304"
  unfolding XM_PI_value single_fifth
  by (subst RoundToSingle_eval[where e = "- 1"])
     (simp_all add: RoundHalfEven_def Let_def power_int_def power_one_over)

lemma radians_per_degree: "RoundToSingle (XM_PI / RoundToSingle 180) = 9370165 / 536870912"
  unfolding XM_PI_value single_180
  by (subst RoundToSingle_eval[where e = "- 6"])
     (simp_all add: RoundHalfEven_def Let_def power_int_def power_one_over)

lemma radians_500: "XMConvertToRadians 500 = 1143819 / 131072"
  unfolding XMConvertToRadians_def radians_per_degree
  by (subst RoundToSingle_eval[where e = 3])
     (simp_all add: RoundHalfEven_def Let_def power_int_def power_one_over)

lemma radians_0: "XMConvertToRadians 0 = 0"
  by (simp add: XMConvertToRadians_def RoundToSingle_def RoundHalfEven_def)

lemma single_0: "RoundToSingle 0 = 0"
  by (simp add: RoundToSingle_def RoundHalfEven_def)

lemma phi_dragged: "RoundToSingle (2635359 / 4194304 + 1143819 / 131072) = 613087 / 65536"
  by (subst RoundToSingle_eval[where e = 3])
     (simp_all add: RoundHalfEven_def Let_def power_int_def power_one_over)

subsection \<open>Bounds on \<open>\<pi>\<close>\<close>

lemma sum_below_14:
  "(\<Sum>m<14. (g::nat \<Rightarrow> real) m) =
     g 0 + g 1 + g 2 + g 3 + g 4 + g 5 + g 6 + g 7 + g 8 + g 9 + g 10 + g 11 + g 12 + g 13"
proof -
  have "{..<14::nat} = {0, 1, 2, 3, 4, 5, 6, 7, 8, 9, 10, 11, 12, 13}" by auto arith
  then show ?thesis by simp
qed

lemma sum_below_8:
  "(\<Sum>m<8. (g::nat \<Rightarrow> real) m) = g 0 + g 1 + g 2 + g 3 + g 4 + g 5 + g 6 + g 7"
proof -
  have "{..<8::nat} = {0, 1, 2, 3, 4, 5, 6, 7}" by auto
  then show ?thesis by simp
qed

lemma cos_coeffs:
  "cos_coeff 0 = 1" "cos_coeff 1 = 0" "cos_coeff 2 = - 1 / 2" "cos_coeff 3 = 0"
  "cos_coeff 4 = 1 / 24" "cos_coeff 5 = 0" "cos_coeff 6 = - 1 / 720" "cos_coeff 7 = 0"
  "cos_coeff 8 = 1 / 40320" "cos_coeff 9 = 0" "cos_coeff 10 = - 1 / 3628800"
  "cos_coeff 11 = 0" "cos_coeff 12 = 1 / 479001600" "cos_coeff 13 = 0"
  by (simp_all add: cos_coeff_def fact_numeral)

lemma cos_series_14:
  "(\<Sum>m<14. cos_coeff m * (x::real) ^ m) =
     1 - x^2 / 2 + x^4 / 24 - x^6 / 720 + x^8 / 40320 - x^10 / 3628800 + x^12 / 479001600"
  by (simp only: sum_below_14 cos_coeffs) simp

lemma cos_series_8:
  "(\<Sum>m<8. cos_coeff m * (x::real) ^ m) = 1 - x^2 / 2 + x^4 / 24 - x^6 / 720"
  by (simp only: sum_below_8 cos_coeffs) simp

lemma cos_upper_14:
  assumes "0 < (x::real)"
  shows "cos x \<le> (\<Sum>m<14. cos_coeff m * x ^ m) + x ^ 14 / fact 14"
proof -
  obtain t where
    "cos x = (\<Sum>m<14. cos_coeff m * x ^ m) + (cos (t + 1 / 2 * real 14 * pi) / fact 14) * x ^ 14"
    using Maclaurin_cos_expansion2[OF assms, of 14] by auto
  moreover have "(cos (t + 1 / 2 * real 14 * pi) / fact 14) * x ^ 14 \<le> (1 / fact 14) * x ^ 14"
    using assms by (intro mult_right_mono divide_right_mono) simp_all
  ultimately show ?thesis by simp
qed

lemma cos_lower_8:
  assumes "0 < (x::real)"
  shows "(\<Sum>m<8. cos_coeff m * x ^ m) - x ^ 8 / fact 8 \<le> cos x"
proof -
  obtain t where
    "cos x = (\<Sum>m<8. cos_coeff m * x ^ m) + (cos (t + 1 / 2 * real 8 * pi) / fact 8) * x ^ 8"
    using Maclaurin_cos_expansion2[OF assms, of 8] by auto
  moreover have "(- 1 / fact 8) * x ^ 8 \<le> (cos (t + 1 / 2 * real 8 * pi) / fact 8) * x ^ 8"
    using assms by (intro mult_right_mono divide_right_mono) simp_all
  ultimately show ?thesis by simp
qed

lemma cos_negative_at:
  "1 - (1.5707964::real)^2 / 2 + 1.5707964^4 / 24 - 1.5707964^6 / 720 + 1.5707964^8 / 40320
     - 1.5707964^10 / 3628800 + 1.5707964^12 / 479001600 + 1.5707964 ^ 14 / 87178291200 < 0"
  by (simp add: power_divide)

lemma cos_positive_at:
  "0 < 1 - (1.5208::real)^2 / 2 + 1.5208^4 / 24 - 1.5208^6 / 720 - 1.5208 ^ 8 / 40320"
  by (simp add: power_divide)

lemma pi_upper: "pi < 3.1415928"
proof (rule ccontr)
  assume "\<not> pi < 3.1415928"
  then have "(1.5707964::real) \<le> pi / 2" by simp
  then have "0 \<le> cos (1.5707964::real)" by (intro cos_ge_zero) simp_all
  moreover have "cos (1.5707964::real)
      \<le> (\<Sum>m<14. cos_coeff m * 1.5707964 ^ m) + 1.5707964 ^ 14 / fact 14"
    by (rule cos_upper_14) simp
  moreover have "(\<Sum>m<14. cos_coeff m * (1.5707964::real) ^ m) + 1.5707964 ^ 14 / fact 14 < 0"
    unfolding cos_series_14 using cos_negative_at by (simp add: fact_numeral)
  ultimately show False by simp
qed

lemma pi_lower: "3.0416 < pi"
proof (rule ccontr)
  assume "\<not> 3.0416 < pi"
  then have h: "pi / 2 \<le> (1.5208::real)" by simp
  have "(1.5208::real) \<le> pi" using pi_ge_two by simp
  then have "cos (1.5208::real) \<le> cos (pi / 2)"
    using h by (intro cos_monotone_0_pi_le) simp_all
  then have "cos (1.5208::real) \<le> 0" by simp
  moreover have "(\<Sum>m<8. cos_coeff m * 1.5208 ^ m) - 1.5208 ^ 8 / fact 8 \<le> cos (1.5208::real)"
    by (rule cos_lower_8) simp
  moreover have "0 < (\<Sum>m<8. cos_coeff m * (1.5208::real) ^ m) - 1.5208 ^ 8 / fact 8"
    unfolding cos_series_8 using cos_positive_at by (simp add: fact_numeral)
  ultimately show False by simp
qed

subsection \<open>Camera bounds\<close>

lemma Clamp_bounds: "low \<le> high \<Longrightarrow> low \<le> Clamp x low high \<and> Clamp x low high \<le> high"
  by (simp add: Clamp_def)

lemma CameraInRange_new: "CameraInRange (Camera_new p0)"
  unfolding CameraInRange_def Camera_new_def
  unfolding phi_initial phi_max
  unfolding single_tenth single_5 single_15 single_150
  by simp

lemma clamp_ranges:
  "RoundToSingle 0.1 \<le> RoundToSingle (MathHelper_Pi - RoundToSingle 0.1)"
  "RoundToSingle 5 \<le> RoundToSingle 150"
  unfolding phi_max
  unfolding single_tenth single_5 single_150
  by simp_all

lemma OnMouseMove_inv: "CameraInRange s \<Longrightarrow> CameraInRange (OnMouseMove b x y s)"
  using Clamp_bounds[OF clamp_ranges(1)] Clamp_bounds[OF clamp_ranges(2)]
  by (simp add: CameraInRange_def OnMouseMove_def Let_def)

lemma PointerMoves_inv: "CameraInRange s \<Longrightarrow> CameraInRange (PointerMoves evs s)"
  unfolding PointerMoves_def
  by (induction evs arbitrary: s) (auto simp: OnMouseMove_inv)

lemma OnMouseMove_left_phi:
  "btnState AND MK_LBUTTON \<noteq> 0 \<Longrightarrow>
   mPhi (OnMouseMove btnState x y s) =
     Clamp (RoundToSingle (mPhi s + XMConvertToRadians
              (RoundToSingle (RoundToSingle 0.25 *
                 RoundToSingle (real_of_int (sint (y - snd (mLastMousePos s))))))))
       (RoundToSingle 0.1) (RoundToSingle (MathHelper_Pi - RoundToSingle 0.1))"
  by (simp add: OnMouseMove_def Let_def)

lemma radians_of_2000_pixels:
  "XMConvertToRadians (RoundToSingle (RoundToSingle 0.25 * RoundToSingle 2000)) = 1143819 / 131072"
proof -
  have "RoundToSingle 0.25 * RoundToSingle 2000 = 500"
    unfolding single_quarter single_2000 by simp
  then show ?thesis by (simp only: single_500 radians_500)
qed

lemma drag_2000:
  "mPhi (PointerMoves [(MK_LBUTTON, 0, 2000)] (OnMouseDown MK_LBUTTON 0 0 (Camera_new p0)))
     = 12757365 / 4194304"
proof -
  let ?s = "OnMouseDown MK_LBUTTON 0 0 (Camera_new p0)"
  have a: "mPhi ?s = 2635359 / 4194304"
    unfolding OnMouseDown_def Camera_new_def
    unfolding phi_initial
    by simp
  have b: "real_of_int (sint (2000 - snd (mLastMousePos ?s))) = 2000"
    by (simp add: OnMouseDown_def)
  have c: "MK_LBUTTON AND MK_LBUTTON \<noteq> 0" by (simp add: MK_LBUTTON_def)
  have "mPhi (PointerMoves [(MK_LBUTTON, 0, 2000)] ?s) = mPhi (OnMouseMove MK_LBUTTON 0 2000 ?s)"
    by (simp add: PointerMoves_def)
  also have "\<dots> =
     Clamp (RoundToSingle (mPhi ?s + XMConvertToRadians
              (RoundToSingle (RoundToSingle 0.25 *
                 RoundToSingle (real_of_int (sint (2000 - snd (mLastMousePos ?s))))))))
       (RoundToSingle 0.1) (RoundToSingle (MathHelper_Pi - RoundToSingle 0.1))"
    using c by (rule OnMouseMove_left_phi)
  also have "\<dots> = Clamp (613087 / 65536) (RoundToSingle 0.1) (12757365 / 4194304)"
    by (simp only: a b radians_of_2000_pixels phi_dragged phi_max)
  also have "\<dots> = Clamp (613087 / 65536) (13421773 / 134217728) (12757365 / 4194304)"
    by (simp only: single_tenth)
  also have "\<dots> = 12757365 / 4194304" by (simp add: Clamp_def)
  finally show ?thesis .
qed

text \<open>Claim C9, as the code has it. Starting from the camera as constructed, after any
  sequence of pointer-move events (any buttons, any positions) the elevation angle
  \<open>mPhi\<close> lies between the two single-precision numbers that the code passes to
  \<open>Clamp\<close>: \<open>0.1f\<close>, which is 13421773 / 134217728, and \<open>MathHelper::Pi - 0.1f\<close>, which
  is 12757365 / 4194304. That interval lies strictly between the singularities 0 and
  \<open>\<pi>\<close>, and its lower end is not below 0.1. The radius lies in \<open>[5, 150]\<close>. Since the
  sequence is arbitrary, this holds after each event.\<close>

theorem C9_camera_stays_in_range:
  "RoundToSingle 0.1 = 13421773 / 134217728 \<and>
   RoundToSingle (MathHelper_Pi - RoundToSingle 0.1) = 12757365 / 4194304 \<and>
   13421773 / 134217728 \<le> mPhi (PointerMoves evs (Camera_new p0)) \<and>
   mPhi (PointerMoves evs (Camera_new p0)) \<le> 12757365 / 4194304 \<and>
   0.1 \<le> mPhi (PointerMoves evs (Camera_new p0)) \<and>
   0 < mPhi (PointerMoves evs (Camera_new p0)) \<and>
   mPhi (PointerMoves evs (Camera_new p0)) < pi \<and>
   5 \<le> mRadius (PointerMoves evs (Camera_new p0)) \<and>
   mRadius (PointerMoves evs (Camera_new p0)) \<le> 150"
proof -
  have "CameraInRange (PointerMoves evs (Camera_new p0))"
    using CameraInRange_new by (rule PointerMoves_inv)
  then have b: "13421773 / 134217728 \<le> mPhi (PointerMoves evs (Camera_new p0))"
      "mPhi (PointerMoves evs (Camera_new p0)) \<le> 12757365 / 4194304"
      "5 \<le> mRadius (PointerMoves evs (Camera_new p0))"
      "mRadius (PointerMoves evs (Camera_new p0)) \<le> 150"
    unfolding CameraInRange_def
    unfolding phi_max
    unfolding single_tenth single_5 single_150
    by simp_all
  have "mPhi (PointerMoves evs (Camera_new p0)) < pi"
    using b(2) pi_lower by simp
  then show ?thesis using b single_tenth phi_max by (simp only: simp_thms) simp
qed

text \<open>Claim C9 as stated fails: the upper end of the interval is not \<open>\<pi> - 0.1\<close>. After
  a press at (0, 0) and a drag with the left button to (0, 2000) the elevation angle is
  the upper clamp bound 12757365 / 4194304, which exceeds \<open>\<pi> - 0.1\<close>.\<close>

theorem C9_elevation_counterexample:
  "pi - 0.1 < mPhi (PointerMoves [(MK_LBUTTON, 0, 2000)]
                     (OnMouseDown MK_LBUTTON 0 0 (Camera_new (0, 0))))"
proof -
  have "pi - 0.1 < (12757365 / 4194304 :: real)" using pi_upper by simp
  then show ?thesis by (simp only: drag_2000)
qed

subsection \<open>One call of \<open>Update\<close> and of \<open>Draw\<close>, field by field\<close>

lemma loop_eq:
  "UpdateObjectCBs_loop cur es cb tr =
     (map ItemRefreshed es, fold BufferRefreshed es cb,
      tr @ map (\<lambda>e. CopyObjectCB cur (ObjCBIndex e)) (filter (\<lambda>e. NumFramesDirty e > 0) es))"
  by (induction es arbitrary: cb tr) (simp_all add: ItemRefreshed_def BufferRefreshed_def)

lemma fold_cb_other:
  "k \<notin> ObjCBIndex ` set es \<Longrightarrow> fold BufferRefreshed es cb k = cb k"
  by (induction es arbitrary: cb) (auto simp: CopyData_def BufferRefreshed_def)

lemma fold_cb_clean:
  "\<forall>e \<in> set es. NumFramesDirty e \<le> 0 \<Longrightarrow> fold BufferRefreshed es cb = cb"
  by (induction es arbitrary: cb) (auto simp: BufferRefreshed_def)

lemma fold_cb_dirty:
  "distinct (map ObjCBIndex es) \<Longrightarrow> e \<in> set es \<Longrightarrow> NumFramesDirty e > 0 \<Longrightarrow>
   fold BufferRefreshed es cb (ObjCBIndex e) = Some (XMMatrixTranspose (World e))"
proof (induction es arbitrary: cb)
  case Nil then show ?case by simp
next
  case (Cons a es)
  show ?case
  proof (cases "e = a")
    case True
    have "ObjCBIndex a \<notin> ObjCBIndex ` set es" using Cons.prems(1) by auto
    then have "fold BufferRefreshed (a # es) cb (ObjCBIndex a) = BufferRefreshed a cb (ObjCBIndex a)"
      by (simp add: fold_cb_other)
    moreover have "BufferRefreshed a cb (ObjCBIndex a) = Some (XMMatrixTranspose (World a))"
      using True Cons.prems(3) by (simp add: CopyData_def BufferRefreshed_def)
    ultimately show ?thesis using True by simp
  next
    case False
    then have "e \<in> set es" using Cons.prems(2) by simp
    then show ?thesis using Cons.IH Cons.prems
      by auto
  qed
qed

lemma copies_not_waits: "concat (map WaitedValue (map (\<lambda>e. CopyObjectCB k (g e)) es)) = []"
  by (induction es) simp_all

lemma copies_not_stores: "concat (map StoredValue (map (\<lambda>e. CopyObjectCB k (g e)) es)) = []"
  by (induction es) simp_all

lemma copies_counted:
  "filter ObjectCopy (map (\<lambda>e. CopyObjectCB k (g e)) es) = map (\<lambda>e. CopyObjectCB k (g e)) es"
  by (induction es) simp_all

lemma Update_returns: "Update N inp s = Inr (AfterUpdate N inp s)"
  by (simp add: Update_def UpdateMainPassCB_def UpdateObjectCBs_def Let_def loop_eq)

lemma Update_index:
  "mCurrFrameResourceIndex (AfterUpdate N inp s) = (mCurrFrameResourceIndex s + 1) mod N"
  by (simp add: Update_def UpdateMainPassCB_def UpdateObjectCBs_def Let_def loop_eq)

lemma Update_pointer:
  "mCurrFrameResource (AfterUpdate N inp s) = Some ((mCurrFrameResourceIndex s + 1) mod N)"
  by (simp add: Update_def UpdateMainPassCB_def UpdateObjectCBs_def Let_def loop_eq)

lemma Update_trace:
  "trace (AfterUpdate N inp s) =
     trace s @
     (if Fence (mFrameResources s ! ((mCurrFrameResourceIndex s + 1) mod N)) \<noteq> 0 \<and>
         fst inp < Fence (mFrameResources s ! ((mCurrFrameResourceIndex s + 1) mod N))
      then [WaitForFence ((mCurrFrameResourceIndex s + 1) mod N)
              (Fence (mFrameResources s ! ((mCurrFrameResourceIndex s + 1) mod N)))]
      else []) @
     map (\<lambda>e. CopyObjectCB ((mCurrFrameResourceIndex s + 1) mod N) (ObjCBIndex e))
         (filter (\<lambda>e. NumFramesDirty e > 0) (mAllRitems s)) @
     [CopyPassCB ((mCurrFrameResourceIndex s + 1) mod N)]"
  by (simp add: Update_def UpdateMainPassCB_def UpdateObjectCBs_def Let_def loop_eq)

lemma Update_waits:
  "waits (AfterUpdate N inp s) =
     waits s @ (if Fence (mFrameResources s ! ((mCurrFrameResourceIndex s + 1) mod N)) \<noteq> 0 \<and>
                   fst inp < Fence (mFrameResources s ! ((mCurrFrameResourceIndex s + 1) mod N))
                then [Fence (mFrameResources s ! ((mCurrFrameResourceIndex s + 1) mod N))] else [])"
  by (simp add: waits_def Update_trace copies_not_waits)

lemma Update_stamps: "stamps (AfterUpdate N inp s) = stamps s"
  by (simp add: stamps_def Update_trace copies_not_stores)

lemma Update_items: "mAllRitems (AfterUpdate N inp s) = map ItemRefreshed (mAllRitems s)"
  by (simp add: Update_def UpdateMainPassCB_def UpdateObjectCBs_def Let_def loop_eq)

lemma Update_writes:
  "objCBWrites (AfterUpdate N inp s) =
     objCBWrites s + length (filter (\<lambda>e. NumFramesDirty e > 0) (mAllRitems s))"
  by (simp add: objCBWrites_def Update_trace copies_counted)

lemma Update_frs:
  "mFrameResources (AfterUpdate N inp s) =
     (mFrameResources s)[(mCurrFrameResourceIndex s + 1) mod N :=
        (mFrameResources s ! ((mCurrFrameResourceIndex s + 1) mod N))
          \<lparr> ObjectCB := fold BufferRefreshed (mAllRitems s)
                          (ObjectCB (mFrameResources s ! ((mCurrFrameResourceIndex s + 1) mod N))),
            PassCB := Some (snd inp) \<rparr>]"
  by (cases "(mCurrFrameResourceIndex s + 1) mod N < length (mFrameResources s)")
     (simp_all add: Update_def UpdateMainPassCB_def UpdateObjectCBs_def Let_def loop_eq
        list_update_beyond not_less)

lemma Update_unchanged:
  "mCurrentFence (AfterUpdate N inp s) = mCurrentFence s"
  "mCommandQueue (AfterUpdate N inp s) = mCommandQueue s"
  "mOpaqueRitems (AfterUpdate N inp s) = mOpaqueRitems s"
  "mPassCbvOffset (AfterUpdate N inp s) = mPassCbvOffset s"
  "mCbvHeap (AfterUpdate N inp s) = mCbvHeap s"
  by (simp_all add: Update_def UpdateMainPassCB_def UpdateObjectCBs_def Let_def loop_eq)

lemma DrawRenderItems_returns:
  "mCurrFrameResource s = Some cur \<Longrightarrow>
   DrawRenderItems s ritems =
     Inr (concat (map (\<lambda>p. [ SetGraphicsRootDescriptorTable 0
                                 (ObjCbvHeapIndex (mCurrFrameResourceIndex s)
                                    (of_nat (length (mOpaqueRitems s))) (ObjCBIndex (mAllRitems s ! p))),
                               DrawIndexedInstanced (riIndexCount (mAllRitems s ! p)) 1
                                 (riStartIndexLocation (mAllRitems s ! p))
                                 (riBaseVertexLocation (mAllRitems s ! p)) 0 ]) ritems))"
  by (simp add: DrawRenderItems_def Let_def)

lemma Draw_null: "mCurrFrameResource s = None \<Longrightarrow> Draw s = Inl NullFrameResource"
  by (simp add: Draw_def)

lemma Draw_returns: "mCurrFrameResource s = Some cur \<Longrightarrow> Draw s = Inr (AfterDraw s)"
  by (simp add: Draw_def DrawRenderItems_def Let_def)

lemma Draw_frs:
  "mCurrFrameResource s = Some cur \<Longrightarrow>
   mFrameResources (AfterDraw s) =
     (mFrameResources s)[cur := (mFrameResources s ! cur)\<lparr> Fence := mCurrentFence s + 1 \<rparr>]"
  by (simp add: Draw_def DrawRenderItems_def Let_def)

lemma Draw_queue:
  "mCurrFrameResource s = Some cur \<Longrightarrow>
   mCommandQueue (AfterDraw s) =
     mCommandQueue s @
       [ExecuteCommandLists cur
          (SetGraphicsRootDescriptorTable 1
             (PassCbvHeapIndex (mPassCbvOffset s) (mCurrFrameResourceIndex s))
           # projr (DrawRenderItems s (mOpaqueRitems s))),
        Signal (mCurrentFence s + 1)]"
  by (simp add: Draw_def DrawRenderItems_def Let_def)

lemma Draw_trace:
  "mCurrFrameResource s = Some cur \<Longrightarrow>
   trace (AfterDraw s) =
     trace s @ [QueueExecute cur, StoreFence cur (mCurrentFence s + 1),
                QueueSignal (mCurrentFence s + 1)]"
  by (simp add: Draw_def DrawRenderItems_def Let_def)

lemma Draw_unchanged:
  assumes "mCurrFrameResource s = Some cur"
  shows "mCurrFrameResourceIndex (AfterDraw s) = mCurrFrameResourceIndex s"
    and "mCurrFrameResource (AfterDraw s) = Some cur"
    and "mAllRitems (AfterDraw s) = mAllRitems s"
    and "mOpaqueRitems (AfterDraw s) = mOpaqueRitems s"
    and "mPassCbvOffset (AfterDraw s) = mPassCbvOffset s"
    and "mCbvHeap (AfterDraw s) = mCbvHeap s"
    and "mCurrentFence (AfterDraw s) = mCurrentFence s + 1"
  using assms by (simp_all add: Draw_def DrawRenderItems_def Let_def)

lemma Draw_ghost:
  assumes "mCurrFrameResource s = Some cur"
  shows "waits (AfterDraw s) = waits s"
    and "objCBWrites (AfterDraw s) = objCBWrites s"
    and "stamps (AfterDraw s) = stamps s @ [mCurrentFence s + 1]"
  using assms by (simp_all add: waits_def objCBWrites_def stamps_def Draw_trace)

lemma Frame_eq: "Frame N inp s = Draw (AfterUpdate N inp s)"
proof -
  obtain s1 where s1: "Update N inp s = Inr s1" using Update_returns by blast
  show ?thesis by (simp add: Frame_def s1)
qed

lemma Frame_returns: "Frame N inp s = Inr (AfterFrame N inp s)"
  unfolding Frame_eq by (rule Draw_returns[OF Update_pointer])

lemmas Frame_Draw_unchanged = Draw_unchanged[OF Update_pointer]

lemmas Frame_Draw_ghost = Draw_ghost[OF Update_pointer]

lemmas Frame_Draw_frs = Draw_frs[OF Update_pointer]

lemmas Frame_Draw_queue = Draw_queue[OF Update_pointer]

lemmas Frame_Draw_trace = Draw_trace[OF Update_pointer]

lemma RunFrames_returns:
  "RunFrames N inps s = Inr (fold (\<lambda>inp s. AfterFrame N inp s) inps s)"
proof (induction inps arbitrary: s)
  case Nil show ?case by simp
next
  case (Cons x xs)
  obtain s1 where s1: "Frame N x s = Inr s1" using Frame_returns by blast
  show ?case by (simp add: s1 Cons.IH)
qed

declare RunFrames.simps [simp del]

lemma AfterFrames_fold: "AfterFrames N inps s = fold (\<lambda>inp s. AfterFrame N inp s) inps s"
  by (simp add: RunFrames_returns)

lemma AfterFrames_Nil [simp]: "AfterFrames N [] s = s"
  by (simp add: AfterFrames_fold)

lemma AfterFrames_Cons: "AfterFrames N (x # xs) s = AfterFrames N xs (AfterFrame N x s)"
  by (simp add: AfterFrames_fold)

lemma RunFrames_total: "RunFrames N inps s = Inr (AfterFrames N inps s)"
  by (simp add: RunFrames_returns)

lemma RunFrames_snoc: "AfterFrames N (inps @ [inp]) s = AfterFrame N inp (AfterFrames N inps s)"
  by (simp add: AfterFrames_fold)

subsection \<open>Runs of frames\<close>

lemma Frame_index:
  "mCurrFrameResourceIndex (AfterFrame N inp s) = (mCurrFrameResourceIndex s + 1) mod N"
  by (simp add: Frame_eq Frame_Draw_unchanged Update_index)

lemma Frame_pointer:
  "mCurrFrameResource (AfterFrame N inp s) = Some ((mCurrFrameResourceIndex s + 1) mod N)"
  by (simp add: Frame_eq Frame_Draw_unchanged)

lemma Frame_fence: "mCurrentFence (AfterFrame N inp s) = mCurrentFence s + 1"
  by (simp add: Frame_eq Frame_Draw_unchanged Update_unchanged)

lemma Frame_length: "length (mFrameResources (AfterFrame N inp s)) = length (mFrameResources s)"
  by (simp add: Frame_eq Frame_Draw_frs Update_frs)

lemma Frame_items: "mAllRitems (AfterFrame N inp s) = map ItemRefreshed (mAllRitems s)"
  by (simp add: Frame_eq Frame_Draw_unchanged Update_items)

lemma RunFrames_index:
  "mCurrFrameResourceIndex (AfterFrames N inps s) = (if inps = [] then mCurrFrameResourceIndex s else (mCurrFrameResourceIndex s + length inps) mod N)"
proof (induction inps rule: rev_induct)
  case Nil show ?case by (simp add: AfterFrames_Nil)
next
  case (snoc x xs)
  show ?case
  proof (cases "xs = []")
    case True then show ?thesis by (simp add: AfterFrames_Cons AfterFrames_Nil Frame_index)
  next
    case False
    then have "mCurrFrameResourceIndex (AfterFrames N xs s) = (mCurrFrameResourceIndex s + length xs) mod N"
      using snoc.IH by simp
    then show ?thesis by (simp add: RunFrames_snoc Frame_index mod_Suc_eq)
  qed
qed

lemma RunFrames_fence:
  "mCurrentFence (AfterFrames N inps s) = mCurrentFence s + of_nat (length inps)"
  by (induction inps rule: rev_induct)
     (simp_all add: AfterFrames_Nil RunFrames_snoc Frame_fence algebra_simps)

lemma RunFrames_length: "length (mFrameResources (AfterFrames N inps s)) = length (mFrameResources s)"
  by (induction inps rule: rev_induct) (simp_all add: AfterFrames_Nil RunFrames_snoc Frame_length)

lemma FrameSlots_Cons:
  "FrameSlots N (inp # inps) s =
     mCurrFrameResourceIndex (AfterUpdate N inp s) # FrameSlots N inps (AfterFrame N inp s)"
proof -
  obtain s1 where s1: "Update N inp s = Inr s1" using Update_returns by blast
  obtain s2 where s2: "Frame N inp s = Inr s2" using Frame_returns by blast
  have "Draw s1 = Inr s2" using s2 by (simp add: Frame_def s1)
  then show ?thesis by (simp add: s1 s2)
qed

lemma Signals_append: "Signals (q @ q') = Signals q @ Signals q'"
  by (induction q rule: Signals.induct) simp_all

lemma Frame_signals:
  "Signals (mCommandQueue (AfterFrame N inp s)) = Signals (mCommandQueue s) @ [mCurrentFence s + 1]"
  by (simp add: Frame_eq Frame_Draw_queue Update_unchanged Signals_append)

lemma Frame_stamps: "stamps (AfterFrame N inp s) = stamps s @ [mCurrentFence s + 1]"
  by (simp add: Frame_eq Frame_Draw_ghost Update_unchanged Update_stamps)

lemma fence_values_snoc:
  "map (\<lambda>j. (c::UINT64) + of_nat j) [1..<Suc n + 1] =
     map (\<lambda>j. c + of_nat j) [1..<n + 1] @ [c + of_nat n + 1]"
  by (simp add: add.assoc)

lemma RunFrames_signals:
  "Signals (mCommandQueue (AfterFrames N inps s)) =
     Signals (mCommandQueue s) @ map (\<lambda>j. mCurrentFence s + of_nat j) [1..<length inps + 1]"
proof (induction inps rule: rev_induct)
  case Nil show ?case by (simp add: AfterFrames_Nil)
next
  case (snoc x xs)
  have "Signals (mCommandQueue (AfterFrames N (xs @ [x]) s)) =
          (Signals (mCommandQueue s) @ map (\<lambda>j. mCurrentFence s + of_nat j) [1..<length xs + 1])
            @ [mCurrentFence s + of_nat (length xs) + 1]"
    by (simp only: RunFrames_snoc Frame_signals snoc.IH RunFrames_fence)
  then show ?case using fence_values_snoc[of "mCurrentFence s" "length xs"] by simp
qed

lemma RunFrames_stamps:
  "stamps (AfterFrames N inps s) =
     stamps s @ map (\<lambda>j. mCurrentFence s + of_nat j) [1..<length inps + 1]"
proof (induction inps rule: rev_induct)
  case Nil show ?case by (simp add: AfterFrames_Nil)
next
  case (snoc x xs)
  have "stamps (AfterFrames N (xs @ [x]) s) =
          (stamps s @ map (\<lambda>j. mCurrentFence s + of_nat j) [1..<length xs + 1])
            @ [mCurrentFence s + of_nat (length xs) + 1]"
    by (simp only: RunFrames_snoc Frame_stamps snoc.IH RunFrames_fence)
  then show ?case using fence_values_snoc[of "mCurrentFence s" "length xs"] by simp
qed

subsection \<open>The ring index\<close>

lemma Initialize_index: "mCurrFrameResourceIndex (Initialize N f0 args world_of) = 0"
  by (simp add: Initialize_def BuildConstantBufferViews_def BuildDescriptorHeaps_def
        BuildFrameResources_def BuildRenderItems_def ShapesApp_new_def Let_def)

lemma Initialize_frs: "mFrameResources (Initialize N f0 args world_of) = replicate N FrameResource_new"
  by (simp add: Initialize_def BuildConstantBufferViews_def BuildDescriptorHeaps_def
        BuildFrameResources_def BuildRenderItems_def ShapesApp_new_def Let_def)

lemma Initialize_fields:
  "trace (Initialize N f0 args world_of) = []"
  "mCurrentFence (Initialize N f0 args world_of) = f0"
  "mCommandQueue (Initialize N f0 args world_of) = []"
  "mCurrFrameResource (Initialize N f0 args world_of) = None"
  by (simp_all add: Initialize_def BuildConstantBufferViews_def BuildDescriptorHeaps_def
        BuildFrameResources_def BuildRenderItems_def ShapesApp_new_def Let_def)

lemma Initialize_ghost:
  "waits (Initialize N f0 args world_of) = []"
  "objCBWrites (Initialize N f0 args world_of) = 0"
  "stamps (Initialize N f0 args world_of) = []"
  by (simp_all add: waits_def objCBWrites_def stamps_def Initialize_fields)

lemma map_upt_shift:
  "map f [Suc 0..<Suc (Suc n)] = f (Suc 0) # map (\<lambda>j. f (Suc j)) [Suc 0..<Suc n]"
proof -
  have "[Suc 0..<Suc (Suc n)] = Suc 0 # map Suc [Suc 0..<Suc n]"
    by (simp only: map_Suc_upt upt_conv_Cons[of "Suc 0" "Suc (Suc n)"])
  then show ?thesis by (simp only: list.map map_map o_def)
qed

lemma FrameSlots_run:
  "FrameSlots N inps s = map (\<lambda>j. (mCurrFrameResourceIndex s + j) mod N) [1..<length inps + 1]"
proof (induction inps arbitrary: s)
  case Nil show ?case by simp
next
  case (Cons x xs)
  have "map (\<lambda>j. (mCurrFrameResourceIndex s + j) mod N) [1..<length (x # xs) + 1]
      = (mCurrFrameResourceIndex s + 1) mod N #
        map (\<lambda>j. ((mCurrFrameResourceIndex s + 1) mod N + j) mod N) [1..<length xs + 1]"
    using map_upt_shift[of "\<lambda>j. (mCurrFrameResourceIndex s + j) mod N" "length xs"]
    by (simp add: mod_Suc_eq mod_add_left_eq del: upt_Suc)
  then show ?case using Cons.IH[of "AfterFrame N x s"]
    by (simp only: FrameSlots_Cons Frame_index Update_index)
qed

lemma upt_1_6: "[1..<6] = [1, 2, 3, 4, Suc 4]"
  by (simp add: upt_rec)

lemma five_slots:
  "FrameSlots gNumFrameResources [i1, i2, i3, i4, i5] (Initialize gNumFrameResources f0 args world_of)
     = [1, 2, 0, 1, 2]"
  by (simp only: FrameSlots_run Initialize_index) (simp add: gNumFrameResources_def upt_1_6)

text \<open>Claim C4, as the code has it. The index is 0 when \<open>Initialize\<close> returns and
  \<open>Update\<close> advances it by \<open>(i + 1) mod N\<close> before the frame resource is used, so
  during five successive cycles at ring depth 3 the current slot is 1, 2, 0, 1, 2, whatever
  the inputs of the frames. \<open>Update\<close> always returns, with the index advanced; it is the
  only mutator: \<open>Draw\<close> either meets a null \<open>mCurrFrameResource\<close> or returns with the
  index as it was.\<close>

theorem C4_slot_sequence:
  "FrameSlots gNumFrameResources [i1, i2, i3, i4, i5]
     (Initialize gNumFrameResources f0 args world_of) = [1, 2, 0, 1, 2] \<and>
   mCurrFrameResourceIndex (Initialize N f0 args world_of) = 0 \<and>
   (\<exists>s'. Update N inp s = Inr s' \<and>
         mCurrFrameResourceIndex s' = (mCurrFrameResourceIndex s + 1) mod N) \<and>
   (Draw s = Inl NullFrameResource \<or>
    (\<exists>t. Draw s = Inr t \<and> mCurrFrameResourceIndex t = mCurrFrameResourceIndex s))"
proof -
  have u: "\<exists>s'. Update N inp s = Inr s' \<and>
         mCurrFrameResourceIndex s' = (mCurrFrameResourceIndex s + 1) mod N"
    using Update_returns[of N inp s] Update_index[of N inp s] by blast
  have d: "Draw s = Inl NullFrameResource \<or>
    (\<exists>t. Draw s = Inr t \<and> mCurrFrameResourceIndex t = mCurrFrameResourceIndex s)"
  proof (cases "mCurrFrameResource s")
    case None then show ?thesis by (simp add: Draw_null)
  next
    case (Some cur)
    then show ?thesis using Draw_returns[OF Some] Draw_unchanged(1)[OF Some] by blast
  qed
  show ?thesis
    using five_slots[of i1 i2 i3 i4 i5 f0 args world_of] u d
    by (simp only: Initialize_index simp_thms)
qed

text \<open>Claim C4 as stated fails: on the concrete run the five slots are not
  0, 1, 2, 0, 1.\<close>

theorem C4_slots_counterexample:
  "FrameSlots gNumFrameResources [(0, ()), (0, ()), (0, ()), (0, ()), (0, ())] ExampleApp
     \<noteq> [0, 1, 2, 0, 1]"
  by (simp only: ExampleApp_def five_slots) simp

subsection \<open>Fence values\<close>

lemma unat_fence_offset:
  assumes "unat (c::UINT64) + j < 2 ^ 64"
  shows "unat (c + of_nat j) = unat c + j"
proof -
  have "j \<le> unat c + j" by simp
  then have "j < 2 ^ 64" using assms by (rule le_less_trans)
  then have j: "unat (of_nat j :: UINT64) = j" by (simp add: unat_of_nat)
  have "unat c + unat (of_nat j :: UINT64) < 2 ^ LENGTH(64)"
    using assms by (simp only: j) simp
  then have "unat (c + of_nat j) = unat c + unat (of_nat j :: UINT64)"
    by (rule unat_add_lem[THEN iffD1])
  then show ?thesis by (simp only: j)
qed

lemma sorted_fences:
  assumes "unat (c::UINT64) + n < 2 ^ 64"
  shows "sorted_wrt (<) (map (\<lambda>j. c + of_nat j) [1..<n + 1])"
proof -
  have "sorted_wrt (\<lambda>i j. c + of_nat i < c + of_nat j) [1..<n + 1]"
  proof (rule sorted_wrt_mono_rel[of _ "(<)"])
    show "sorted_wrt (<) [1..<n + 1]" by (simp del: upt_Suc)
  next
    fix i j assume i: "i \<in> set [1..<n + 1]" and j: "j \<in> set [1..<n + 1]" and ij: "i < j"
    have "unat c + i \<le> unat c + n" using i by (auto simp del: upt_Suc)
    then have "unat c + i < 2 ^ 64" using assms by (rule le_less_trans)
    then have ui: "unat (c + of_nat i) = unat c + i" by (rule unat_fence_offset)
    have "unat c + j \<le> unat c + n" using j by (auto simp del: upt_Suc)
    then have "unat c + j < 2 ^ 64" using assms by (rule le_less_trans)
    then have uj: "unat (c + of_nat j) = unat c + j" by (rule unat_fence_offset)
    have "unat (c + of_nat i) < unat (c + of_nat j)" using ij by (simp add: ui uj)
    then show "c + of_nat i < c + of_nat j" by (simp only: word_less_nat_alt)
  qed
  then show ?thesis by (simp add: sorted_wrt_map)
qed

lemma Draw_stamp:
  "mCurrFrameResource s = Some cur \<Longrightarrow> cur < length (mFrameResources s) \<Longrightarrow>
   Fence (mFrameResources (AfterDraw s) ! cur) = mCurrentFence s + 1"
  by (simp add: Draw_frs)

lemma RunFrames_stamp:
  assumes "length (mFrameResources s) = N" "0 < N" "inps \<noteq> []"
  shows "Fence (mFrameResources (AfterFrames N inps s) ! mCurrFrameResourceIndex (AfterFrames N inps s))
           = mCurrentFence s + of_nat (length inps)"
proof -
  obtain xs x where inps: "inps = xs @ [x]" using assms(3) by (cases inps rule: rev_cases) auto
  let ?t = "AfterUpdate N x (AfterFrames N xs s)"
  let ?k = "(mCurrFrameResourceIndex (AfterFrames N xs s) + 1) mod N"
  have ptr: "mCurrFrameResource ?t = Some ?k" by (rule Update_pointer)
  have len: "length (mFrameResources ?t) = N"
    by (simp add: Update_frs RunFrames_length assms(1))
  have k: "?k < length (mFrameResources ?t)" using assms(2) len by simp
  have "Fence (mFrameResources (AfterDraw ?t) ! ?k) = mCurrentFence ?t + 1"
    using ptr k by (rule Draw_stamp)
  moreover have "AfterFrames N inps s = AfterDraw ?t"
    by (simp add: inps RunFrames_snoc Frame_eq)
  moreover have "mCurrFrameResourceIndex (AfterDraw ?t) = ?k"
    by (simp add: Frame_Draw_unchanged Update_index)
  ultimately show ?thesis
    by (simp add: inps Update_unchanged RunFrames_fence)
qed

text \<open>Claim C5. In a state in which \<open>mCurrFrameResource\<close> points at a frame resource, as
  after every \<open>Update\<close>, \<open>Draw\<close> returns; it increments the fence counter by exactly 1,
  stores the new value as the fence value of that frame resource, and appends to the
  command queue the frame's command list followed by the signal for that same value.
  These three things happen in the order: submission, store, signal. Over any non-empty
  run of frames that does not exhaust the 64 bits of the counter, the counter ends at
  its initial value plus the number of frames, which is the value stamped by the last
  frame, and the values stored, which are the values signalled, are the initial counter
  plus 1, 2, 3, ...: strictly increasing.\<close>

theorem C5_fence_stamping:
  fixes s s0 :: "('a, 'p) ShapesApp"
  assumes ptr: "mCurrFrameResource s = Some cur" and cur: "cur < length (mFrameResources s)"
    and len: "length (mFrameResources s0) = N" and N: "0 < N" and ne: "inps \<noteq> []"
    and nowrap: "unat (mCurrentFence s0) + length inps < 2 ^ 64"
  shows
    "(\<exists>s' draws. Draw s = Inr s' \<and> DrawRenderItems s (mOpaqueRitems s) = Inr draws \<and>
        mCurrentFence s' = mCurrentFence s + 1 \<and>
        Fence (mFrameResources s' ! cur) = mCurrentFence s + 1 \<and>
        mCommandQueue s' =
          mCommandQueue s @
            [ExecuteCommandLists cur
               (SetGraphicsRootDescriptorTable 1
                  (PassCbvHeapIndex (mPassCbvOffset s) (mCurrFrameResourceIndex s)) # draws),
             Signal (mCurrentFence s + 1)] \<and>
        trace s' =
          trace s @ [QueueExecute cur, StoreFence cur (mCurrentFence s + 1),
                     QueueSignal (mCurrentFence s + 1)]) \<and>
     (\<exists>t. RunFrames N inps s0 = Inr t \<and>
        mCurrentFence t = mCurrentFence s0 + of_nat (length inps) \<and>
        Fence (mFrameResources t ! mCurrFrameResourceIndex t)
          = mCurrentFence s0 + of_nat (length inps) \<and>
        stamps t = stamps s0 @ map (\<lambda>j. mCurrentFence s0 + of_nat j) [1..<length inps + 1] \<and>
        Signals (mCommandQueue t) =
          Signals (mCommandQueue s0) @ map (\<lambda>j. mCurrentFence s0 + of_nat j) [1..<length inps + 1] \<and>
        sorted_wrt (<) (map (\<lambda>j. mCurrentFence s0 + of_nat j) [1..<length inps + 1]))"
proof -
  let ?s' = "AfterDraw s"
  let ?draws = "projr (DrawRenderItems s (mOpaqueRitems s))"
  have d: "DrawRenderItems s (mOpaqueRitems s) = Inr ?draws"
    by (simp add: DrawRenderItems_returns[OF ptr])
  have one: "Draw s = Inr ?s' \<and> DrawRenderItems s (mOpaqueRitems s) = Inr ?draws \<and>
        mCurrentFence ?s' = mCurrentFence s + 1 \<and>
        Fence (mFrameResources ?s' ! cur) = mCurrentFence s + 1 \<and>
        mCommandQueue ?s' =
          mCommandQueue s @
            [ExecuteCommandLists cur
               (SetGraphicsRootDescriptorTable 1
                  (PassCbvHeapIndex (mPassCbvOffset s) (mCurrFrameResourceIndex s)) # ?draws),
             Signal (mCurrentFence s + 1)] \<and>
        trace ?s' =
          trace s @ [QueueExecute cur, StoreFence cur (mCurrentFence s + 1),
                     QueueSignal (mCurrentFence s + 1)]"
    by (intro conjI Draw_returns[OF ptr] d Draw_unchanged(7)[OF ptr] Draw_stamp[OF ptr cur]
          Draw_queue[OF ptr] Draw_trace[OF ptr])
  let ?t = "AfterFrames N inps s0"
  have run: "RunFrames N inps s0 = Inr ?t \<and>
        mCurrentFence ?t = mCurrentFence s0 + of_nat (length inps) \<and>
        Fence (mFrameResources ?t ! mCurrFrameResourceIndex ?t)
          = mCurrentFence s0 + of_nat (length inps) \<and>
        stamps ?t = stamps s0 @ map (\<lambda>j. mCurrentFence s0 + of_nat j) [1..<length inps + 1] \<and>
        Signals (mCommandQueue ?t) =
          Signals (mCommandQueue s0) @ map (\<lambda>j. mCurrentFence s0 + of_nat j) [1..<length inps + 1] \<and>
        sorted_wrt (<) (map (\<lambda>j. mCurrentFence s0 + of_nat j) [1..<length inps + 1])"
    by (intro conjI RunFrames_total RunFrames_fence RunFrames_stamp[OF len N ne]
          RunFrames_stamps RunFrames_signals sorted_fences[OF nowrap])
  show ?thesis using one run by blast
qed

lemma ExampleApp_frs: "mFrameResources ExampleApp = replicate 3 FrameResource_new"
  by (simp add: ExampleApp_def Initialize_frs gNumFrameResources_def)

lemma ExampleApp_fields:
  "mCurrFrameResourceIndex ExampleApp = 0"
  "mCurrentFence ExampleApp = 0"
  "mCommandQueue ExampleApp = []"
  "trace ExampleApp = []"
  "mCurrFrameResource ExampleApp = None"
  "waits ExampleApp = []"
  "objCBWrites ExampleApp = 0"
  "stamps ExampleApp = []"
  by (simp_all add: ExampleApp_def Initialize_index Initialize_fields Initialize_ghost)

lemma first_update:
  "mCurrFrameResource (AfterUpdate gNumFrameResources (0, ()) ExampleApp) = Some 1"
  "length (mFrameResources (AfterUpdate gNumFrameResources (0, ()) ExampleApp)) = 3"
  "mCurrentFence (AfterUpdate gNumFrameResources (0, ()) ExampleApp) = 0"
  by (simp_all add: Update_pointer Update_frs Update_unchanged ExampleApp_fields ExampleApp_frs
        gNumFrameResources_def)

text \<open>On the concrete run: when \<open>Initialize\<close> has returned, \<open>Draw\<close> has no frame
  resource to work on; after the first \<open>Update\<close> it stamps slot 1 with the fence value
  1, between the submission and the signal; five frames store and signal
  1, 2, 3, 4, 5.\<close>

theorem C5_fence_stamping_witness:
  "Draw ExampleApp = Inl NullFrameResource \<and>
   length (mFrameResources ExampleApp) = gNumFrameResources \<and>
   (\<exists>s1 s'. Update gNumFrameResources (0, ()) ExampleApp = Inr s1 \<and>
      mCurrFrameResource s1 = Some 1 \<and> Draw s1 = Inr s' \<and>
      mCurrentFence s' = 1 \<and> Fence (mFrameResources s' ! 1) = 1 \<and>
      trace s' = trace s1 @ [QueueExecute 1, StoreFence 1 1, QueueSignal 1]) \<and>
   (\<exists>t. RunFrames gNumFrameResources [(0, ()), (0, ()), (1, ()), (1, ()), (2, ())] ExampleApp = Inr t \<and>
      stamps t = [1, 2, 3, 4, 5] \<and>
      Signals (mCommandQueue t) = [1, 2, 3, 4, 5])"
proof -
  let ?s1 = "AfterUpdate gNumFrameResources (0, ()) ExampleApp"
  let ?inps = "[(0, ()), (0, ()), (1, ()), (1, ()), (2::UINT64, ())]"
  have h1: "mCurrFrameResource ?s1 = Some 1" by (rule first_update)
  have h2: "1 < length (mFrameResources ?s1)" by (simp add: first_update)
  have h3: "length (mFrameResources ExampleApp) = gNumFrameResources"
    by (simp add: ExampleApp_frs gNumFrameResources_def)
  have h4: "0 < gNumFrameResources" by (simp add: gNumFrameResources_def)
  have h5: "?inps \<noteq> []" by simp
  have h6: "unat (mCurrentFence ExampleApp) + length ?inps < 2 ^ 64"
    by (simp add: ExampleApp_fields)
  note c5 = C5_fence_stamping[OF h1 h2 h3 h4 h5 h6]
  have u: "Update gNumFrameResources (0, ()) ExampleApp = Inr ?s1" by (rule Update_returns)
  obtain s' where s': "Draw ?s1 = Inr s'" "mCurrentFence s' = mCurrentFence ?s1 + 1"
      "Fence (mFrameResources s' ! 1) = mCurrentFence ?s1 + 1"
      "trace s' = trace ?s1 @ [QueueExecute 1, StoreFence 1 (mCurrentFence ?s1 + 1),
                               QueueSignal (mCurrentFence ?s1 + 1)]"
    using c5 by blast
  obtain t where t: "RunFrames gNumFrameResources ?inps ExampleApp = Inr t"
      "stamps t = stamps ExampleApp @ map (\<lambda>j. mCurrentFence ExampleApp + of_nat j) [1..<length ?inps + 1]"
      "Signals (mCommandQueue t) =
         Signals (mCommandQueue ExampleApp) @ map (\<lambda>j. mCurrentFence ExampleApp + of_nat j) [1..<length ?inps + 1]"
    using c5 by blast
  have f: "mCurrentFence s' = 1" "Fence (mFrameResources s' ! 1) = 1"
      "trace s' = trace ?s1 @ [QueueExecute 1, StoreFence 1 1, QueueSignal 1]"
    using s'(2,3,4) by (simp_all add: first_update)
  have a: "\<exists>s1 s'. Update gNumFrameResources (0, ()) ExampleApp = Inr s1 \<and>
      mCurrFrameResource s1 = Some 1 \<and> Draw s1 = Inr s' \<and>
      mCurrentFence s' = 1 \<and> Fence (mFrameResources s' ! 1) = 1 \<and>
      trace s' = trace s1 @ [QueueExecute 1, StoreFence 1 1, QueueSignal 1]"
    using u h1 s'(1) f by blast
  have b: "\<exists>t. RunFrames gNumFrameResources ?inps ExampleApp = Inr t \<and>
      stamps t = [1, 2, 3, 4, 5] \<and> Signals (mCommandQueue t) = [1, 2, 3, 4, 5]"
    using t by (simp add: ExampleApp_fields upt_1_6)
  have n: "Draw ExampleApp = Inl NullFrameResource"
    by (simp add: Draw_null ExampleApp_fields)
  show ?thesis using n h3 a b by blast
qed

subsection \<open>Render items\<close>

lemma unat_of_nat_small: "n < 2 ^ 32 \<Longrightarrow> unat (of_nat n :: UINT) = n"
  by (simp add: unat_of_nat)

lemma distinct_of_nat_upt: "n \<le> 2 ^ 32 \<Longrightarrow> distinct (map (of_nat :: nat \<Rightarrow> UINT) [0..<n])"
proof -
  assume n: "n \<le> 2 ^ 32"
  have "inj_on (of_nat :: nat \<Rightarrow> UINT) (set [0..<n])"
  proof (rule inj_onI)
    fix x y assume "x \<in> set [0..<n]" "y \<in> set [0..<n]" and eq: "(of_nat x :: UINT) = of_nat y"
    then have xn: "x < n" and yn: "y < n" by simp_all
    have "x < 2 ^ 32" using xn n by (rule less_le_trans)
    then have ux: "unat (of_nat x :: UINT) = x" by (rule unat_of_nat_small)
    have "y < 2 ^ 32" using yn n by (rule less_le_trans)
    then have uy: "unat (of_nat y :: UINT) = y" by (rule unat_of_nat_small)
    have "unat (of_nat x :: UINT) = unat (of_nat y :: UINT)" using eq by (rule arg_cong)
    then show "x = y" by (simp only: ux uy)
  qed
  then show ?thesis by (simp add: distinct_map)
qed

lemma PushRitems_length: "length (PushRitems N args k xs all) = length all + length xs"
  by (induction xs arbitrary: k all) auto

lemma PushRitems_ObjCBIndex:
  "map ObjCBIndex (PushRitems N args k xs all) =
     map ObjCBIndex all @ map (\<lambda>j. of_int (k + int j)) [0..<length xs]"
proof (induction xs arbitrary: k all)
  case Nil show ?case by simp
next
  case (Cons x xs)
  obtain W sh where x: "x = (W, sh)" by (cases x)
  have "map (\<lambda>j. (of_int (k + int j) :: UINT)) [0..<Suc (length xs)] = of_int k # map (\<lambda>j. of_int (k + 1 + int j)) [0..<length xs]"
    by (simp add: upt_rec[of 0] map_Suc_upt[symmetric] del: upt_Suc add: algebra_simps)
  then show ?case using Cons.IH[of "k+1"] by (simp add: x NewRitem_def)
qed

lemma PushRitems_dirty:
  "map NumFramesDirty (PushRitems N args k xs all) =
     map NumFramesDirty all @ replicate (length xs) (int N)"
proof (induction xs arbitrary: k all)
  case Nil show ?case by simp
next
  case (Cons x xs)
  obtain W sh where x: "x = (W, sh)" by (cases x)
  show ?case using Cons.IH[of "k+1"]
    by (simp add: x NewRitem_def RenderItem_default_def replicate_app_Cons_same)
qed

lemma Scene_length: "length (Scene world_of) = 22"
  by (simp add: Scene_def)

lemma Initialize_items:
  "mAllRitems (Initialize N f0 args world_of) = PushRitems N args 0 (Scene world_of) []"
  by (simp add: Initialize_def BuildConstantBufferViews_def BuildDescriptorHeaps_def
        BuildFrameResources_def BuildRenderItems_def ShapesApp_new_def Let_def)

lemma Initialize_opaque:
  "mOpaqueRitems (Initialize N f0 args world_of) = [0..<22]"
  by (simp add: Initialize_def BuildConstantBufferViews_def BuildDescriptorHeaps_def
        BuildFrameResources_def BuildRenderItems_def ShapesApp_new_def Let_def
        PushRitems_length Scene_length)

lemma Initialize_ObjCBIndex:
  "map ObjCBIndex (mAllRitems (Initialize N f0 args world_of)) = map of_nat [0..<22]"
  by (simp only: Initialize_items PushRitems_ObjCBIndex Scene_length) simp

lemma Initialize_dirty:
  "map NumFramesDirty (mAllRitems (Initialize N f0 args world_of)) = replicate 22 (int N)"
  by (simp only: Initialize_items PushRitems_dirty Scene_length) simp

lemma Initialize_distinct:
  "distinct (map ObjCBIndex (mAllRitems (Initialize N f0 args world_of)))"
  by (simp only: Initialize_ObjCBIndex) (rule distinct_of_nat_upt, simp)

lemma PushRitems_append: "PushRitems N args k xs all = all @ PushRitems N args k xs []"
proof (induction xs arbitrary: k all)
  case Nil show ?case by simp
next
  case (Cons x xs)
  obtain W sh where x: "x = (W, sh)" by (cases x)
  show ?case
    using Cons.IH[of "k + 1" "all @ [NewRitem N args W k sh]"] Cons.IH[of "k + 1" "[NewRitem N args W k sh]"]
    by (simp add: x)
qed

lemma Initialize_item0:
  fixes world_of :: "string \<Rightarrow> ('a::{zero,one}) XMFLOAT4X4"
  shows "mAllRitems (Initialize N f0 args world_of :: ('a, 'p) ShapesApp) ! 0 =
           NewRitem N args (world_of ''leftWallRitem'') 0 ''box''"
proof -
  obtain rest where "Scene world_of = (world_of ''leftWallRitem'', ''box'') # rest"
    by (simp add: Scene_def)
  then have "mAllRitems (Initialize N f0 args world_of :: ('a, 'p) ShapesApp) =
      [NewRitem N args (world_of ''leftWallRitem'') 0 ''box''] @ PushRitems N args 1 rest []"
    using PushRitems_append[of N args 1 rest "[NewRitem N args (world_of ''leftWallRitem'') 0 ''box'']"]
    by (simp add: Initialize_items)
  then show ?thesis by simp
qed

lemma Initialize_dirty_all:
  fixes world_of :: "string \<Rightarrow> ('a::{zero,one}) XMFLOAT4X4"
  assumes "e \<in> set (mAllRitems (Initialize N f0 args world_of :: ('a, 'p) ShapesApp))"
  shows "NumFramesDirty e = int N"
proof -
  have "NumFramesDirty e \<in>
          set (map NumFramesDirty (mAllRitems (Initialize N f0 args world_of :: ('a, 'p) ShapesApp)))"
    using assms by simp
  then have "NumFramesDirty e \<in> set (replicate 22 (int N))"
    by (simp only: Initialize_dirty)
  then show ?thesis by simp
qed

lemma Transpose_Identity: "XMMatrixTranspose (Identity4x4 :: int XMFLOAT4X4) = Identity4x4"
  by (simp add: XMMatrixTranspose_def Identity4x4_def upt_rec)

subsection \<open>The wait before a frame resource is reused\<close>

lemma ring_distinct:
  fixes a x y N :: nat
  assumes "(a + x) mod N = (a + y) mod N" "x < y" "y - x < N"
  shows False
proof -
  have "N dvd (a + y) - (a + x)"
    using assms(1) by (metis mod_eq_dvd_iff_nat add_le_cancel_left assms(2) less_imp_le)
  then have "N dvd y - x" by simp
  moreover have "0 < y - x" using assms(2) by simp
  ultimately show False using assms(3) by (meson dvd_imp_le not_less)
qed

lemma Frame_waits:
  "waits (AfterFrame N inp s) =
     waits s @ (if Fence (mFrameResources s ! ((mCurrFrameResourceIndex s + 1) mod N)) \<noteq> 0 \<and>
                   fst inp < Fence (mFrameResources s ! ((mCurrFrameResourceIndex s + 1) mod N))
                then [Fence (mFrameResources s ! ((mCurrFrameResourceIndex s + 1) mod N))] else [])"
  by (simp add: Frame_eq Frame_Draw_ghost Update_waits)

lemma Frame_Fence:
  "k < length (mFrameResources s) \<Longrightarrow>
   Fence (mFrameResources (AfterFrame N inp s) ! k) =
     (if k = (mCurrFrameResourceIndex s + 1) mod N then mCurrentFence s + 1
      else Fence (mFrameResources s ! k))"
  by (simp add: Frame_eq Frame_Draw_frs Update_frs Update_index Update_unchanged nth_list_update)

lemma RunFrames_index_mod:
  "mCurrFrameResourceIndex s < N \<Longrightarrow>
   mCurrFrameResourceIndex (AfterFrames N inps s) = (mCurrFrameResourceIndex s + length inps) mod N"
  by (simp add: RunFrames_index)

lemma first_cycle:
  assumes len: "length (mFrameResources s) = N"
    and zero: "\<forall>k<N. Fence (mFrameResources s ! k) = 0"
    and idx: "mCurrFrameResourceIndex s < N"
  shows "length inps \<le> N \<Longrightarrow>
         waits (AfterFrames N inps s) = waits s \<and>
         (\<forall>k<N. Fence (mFrameResources (AfterFrames N inps s) ! k) \<noteq> 0 \<longrightarrow>
                (\<exists>t. 1 \<le> t \<and> t \<le> length inps \<and> k = (mCurrFrameResourceIndex s + t) mod N))"
proof (induction inps rule: rev_induct)
  case Nil
  show ?case using zero by simp
next
  case (snoc x xs)
  let ?s = "AfterFrames N xs s"
  let ?i = "mCurrFrameResourceIndex s"
  let ?k = "(?i + length xs + 1) mod N"
  have lt: "length xs < N" using snoc.prems by simp
  have IH: "waits ?s = waits s"
    "\<And>k. k < N \<Longrightarrow> Fence (mFrameResources ?s ! k) \<noteq> 0 \<Longrightarrow>
          \<exists>t. 1 \<le> t \<and> t \<le> length xs \<and> k = (?i + t) mod N"
    using snoc.IH lt by auto
  have cur: "mCurrFrameResourceIndex ?s = (?i + length xs) mod N"
    using idx by (rule RunFrames_index_mod)
  have next_slot: "(mCurrFrameResourceIndex ?s + 1) mod N = ?k"
    by (simp add: cur mod_Suc_eq)
  have next_slot': "Suc (mCurrFrameResourceIndex ?s) mod N = ?k"
    using next_slot by simp
  have kN: "?k < N" using lt by simp
  have fresh: "Fence (mFrameResources ?s ! ?k) = 0"
  proof (rule ccontr)
    assume "Fence (mFrameResources ?s ! ?k) \<noteq> 0"
    then obtain t where t: "1 \<le> t" "t \<le> length xs" "?k = (?i + t) mod N"
      using IH(2)[OF kN] by blast
    have "(?i + t) mod N = (?i + (length xs + 1)) mod N" using t(3) by (simp add: add.assoc)
    moreover have "t < length xs + 1" using t(2) by simp
    moreover have "length xs + 1 - t < N" using t(1) lt by simp
    ultimately show False by (rule ring_distinct)
  qed
  have w: "waits (AfterFrames N (xs @ [x]) s) = waits s"
    using fresh by (simp add: RunFrames_snoc Frame_waits next_slot' IH(1))
  have f: "\<And>k. k < N \<Longrightarrow> Fence (mFrameResources (AfterFrames N (xs @ [x]) s) ! k) \<noteq> 0 \<Longrightarrow>
            \<exists>t. 1 \<le> t \<and> t \<le> length (xs @ [x]) \<and> k = (?i + t) mod N"
  proof -
    fix k assume k: "k < N" and nz: "Fence (mFrameResources (AfterFrames N (xs @ [x]) s) ! k) \<noteq> 0"
    have kl: "k < length (mFrameResources ?s)" using k len by (simp add: RunFrames_length)
    show "\<exists>t. 1 \<le> t \<and> t \<le> length (xs @ [x]) \<and> k = (?i + t) mod N"
    proof (cases "k = ?k")
      case True
      then have "1 \<le> length xs + 1 \<and> length xs + 1 \<le> length (xs @ [x]) \<and> k = (?i + (length xs + 1)) mod N"
        by (simp add: add.assoc)
      then show ?thesis by blast
    next
      case False
      then have "Fence (mFrameResources ?s ! k) \<noteq> 0"
        using nz kl by (simp add: RunFrames_snoc Frame_Fence next_slot')
      then obtain t where "1 \<le> t" "t \<le> length xs" "k = (?i + t) mod N"
        using IH(2)[OF k] by blast
      then have "1 \<le> t \<and> t \<le> length (xs @ [x]) \<and> k = (?i + t) mod N" by simp
      then show ?thesis by blast
    qed
  qed
  show ?case using w f by blast
qed

lemma no_wait_first_cycle:
  fixes world_of :: "string \<Rightarrow> ('a::{zero,one}) XMFLOAT4X4" and inps :: "(UINT64 \<times> 'p) list"
  assumes l: "length inps \<le> N"
  shows "waits (AfterFrames N inps (Initialize N f0 args world_of)) = []"
proof (cases "N = 0")
  case True
  then show ?thesis using l by (simp add: Initialize_ghost)
next
  case False
  let ?init = "Initialize N f0 args world_of :: ('a, 'p) ShapesApp"
  have "length (mFrameResources ?init) = N" by (simp add: Initialize_frs)
  moreover have "\<forall>k<N. Fence (mFrameResources ?init ! k) = 0"
    by (simp add: Initialize_frs FrameResource_new_def)
  moreover have "mCurrFrameResourceIndex ?init < N" using False by (simp add: Initialize_index)
  ultimately have "waits (AfterFrames N inps ?init) = waits ?init"
    using first_cycle[of ?init N inps] l by blast
  then show ?thesis by (simp add: Initialize_ghost)
qed

lemma Update_other_slots:
  "j \<noteq> (mCurrFrameResourceIndex s + 1) mod N \<Longrightarrow>
   mFrameResources (AfterUpdate N inp s) ! j = mFrameResources s ! j"
  by (simp add: Update_frs)

text \<open>Claim C1. \<open>Update\<close> returns, having made the next slot of the ring current. What
  it did to shared resources, in order: if and only if the fence value last stored in
  that slot is nonzero and the completed value reported by the GPU is below it, it first
  blocked on exactly that per-slot value; then came its \<open>CopyData\<close> calls, one per dirty
  item into the per-object buffer of that slot and one into its per-pass buffer, and
  nothing else. So every write to the slot's buffers comes after the wait, and when it
  happens either the GPU had already reported the slot's fence value or the CPU has
  waited for it; the frame resource of every other slot is left as it was. From the
  state \<open>Initialize\<close> leaves, in which every fence value is 0, no wait occurs during the
  first \<open>N\<close> frames, whatever the GPU reports.\<close>

theorem C1_wait_gate:
  fixes s :: "('a, 'p) ShapesApp"
    and world_of :: "string \<Rightarrow> ('b::{zero,one}) XMFLOAT4X4" and inps :: "(UINT64 \<times> 'q) list"
  shows
  "(\<exists>s'. Update N inp s = Inr s' \<and>
      trace s' =
        trace s @
        (if NextSlotFence N s \<noteq> 0 \<and> fst inp < NextSlotFence N s
         then [WaitForFence (NextSlot N s) (NextSlotFence N s)] else []) @
        map (\<lambda>e. CopyObjectCB (NextSlot N s) (ObjCBIndex e))
            (filter (\<lambda>e. NumFramesDirty e > 0) (mAllRitems s)) @
        [CopyPassCB (NextSlot N s)] \<and>
      waits s' =
        waits s @ (if NextSlotFence N s \<noteq> 0 \<and> fst inp < NextSlotFence N s
                   then [NextSlotFence N s] else []) \<and>
      (NextSlotFence N s \<le> fst inp \<or> waits s' = waits s @ [NextSlotFence N s]) \<and>
      mCurrFrameResourceIndex s' = NextSlot N s \<and>
      mCurrFrameResource s' = Some (NextSlot N s) \<and>
      (\<forall>j. j \<noteq> NextSlot N s \<longrightarrow> mFrameResources s' ! j = mFrameResources s ! j)) \<and>
   (length inps \<le> N \<longrightarrow>
      (\<exists>t. RunFrames N inps (Initialize N f0 args world_of) = Inr t \<and> waits t = []))"
proof -
  let ?s' = "AfterUpdate N inp s"
  have r: "Update N inp s = Inr ?s'" by (rule Update_returns)
  have tr: "trace ?s' =
        trace s @
        (if NextSlotFence N s \<noteq> 0 \<and> fst inp < NextSlotFence N s
         then [WaitForFence (NextSlot N s) (NextSlotFence N s)] else []) @
        map (\<lambda>e. CopyObjectCB (NextSlot N s) (ObjCBIndex e))
            (filter (\<lambda>e. NumFramesDirty e > 0) (mAllRitems s)) @
        [CopyPassCB (NextSlot N s)]"
    unfolding NextSlotFence_def NextSlot_def by (rule Update_trace)
  have a: "waits ?s' =
     waits s @ (if NextSlotFence N s \<noteq> 0 \<and> fst inp < NextSlotFence N s
                then [NextSlotFence N s] else [])"
    unfolding NextSlotFence_def NextSlot_def by (rule Update_waits)
  have b: "NextSlotFence N s \<le> fst inp \<or> waits ?s' = waits s @ [NextSlotFence N s]"
  proof (cases "NextSlotFence N s \<le> fst inp")
    case True then show ?thesis by simp
  next
    case False
    then have "fst inp < NextSlotFence N s" by simp
    moreover from this have "NextSlotFence N s \<noteq> 0" by (metis word_not_simps(1))
    ultimately show ?thesis using a by simp
  qed
  have c: "mCurrFrameResourceIndex ?s' = NextSlot N s"
    by (simp add: NextSlot_def Update_index)
  have p: "mCurrFrameResource ?s' = Some (NextSlot N s)"
    by (simp add: NextSlot_def Update_pointer)
  have d: "\<forall>j. j \<noteq> NextSlot N s \<longrightarrow> mFrameResources ?s' ! j = mFrameResources s ! j"
    by (simp add: NextSlot_def Update_other_slots)
  have e: "length inps \<le> N \<longrightarrow>
      (\<exists>t. RunFrames N inps (Initialize N f0 args world_of) = Inr t \<and> waits t = [])"
    using RunFrames_total no_wait_first_cycle by blast
  show ?thesis using r tr a b c p d e by blast
qed

lemma three_frames_fence:
  "Fence (mFrameResources (AfterFrames gNumFrameResources [(0, ()), (0, ()), (0, ())] ExampleApp) ! 1) = 1"
  by (simp add: AfterFrames_Cons Frame_Fence Frame_length Frame_index Frame_fence
        ExampleApp_frs ExampleApp_fields FrameResource_new_def gNumFrameResources_def)

lemma three_frames_index:
  "mCurrFrameResourceIndex (AfterFrames gNumFrameResources [(0, ()), (0, ()), (0, ())] ExampleApp) = 0"
  by (simp add: RunFrames_index ExampleApp_fields gNumFrameResources_def)

lemma three_frames_clean:
  "filter (\<lambda>e. NumFramesDirty e > 0)
     (mAllRitems (AfterFrames gNumFrameResources [(0, ()), (0, ()), (0, ())] ExampleApp)) = []"
proof -
  have "map NumFramesDirty (mAllRitems ExampleApp) = replicate 22 3"
    by (simp add: ExampleApp_def Initialize_dirty gNumFrameResources_def)
  then have "\<forall>e \<in> set (mAllRitems ExampleApp). NumFramesDirty e = 3"
    by (metis in_set_replicate image_eqI list.set_map)
  then have "\<forall>e \<in> set (mAllRitems ExampleApp).
      NumFramesDirty (ItemRefreshed (ItemRefreshed (ItemRefreshed e))) = 0"
    by (simp add: ItemRefreshed_def)
  then show ?thesis
    by (simp add: AfterFrames_Cons Frame_items filter_empty_conv)
qed

text \<open>On the concrete run with a GPU that has completed nothing: three frames pass
  without a wait; the fourth \<open>Update\<close> returns to slot 1, blocks on its fence value 1
  and only then writes its per-pass buffer (no item is dirty any more), leaving slot 2
  as it was.\<close>

theorem C1_wait_gate_witness:
  "\<exists>t s'. RunFrames gNumFrameResources [(0, ()), (0, ()), (0, ())] ExampleApp = Inr t \<and>
      waits t = [] \<and>
      Update gNumFrameResources (0, ()) t = Inr s' \<and>
      trace s' = trace t @ [WaitForFence 1 1, CopyPassCB 1] \<and>
      waits s' = [1] \<and>
      mFrameResources s' ! 2 = mFrameResources t ! 2"
proof -
  let ?inps = "[(0, ()), (0, ()), (0::UINT64, ())]"
  let ?s = "AfterFrames gNumFrameResources ?inps ExampleApp"
  note c1 = C1_wait_gate[of gNumFrameResources "(0, ())" ?s ?inps 0
               "BuildDrawArgs ExampleMeshes" "\<lambda>name. (Identity4x4 :: int XMFLOAT4X4)"]
  have ns: "NextSlot gNumFrameResources ?s = 1"
    using three_frames_index by (simp add: NextSlot_def gNumFrameResources_def)
  have nf: "NextSlotFence gNumFrameResources ?s = 1"
    using three_frames_fence by (simp add: NextSlotFence_def ns)
  have l: "length ?inps \<le> gNumFrameResources" by (simp add: gNumFrameResources_def)
  have "\<exists>t. RunFrames gNumFrameResources ?inps ExampleApp = Inr t \<and> waits t = []"
    using c1[THEN conjunct2] l unfolding ExampleApp_def by (rule mp)
  then obtain t where t: "RunFrames gNumFrameResources ?inps ExampleApp = Inr t" "waits t = []"
    by blast
  have st: "?s = t" by (simp add: t(1))
  have w0: "waits ?s = []" using t(2) by (simp only: st)
  obtain s' where s': "Update gNumFrameResources (0, ()) ?s = Inr s'"
      "trace s' =
        trace ?s @
        (if NextSlotFence gNumFrameResources ?s \<noteq> 0 \<and> fst (0::UINT64, ()) < NextSlotFence gNumFrameResources ?s
         then [WaitForFence (NextSlot gNumFrameResources ?s) (NextSlotFence gNumFrameResources ?s)] else []) @
        map (\<lambda>e. CopyObjectCB (NextSlot gNumFrameResources ?s) (ObjCBIndex e))
            (filter (\<lambda>e. NumFramesDirty e > 0) (mAllRitems ?s)) @
        [CopyPassCB (NextSlot gNumFrameResources ?s)]"
      "waits s' =
        waits ?s @ (if NextSlotFence gNumFrameResources ?s \<noteq> 0 \<and> fst (0::UINT64, ()) < NextSlotFence gNumFrameResources ?s
                   then [NextSlotFence gNumFrameResources ?s] else [])"
      "\<forall>j. j \<noteq> NextSlot gNumFrameResources ?s \<longrightarrow> mFrameResources s' ! j = mFrameResources ?s ! j"
    using c1[THEN conjunct1] by blast
  have tr: "trace s' = trace ?s @ [WaitForFence 1 1, CopyPassCB 1]"
    using s'(2) by (simp add: ns nf three_frames_clean)
  have w1: "waits s' = [1]" using s'(3) by (simp add: ns nf w0)
  have o: "mFrameResources s' ! 2 = mFrameResources ?s ! 2" using s'(4) by (simp add: ns)
  have "RunFrames gNumFrameResources ?inps ExampleApp = Inr ?s \<and> waits ?s = [] \<and>
      Update gNumFrameResources (0, ()) ?s = Inr s' \<and>
      trace s' = trace ?s @ [WaitForFence 1 1, CopyPassCB 1] \<and>
      waits s' = [1] \<and> mFrameResources s' ! 2 = mFrameResources ?s ! 2"
    by (intro conjI RunFrames_total w0 s'(1) tr w1 o)
  then show ?thesis by blast
qed

subsection \<open>Dirty propagation\<close>

lemma ItemRefreshed_fields:
  "ObjCBIndex (ItemRefreshed e) = ObjCBIndex e"
  "World (ItemRefreshed e) = World e"
  "riIndexCount (ItemRefreshed e) = riIndexCount e"
  "riStartIndexLocation (ItemRefreshed e) = riStartIndexLocation e"
  "riBaseVertexLocation (ItemRefreshed e) = riBaseVertexLocation e"
  "NumFramesDirty (ItemRefreshed e) = (if NumFramesDirty e > 0 then NumFramesDirty e - 1 else NumFramesDirty e)"
  by (simp_all add: ItemRefreshed_def)

lemma Frame_ObjectCB:
  "k < length (mFrameResources s) \<Longrightarrow>
   ObjectCB (mFrameResources (AfterFrame N inp s) ! k) =
     (if k = (mCurrFrameResourceIndex s + 1) mod N
      then fold BufferRefreshed (mAllRitems s) (ObjectCB (mFrameResources s ! k))
      else ObjectCB (mFrameResources s ! k))"
  by (simp add: Frame_eq Frame_Draw_frs Update_frs Update_index Update_unchanged nth_list_update)

lemma Frame_ObjectCB_current:
  "k < length (mFrameResources s) \<Longrightarrow> k = (mCurrFrameResourceIndex s + 1) mod N \<Longrightarrow>
   ObjectCB (mFrameResources (AfterFrame N inp s) ! k) =
     fold BufferRefreshed (mAllRitems s) (ObjectCB (mFrameResources s ! k))"
  by (simp add: Frame_ObjectCB)

lemma Frame_ObjectCB_other:
  "k < length (mFrameResources s) \<Longrightarrow> k \<noteq> (mCurrFrameResourceIndex s + 1) mod N \<Longrightarrow>
   ObjectCB (mFrameResources (AfterFrame N inp s) ! k) = ObjectCB (mFrameResources s ! k)"
  by (simp add: Frame_ObjectCB)

lemma RunFrames_items_length: "length (mAllRitems (AfterFrames N inps s)) = length (mAllRitems s)"
  by (induction inps rule: rev_induct) (simp_all add: RunFrames_snoc Frame_items)

lemma RunFrames_ObjCBIndex: "map ObjCBIndex (mAllRitems (AfterFrames N inps s)) = map ObjCBIndex (mAllRitems s)"
  by (induction inps rule: rev_induct)
     (simp_all add: RunFrames_snoc Frame_items ItemRefreshed_fields o_def)

lemma RunFrames_World: "map World (mAllRitems (AfterFrames N inps s)) = map World (mAllRitems s)"
  by (induction inps rule: rev_induct)
     (simp_all add: RunFrames_snoc Frame_items ItemRefreshed_fields o_def)

lemma RunFrames_item_fields:
  assumes "p < length (mAllRitems s)"
  shows "ObjCBIndex (mAllRitems (AfterFrames N inps s) ! p) = ObjCBIndex (mAllRitems s ! p)"
    and "World (mAllRitems (AfterFrames N inps s) ! p) = World (mAllRitems s ! p)"
proof -
  have "map ObjCBIndex (mAllRitems (AfterFrames N inps s)) ! p = map ObjCBIndex (mAllRitems s) ! p"
    by (simp only: RunFrames_ObjCBIndex)
  then show "ObjCBIndex (mAllRitems (AfterFrames N inps s) ! p) = ObjCBIndex (mAllRitems s ! p)"
    using assms by (simp add: RunFrames_items_length)
  have "map World (mAllRitems (AfterFrames N inps s)) ! p = map World (mAllRitems s) ! p"
    by (simp only: RunFrames_World)
  then show "World (mAllRitems (AfterFrames N inps s) ! p) = World (mAllRitems s ! p)"
    using assms by (simp add: RunFrames_items_length)
qed

lemma ring_onto:
  fixes i k N :: nat
  assumes "i < N" "k < N"
  shows "\<exists>t. 1 \<le> t \<and> t \<le> N \<and> (i + t) mod N = k"
proof (cases "i < k")
  case True
  then have "1 \<le> k - i" "k - i \<le> N" "(i + (k - i)) mod N = k" using assms by simp_all
  then have "1 \<le> k - i \<and> k - i \<le> N \<and> (i + (k - i)) mod N = k" by simp
  then show ?thesis by blast
next
  case False
  then have "1 \<le> k + N - i" "k + N - i \<le> N" "(i + (k + N - i)) mod N = k" using assms by simp_all
  then have "1 \<le> k + N - i \<and> k + N - i \<le> N \<and> (i + (k + N - i)) mod N = k" by simp
  then show ?thesis by blast
qed

lemma dirty_propagation:
  assumes len: "length (mFrameResources s) = N"
    and idx: "mCurrFrameResourceIndex s < N"
    and dist: "distinct (map ObjCBIndex (mAllRitems s))"
    and p: "p < length (mAllRitems s)"
    and dirty: "NumFramesDirty (mAllRitems s ! p) = int N"
  shows "length inps \<le> N \<Longrightarrow>
         NumFramesDirty (mAllRitems (AfterFrames N inps s) ! p) = int N - int (length inps) \<and>
         (\<forall>t. 1 \<le> t \<and> t \<le> length inps \<longrightarrow>
              ObjectCB (mFrameResources (AfterFrames N inps s) ! ((mCurrFrameResourceIndex s + t) mod N))
                (ObjCBIndex (mAllRitems s ! p)) = Some (XMMatrixTranspose (World (mAllRitems s ! p))))"
proof (induction inps rule: rev_induct)
  case Nil
  show ?case using dirty by simp
next
  case (snoc x xs)
  let ?s = "AfterFrames N xs s"
  let ?i = "mCurrFrameResourceIndex s"
  let ?k = "(?i + length xs + 1) mod N"
  let ?e = "mAllRitems ?s ! p"
  let ?orig = "mAllRitems s ! p"
  have lt: "length xs < N" using snoc.prems by simp
  have IH1: "NumFramesDirty ?e = int N - int (length xs)"
    and IH2: "\<And>t. 1 \<le> t \<Longrightarrow> t \<le> length xs \<Longrightarrow>
              ObjectCB (mFrameResources ?s ! ((?i + t) mod N)) (ObjCBIndex ?orig)
                = Some (XMMatrixTranspose (World ?orig))"
    using snoc.IH lt by auto
  have cur: "mCurrFrameResourceIndex ?s = (?i + length xs) mod N"
    using idx by (rule RunFrames_index_mod)
  have next_slot: "(mCurrFrameResourceIndex ?s + 1) mod N = ?k"
    by (simp add: cur mod_Suc_eq)
  have flen: "length (mFrameResources ?s) = N" by (simp add: RunFrames_length len)
  have p': "p < length (mAllRitems ?s)" using p by (simp add: RunFrames_items_length)
  have pos: "NumFramesDirty ?e > 0" using IH1 lt by simp
  have mem: "?e \<in> set (mAllRitems ?s)" using p' by simp
  have dist': "distinct (map ObjCBIndex (mAllRitems ?s))" using dist by (simp only: RunFrames_ObjCBIndex)
  have eq: "ObjCBIndex ?e = ObjCBIndex ?orig" "World ?e = World ?orig"
    using RunFrames_item_fields[OF p] by simp_all
  have d: "NumFramesDirty (mAllRitems (AfterFrames N (xs @ [x]) s) ! p) = int N - int (length (xs @ [x]))"
    using p' pos IH1 by (simp add: RunFrames_snoc Frame_items ItemRefreshed_fields)
  have w: "\<And>t. 1 \<le> t \<Longrightarrow> t \<le> length (xs @ [x]) \<Longrightarrow>
            ObjectCB (mFrameResources (AfterFrames N (xs @ [x]) s) ! ((?i + t) mod N)) (ObjCBIndex ?orig)
              = Some (XMMatrixTranspose (World ?orig))"
  proof -
    fix t assume t: "1 \<le> t" "t \<le> length (xs @ [x])"
    have tl: "(?i + t) mod N < length (mFrameResources ?s)" using flen lt by simp
    show "ObjectCB (mFrameResources (AfterFrames N (xs @ [x]) s) ! ((?i + t) mod N)) (ObjCBIndex ?orig)
              = Some (XMMatrixTranspose (World ?orig))"
    proof (cases "t = length xs + 1")
      case True
      then have "(?i + t) mod N = ?k" by (simp add: add.assoc)
      then have "(?i + t) mod N = (mCurrFrameResourceIndex ?s + 1) mod N"
        using next_slot by simp
      then have "ObjectCB (mFrameResources (AfterFrame N x ?s) ! ((?i + t) mod N))
                   = fold BufferRefreshed (mAllRitems ?s) (ObjectCB (mFrameResources ?s ! ((?i + t) mod N)))"
        using tl by (rule Frame_ObjectCB_current[rotated])
      moreover have "fold BufferRefreshed (mAllRitems ?s) (ObjectCB (mFrameResources ?s ! ((?i + t) mod N)))
                       (ObjCBIndex ?e) = Some (XMMatrixTranspose (World ?e))"
        using dist' mem pos by (rule fold_cb_dirty)
      ultimately show ?thesis by (simp add: RunFrames_snoc eq)
    next
      case False
      then have t': "t \<le> length xs" using t(2) by simp
      have "(?i + t) mod N \<noteq> ?k"
      proof
        assume "(?i + t) mod N = ?k"
        then have "(?i + t) mod N = (?i + (length xs + 1)) mod N" by (simp add: add.assoc)
        moreover have "t < length xs + 1" using t' by simp
        moreover have "length xs + 1 - t < N" using t(1) lt by simp
        ultimately show False by (rule ring_distinct)
      qed
      then have "(?i + t) mod N \<noteq> (mCurrFrameResourceIndex ?s + 1) mod N"
        using next_slot by simp
      then have "ObjectCB (mFrameResources (AfterFrame N x ?s) ! ((?i + t) mod N))
                   = ObjectCB (mFrameResources ?s ! ((?i + t) mod N))"
        using tl by (rule Frame_ObjectCB_other[rotated])
      then show ?thesis using IH2[OF t(1) t'] by (simp add: RunFrames_snoc)
    qed
  qed
  show ?case using d w by blast
qed

text \<open>Claim C3. Let a render item have \<open>NumFramesDirty = N\<close>, as at construction or
  after a transform change, in a scene whose items have pairwise different constant
  buffer indices. Then the next \<open>N\<close> frames return, and each of their calls of \<open>Update\<close>
  writes the transposed world matrix into the item's element of the per-object buffer of
  the frame resource current in that call and decrements the counter by 1; the world
  matrix and the index stay as they are. After the \<open>N\<close>th call the counter is 0 and the
  per-object buffer of every ring slot holds the transposed world matrix at the item's
  element.\<close>

theorem C3_dirty_propagation:
  assumes len: "length (mFrameResources s) = N"
    and idx: "mCurrFrameResourceIndex s < N"
    and dist: "distinct (map ObjCBIndex (mAllRitems s))"
    and p: "p < length (mAllRitems s)"
    and dirty: "NumFramesDirty (mAllRitems s ! p) = int N"
    and frames: "length inps \<le> N"
  shows
    "\<exists>s'. RunFrames N inps s = Inr s' \<and>
     NumFramesDirty (mAllRitems s' ! p) = int N - int (length inps) \<and>
     World (mAllRitems s' ! p) = World (mAllRitems s ! p) \<and>
     ObjCBIndex (mAllRitems s' ! p) = ObjCBIndex (mAllRitems s ! p) \<and>
     (\<forall>t. 1 \<le> t \<and> t \<le> length inps \<longrightarrow>
          ObjectCB (mFrameResources s' ! ((mCurrFrameResourceIndex s + t) mod N))
            (ObjCBIndex (mAllRitems s ! p)) = Some (XMMatrixTranspose (World (mAllRitems s ! p)))) \<and>
     (length inps = N \<longrightarrow>
        NumFramesDirty (mAllRitems s' ! p) = 0 \<and>
        (\<forall>k<N. ObjectCB (mFrameResources s' ! k)
                  (ObjCBIndex (mAllRitems s ! p)) = Some (XMMatrixTranspose (World (mAllRitems s ! p)))))"
proof -
  let ?s = "AfterFrames N inps s"
  let ?v = "Some (XMMatrixTranspose (World (mAllRitems s ! p)))"
  have r: "RunFrames N inps s = Inr ?s" by (rule RunFrames_total)
  have a: "NumFramesDirty (mAllRitems ?s ! p) = int N - int (length inps)"
    and b: "\<forall>t. 1 \<le> t \<and> t \<le> length inps \<longrightarrow>
          ObjectCB (mFrameResources ?s ! ((mCurrFrameResourceIndex s + t) mod N))
            (ObjCBIndex (mAllRitems s ! p)) = ?v"
    using dirty_propagation[OF len idx dist p dirty frames] by blast+
  have c: "length inps = N \<longrightarrow> (\<forall>k<N. ObjectCB (mFrameResources ?s ! k) (ObjCBIndex (mAllRitems s ! p)) = ?v)"
  proof (intro impI allI)
    fix k assume full: "length inps = N" and k: "k < N"
    obtain t where "1 \<le> t" "t \<le> N" "(mCurrFrameResourceIndex s + t) mod N = k"
      using ring_onto[OF idx k] by blast
    then show "ObjectCB (mFrameResources ?s ! k) (ObjCBIndex (mAllRitems s ! p)) = ?v"
      using b full by auto
  qed
  have d: "length inps = N \<longrightarrow> NumFramesDirty (mAllRitems ?s ! p) = 0"
    using a by simp
  have "RunFrames N inps s = Inr ?s \<and>
     NumFramesDirty (mAllRitems ?s ! p) = int N - int (length inps) \<and>
     World (mAllRitems ?s ! p) = World (mAllRitems s ! p) \<and>
     ObjCBIndex (mAllRitems ?s ! p) = ObjCBIndex (mAllRitems s ! p) \<and>
     (\<forall>t. 1 \<le> t \<and> t \<le> length inps \<longrightarrow>
          ObjectCB (mFrameResources ?s ! ((mCurrFrameResourceIndex s + t) mod N))
            (ObjCBIndex (mAllRitems s ! p)) = ?v) \<and>
     (length inps = N \<longrightarrow>
        NumFramesDirty (mAllRitems ?s ! p) = 0 \<and>
        (\<forall>k<N. ObjectCB (mFrameResources ?s ! k) (ObjCBIndex (mAllRitems s ! p)) = ?v))"
    using c d by (intro conjI r a b RunFrames_item_fields[OF p]) blast
  then show ?thesis by (rule exI)
qed

text \<open>On the concrete run: after three frames the first item's counter is 0 and each of
  the three per-object buffers holds its (transposed) identity matrix at element 0.\<close>

theorem C3_dirty_propagation_witness:
  "length (mFrameResources ExampleApp) = gNumFrameResources \<and>
   mCurrFrameResourceIndex ExampleApp < gNumFrameResources \<and>
   distinct (map ObjCBIndex (mAllRitems ExampleApp)) \<and>
   NumFramesDirty (mAllRitems ExampleApp ! 0) = 3 \<and>
   (\<exists>s'. RunFrames gNumFrameResources [(0, ()), (0, ()), (0, ())] ExampleApp = Inr s' \<and>
      NumFramesDirty (mAllRitems s' ! 0) = 0 \<and>
      ObjectCB (mFrameResources s' ! 0) 0 = Some Identity4x4 \<and>
      ObjectCB (mFrameResources s' ! 1) 0 = Some Identity4x4 \<and>
      ObjectCB (mFrameResources s' ! 2) 0 = Some Identity4x4)"
proof -
  let ?inps = "[(0, ()), (0, ()), (0::UINT64, ())]"
  have h1: "length (mFrameResources ExampleApp) = gNumFrameResources"
    by (simp add: ExampleApp_frs gNumFrameResources_def)
  have h2: "mCurrFrameResourceIndex ExampleApp < gNumFrameResources"
    by (simp add: ExampleApp_fields gNumFrameResources_def)
  have h3: "distinct (map ObjCBIndex (mAllRitems ExampleApp))"
    unfolding ExampleApp_def by (rule Initialize_distinct)
  have h4: "0 < length (mAllRitems ExampleApp)"
    by (simp add: ExampleApp_def Initialize_items PushRitems_length Scene_length)
  have item: "mAllRitems ExampleApp ! 0 =
      NewRitem gNumFrameResources (BuildDrawArgs ExampleMeshes) Identity4x4 0 ''box''"
    unfolding ExampleApp_def by (rule Initialize_item0)
  have h5: "NumFramesDirty (mAllRitems ExampleApp ! 0) = int gNumFrameResources"
    by (simp add: item NewRitem_def RenderItem_default_def)
  have h6: "length ?inps \<le> gNumFrameResources"
    by (simp add: gNumFrameResources_def)
  have w: "World (mAllRitems ExampleApp ! 0) = Identity4x4" "ObjCBIndex (mAllRitems ExampleApp ! 0) = 0"
    by (simp_all add: item NewRitem_def)
  have full: "length ?inps = gNumFrameResources" by (simp add: gNumFrameResources_def)
  obtain s' where s': "RunFrames gNumFrameResources ?inps ExampleApp = Inr s'"
      "length ?inps = gNumFrameResources \<longrightarrow>
        NumFramesDirty (mAllRitems s' ! 0) = 0 \<and>
        (\<forall>k<gNumFrameResources. ObjectCB (mFrameResources s' ! k)
                  (ObjCBIndex (mAllRitems ExampleApp ! 0))
             = Some (XMMatrixTranspose (World (mAllRitems ExampleApp ! 0))))"
    using C3_dirty_propagation[OF h1 h2 h3 h4 h5 h6] by blast
  have d: "NumFramesDirty (mAllRitems s' ! 0) = 0"
    using s'(2) full by blast
  have "\<forall>k<gNumFrameResources. ObjectCB (mFrameResources s' ! k)
           (ObjCBIndex (mAllRitems ExampleApp ! 0)) = Some (XMMatrixTranspose (World (mAllRitems ExampleApp ! 0)))"
    using s'(2) full by blast
  then have "\<forall>k<3. ObjectCB (mFrameResources s' ! k) 0 = Some Identity4x4"
    by (simp add: w Transpose_Identity gNumFrameResources_def)
  then have e: "ObjectCB (mFrameResources s' ! 0) 0 = Some Identity4x4"
      "ObjectCB (mFrameResources s' ! 1) 0 = Some Identity4x4"
      "ObjectCB (mFrameResources s' ! 2) 0 = Some Identity4x4"
    by simp_all
  have h5': "NumFramesDirty (mAllRitems ExampleApp ! 0) = 3"
    using h5 by (simp add: gNumFrameResources_def)
  show ?thesis using h1 h2 h3 h5' s'(1) d e by blast
qed

subsection \<open>Clean items are not rewritten\<close>

lemma RunFrames_dirty_bound:
  assumes "\<forall>e \<in> set (mAllRitems s). NumFramesDirty e \<le> d"
  shows "\<forall>e \<in> set (mAllRitems (AfterFrames N inps s)). NumFramesDirty e \<le> max 0 (d - int (length inps))"
proof (induction inps rule: rev_induct)
  case Nil
  show ?case using assms by auto
next
  case (snoc x xs)
  show ?case
  proof
    fix e assume "e \<in> set (mAllRitems (AfterFrames N (xs @ [x]) s))"
    then obtain e' where e': "e' \<in> set (mAllRitems (AfterFrames N xs s))" "e = ItemRefreshed e'"
      by (auto simp: RunFrames_snoc Frame_items)
    then have "NumFramesDirty e' \<le> max 0 (d - int (length xs))" using snoc.IH by blast
    then show "NumFramesDirty e \<le> max 0 (d - int (length (xs @ [x])))"
      by (auto simp: e'(2) ItemRefreshed_fields)
  qed
qed

lemma map_update_same: "k < length xs \<Longrightarrow> (map f xs)[k := f (xs ! k)] = map f xs"
  by (simp add: list_eq_iff_nth_eq nth_list_update)

lemma Update_clean:
  assumes clean: "\<forall>e \<in> set (mAllRitems s). NumFramesDirty e \<le> 0"
  shows "objCBWrites (AfterUpdate N inp s) = objCBWrites s"
    and "map ObjectCB (mFrameResources (AfterUpdate N inp s)) = map ObjectCB (mFrameResources s)"
    and "mAllRitems (AfterUpdate N inp s) = mAllRitems s"
proof -
  have "filter (\<lambda>e. NumFramesDirty e > 0) (mAllRitems s) = []"
    using clean by (auto simp: filter_empty_conv)
  then show "objCBWrites (AfterUpdate N inp s) = objCBWrites s"
    by (simp add: Update_writes)
  have "fold BufferRefreshed (mAllRitems s)
          (ObjectCB (mFrameResources s ! ((mCurrFrameResourceIndex s + 1) mod N)))
        = ObjectCB (mFrameResources s ! ((mCurrFrameResourceIndex s + 1) mod N))"
    using clean by (rule fold_cb_clean)
  then show "map ObjectCB (mFrameResources (AfterUpdate N inp s)) = map ObjectCB (mFrameResources s)"
    by (cases "(mCurrFrameResourceIndex s + 1) mod N < length (mFrameResources s)")
       (simp_all add: Update_frs map_update list_update_beyond not_less map_update_same)
  have "map ItemRefreshed (mAllRitems s) = mAllRitems s"
    using clean by (intro map_idI) (auto simp: ItemRefreshed_def)
  then show "mAllRitems (AfterUpdate N inp s) = mAllRitems s"
    by (simp add: Update_items)
qed

text \<open>Claim C8. Let no item's \<open>NumFramesDirty\<close> exceed \<open>N\<close> (it is set to \<open>N\<close> and
  only ever decremented) and let a full cycle of \<open>N\<close> frames run with no transform
  change. The next \<open>Update\<close> makes current the slot that the first \<open>Update\<close> of the
  cycle made current, and it performs no \<open>CopyData\<close> on a per-object buffer: the count
  of such calls, every per-object buffer and every item are as before the call, because
  every counter is at most 0 and the write is guarded by \<open>NumFramesDirty > 0\<close>. All it
  adds to the trace is the wait, if one is due, and the copy into the per-pass buffer.\<close>

theorem C8_second_update_writes_nothing:
  assumes bound: "\<forall>e \<in> set (mAllRitems s). NumFramesDirty e \<le> int N"
    and cycle: "length inps = N" and N: "0 < N"
  shows "\<exists>first t second.
         Update N (hd inps) s = Inr first \<and> RunFrames N inps s = Inr t \<and>
         Update N inp t = Inr second \<and>
         mCurrFrameResourceIndex second = mCurrFrameResourceIndex first \<and>
         objCBWrites second = objCBWrites t \<and>
         map ObjectCB (mFrameResources second) = map ObjectCB (mFrameResources t) \<and>
         mAllRitems second = mAllRitems t \<and>
         trace second =
           trace t @
           (if NextSlotFence N t \<noteq> 0 \<and> fst inp < NextSlotFence N t
            then [WaitForFence (NextSlot N t) (NextSlotFence N t)] else []) @
           [CopyPassCB (NextSlot N t)]"
proof -
  let ?s = "AfterFrames N inps s"
  have "\<forall>e \<in> set (mAllRitems ?s). NumFramesDirty e \<le> max 0 (int N - int (length inps))"
    using bound by (rule RunFrames_dirty_bound)
  then have clean: "\<forall>e \<in> set (mAllRitems ?s). NumFramesDirty e \<le> 0"
    using cycle by simp
  have ne: "inps \<noteq> []" using cycle N by auto
  have "mCurrFrameResourceIndex ?s = (mCurrFrameResourceIndex s + N) mod N"
    using ne cycle by (simp add: RunFrames_index)
  then have "mCurrFrameResourceIndex (AfterUpdate N inp ?s) = (mCurrFrameResourceIndex s + 1) mod N"
    by (simp add: Update_index mod_Suc_eq)
  then have same: "mCurrFrameResourceIndex (AfterUpdate N inp ?s)
      = mCurrFrameResourceIndex (AfterUpdate N (hd inps) s)"
    by (simp add: Update_index)
  have "filter (\<lambda>e. NumFramesDirty e > 0) (mAllRitems ?s) = []"
    using clean by (auto simp: filter_empty_conv)
  then have tr: "trace (AfterUpdate N inp ?s) =
           trace ?s @
           (if NextSlotFence N ?s \<noteq> 0 \<and> fst inp < NextSlotFence N ?s
            then [WaitForFence (NextSlot N ?s) (NextSlotFence N ?s)] else []) @
           [CopyPassCB (NextSlot N ?s)]"
    by (simp add: Update_trace NextSlot_def NextSlotFence_def)
  have "Update N (hd inps) s = Inr (AfterUpdate N (hd inps) s) \<and> RunFrames N inps s = Inr ?s \<and>
         Update N inp ?s = Inr (AfterUpdate N inp ?s) \<and>
         mCurrFrameResourceIndex (AfterUpdate N inp ?s)
           = mCurrFrameResourceIndex (AfterUpdate N (hd inps) s) \<and>
         objCBWrites (AfterUpdate N inp ?s) = objCBWrites ?s \<and>
         map ObjectCB (mFrameResources (AfterUpdate N inp ?s)) = map ObjectCB (mFrameResources ?s) \<and>
         mAllRitems (AfterUpdate N inp ?s) = mAllRitems ?s \<and>
         trace (AfterUpdate N inp ?s) =
           trace ?s @
           (if NextSlotFence N ?s \<noteq> 0 \<and> fst inp < NextSlotFence N ?s
            then [WaitForFence (NextSlot N ?s) (NextSlotFence N ?s)] else []) @
           [CopyPassCB (NextSlot N ?s)]"
    by (intro conjI Update_returns RunFrames_total same Update_clean[OF clean] tr)
  then show ?thesis by blast
qed

text \<open>On the concrete run: the fourth \<open>Update\<close> is the second one for slot 1 and makes
  no per-object write.\<close>

theorem C8_second_update_writes_nothing_witness:
  "map NumFramesDirty (mAllRitems ExampleApp) = replicate 22 (int gNumFrameResources) \<and>
   (\<exists>first t second.
      Update gNumFrameResources (0, ()) ExampleApp = Inr first \<and>
      RunFrames gNumFrameResources [(0, ()), (0, ()), (0, ())] ExampleApp = Inr t \<and>
      Update gNumFrameResources (0, ()) t = Inr second \<and>
      mCurrFrameResourceIndex first = 1 \<and> mCurrFrameResourceIndex second = 1 \<and>
      objCBWrites second = objCBWrites t)"
proof -
  let ?inps = "[(0, ()), (0, ()), (0::UINT64, ())]"
  have h1: "\<forall>e \<in> set (mAllRitems ExampleApp). NumFramesDirty e \<le> int gNumFrameResources"
    unfolding ExampleApp_def by (simp add: Initialize_dirty_all)
  have h2: "length ?inps = gNumFrameResources" by (simp add: gNumFrameResources_def)
  have h3: "0 < gNumFrameResources" by (simp add: gNumFrameResources_def)
  obtain first t second where c8:
      "Update gNumFrameResources (hd ?inps) ExampleApp = Inr first"
      "RunFrames gNumFrameResources ?inps ExampleApp = Inr t"
      "Update gNumFrameResources (0, ()) t = Inr second"
      "mCurrFrameResourceIndex second = mCurrFrameResourceIndex first"
      "objCBWrites second = objCBWrites t"
    using C8_second_update_writes_nothing[OF h1 h2 h3, of "(0, ())"] by blast
  have f: "Update gNumFrameResources (0, ()) ExampleApp = Inr first" using c8(1) by simp
  have "first = AfterUpdate gNumFrameResources (0, ()) ExampleApp" by (simp add: f)
  then have i: "mCurrFrameResourceIndex first = 1"
    by (simp add: Update_index ExampleApp_fields gNumFrameResources_def)
  have j: "mCurrFrameResourceIndex second = 1" using c8(4) i by simp
  have d: "map NumFramesDirty (mAllRitems ExampleApp) = replicate 22 (int gNumFrameResources)"
    unfolding ExampleApp_def by (rule Initialize_dirty)
  show ?thesis using d f c8(2,3,5) i j by blast
qed

subsection \<open>Layout of the descriptor heap\<close>

lemma sint_of_nat_small: "n < 2 ^ 31 \<Longrightarrow> sint (of_nat n :: UINT) = int n"
  by (simp add: signed_of_nat signed_take_bit_int_eq_self)

lemma slot_offset_bound:
  fixes f i oc N :: nat
  assumes "f < N" "i < oc"
  shows "f * oc + i < N * oc"
proof -
  have "f * oc + i < f * oc + oc" using assms(2) by simp
  also have "\<dots> = (f + 1) * oc" by simp
  also have "\<dots> \<le> N * oc" using assms(1) by (intro mult_le_mono1) simp
  finally show ?thesis .
qed

lemma slot_offset_inj:
  fixes f f' i i' oc :: nat
  assumes "i < oc" "i' < oc" "f' * oc + i' = f * oc + i"
  shows "f' = f \<and> i' = i"
proof -
  have "(f' * oc + i') div oc = (f * oc + i) div oc" "(f' * oc + i') mod oc = (f * oc + i) mod oc"
    using assms(3) by simp_all
  then show ?thesis using assms(1,2) by simp
qed

lemma ObjCbvHeapIndex_small:
  "f * oc + i < 2 ^ 31 \<Longrightarrow> ObjCbvHeapIndex f (of_nat oc) (of_nat i) = int (f * oc + i)"
proof -
  assume b: "f * oc + i < 2 ^ 31"
  have "(of_nat f * of_nat oc + of_nat i :: UINT) = of_nat (f * oc + i)" by simp
  then show ?thesis unfolding ObjCbvHeapIndex_def using sint_of_nat_small[OF b] by simp
qed

lemma PassCbvHeapIndex_small:
  "oc * N + f < 2 ^ 31 \<Longrightarrow> PassCbvHeapIndex (of_nat oc * of_nat N) f = int (oc * N + f)"
proof -
  assume b: "oc * N + f < 2 ^ 31"
  have "(of_nat oc * of_nat N + of_nat f :: UINT) = of_nat (oc * N + f)" by simp
  then show ?thesis unfolding PassCbvHeapIndex_def using sint_of_nat_small[OF b] by simp
qed

lemma CCBV_fields:
  "NumDescriptors (CreateConstantBufferView v k h) = NumDescriptors h"
  "Descriptors (CreateConstantBufferView v k h) = (Descriptors h)(k \<mapsto> v)"
  by (simp_all add: CreateConstantBufferView_def)

lemma fold_CCBV_num:
  "NumDescriptors (fold (\<lambda>x. CreateConstantBufferView (v x) (key x)) xs h) = NumDescriptors h"
  by (induction xs arbitrary: h) (simp_all add: CCBV_fields)

lemma inner_views:
  assumes "f * oc + oc < 2 ^ 31"
  shows "n \<le> oc \<Longrightarrow>
    Descriptors (fold (\<lambda>i. CreateConstantBufferView (ObjectCBV f i) (ObjCbvHeapIndex f (of_nat oc) i))
                  (map of_nat [0..<n]) h) k =
      (if int (f * oc) \<le> k \<and> k < int (f * oc + n)
       then Some (ObjectCBV f (of_nat (nat k - f * oc))) else Descriptors h k)"
proof (induction n)
  case 0 show ?case by auto
next
  case (Suc n)
  have "f * oc + n < f * oc + oc" using Suc.prems by simp
  then have "f * oc + n < 2 ^ 31" using assms by (rule less_trans)
  then have idx: "ObjCbvHeapIndex f (of_nat oc) (of_nat n) = int (f * oc + n)"
    by (rule ObjCbvHeapIndex_small)
  have IH: "Descriptors (fold (\<lambda>i. CreateConstantBufferView (ObjectCBV f i) (ObjCbvHeapIndex f (of_nat oc) i))
                  (map of_nat [0..<n]) h) k =
      (if int (f * oc) \<le> k \<and> k < int (f * oc + n)
       then Some (ObjectCBV f (of_nat (nat k - f * oc))) else Descriptors h k)"
    using Suc.IH Suc.prems by simp
  show ?case
  proof (cases "k = int (f * oc + n)")
    case True
    then have "nat k - f * oc = n" by (simp del: of_nat_add of_nat_mult)
    then show ?thesis using True by (simp add: CCBV_fields idx del: of_nat_add of_nat_mult)
  next
    case False
    then show ?thesis using IH by (auto simp add: CCBV_fields idx simp del: of_nat_add of_nat_mult)
  qed
qed

lemma outer_views:
  assumes fits: "N * oc < 2 ^ 31"
  shows "F \<le> N \<Longrightarrow>
    Descriptors (fold (\<lambda>f. fold (\<lambda>i. CreateConstantBufferView (ObjectCBV f i)
                                     (ObjCbvHeapIndex f (of_nat oc) i))
                              (map of_nat [0..<oc]))
                  [0..<F] h) k =
      (if 0 \<le> k \<and> k < int (F * oc)
       then Some (ObjectCBV (nat k div oc) (of_nat (nat k mod oc))) else Descriptors h k)"
proof (induction F)
  case 0 show ?case by auto
next
  case (Suc F)
  let ?h = "fold (\<lambda>f. fold (\<lambda>i. CreateConstantBufferView (ObjectCBV f i)
                                     (ObjCbvHeapIndex f (of_nat oc) i))
                              (map of_nat [0..<oc]))
                  [0..<F] h"
  have "F * oc + oc = Suc F * oc" by simp
  also have "\<dots> \<le> N * oc" using Suc.prems by (intro mult_le_mono1)
  finally have "F * oc + oc < 2 ^ 31" using fits by (rule le_less_trans)
  then have inner: "Descriptors (fold (\<lambda>i. CreateConstantBufferView (ObjectCBV F i)
                                     (ObjCbvHeapIndex F (of_nat oc) i))
                  (map of_nat [0..<oc]) ?h) k =
      (if int (F * oc) \<le> k \<and> k < int (F * oc + oc)
       then Some (ObjectCBV F (of_nat (nat k - F * oc))) else Descriptors ?h k)"
    by (rule inner_views) simp
  have IH: "Descriptors ?h k =
      (if 0 \<le> k \<and> k < int (F * oc)
       then Some (ObjectCBV (nat k div oc) (of_nat (nat k mod oc))) else Descriptors h k)"
    using Suc.IH Suc.prems by simp
  show ?case
  proof (cases "int (F * oc) \<le> k \<and> k < int (F * oc + oc)")
    case True
    then have k: "F * oc \<le> nat k" "nat k < F * oc + oc" by linarith+
    then obtain r where r: "nat k = F * oc + r" "r < oc"
      by (metis le_Suc_ex nat_add_left_cancel_less)
    have "nat k div oc = F" "nat k mod oc = r" "nat k - F * oc = r" using r by simp_all
    moreover have "0 \<le> int (F * oc)" by simp
    then have "0 \<le> k" using True by linarith
    moreover have "k < int (Suc F * oc)" using True by (simp add: algebra_simps)
    ultimately show ?thesis using True inner by (simp del: of_nat_add of_nat_mult)
  next
    case False
    have "Descriptors (fold (\<lambda>i. CreateConstantBufferView (ObjectCBV F i)
                                     (ObjCbvHeapIndex F (of_nat oc) i))
                  (map of_nat [0..<oc]) ?h) k = Descriptors ?h k"
      using inner by (simp only: False if_False)
    moreover have "(0 \<le> k \<and> k < int (Suc F * oc)) = (0 \<le> k \<and> k < int (F * oc))"
      using False by (auto simp: algebra_simps)
    ultimately show ?thesis using IH by (simp only: upt_Suc_append[OF le0] fold_append o_apply fold_simps)
  qed
qed

lemma pass_views:
  assumes fits: "oc * N + N < 2 ^ 31"
  shows "F \<le> N \<Longrightarrow>
    Descriptors (fold (\<lambda>f. CreateConstantBufferView (PassCBV f)
                              (PassCbvHeapIndex (of_nat oc * of_nat N) f))
                  [0..<F] h) k =
      (if int (oc * N) \<le> k \<and> k < int (oc * N + F)
       then Some (PassCBV (nat k - oc * N)) else Descriptors h k)"
proof (induction F)
  case 0 show ?case by auto
next
  case (Suc F)
  have "oc * N + F < oc * N + N" using Suc.prems by simp
  then have "oc * N + F < 2 ^ 31" using fits by (rule less_trans)
  then have idx: "PassCbvHeapIndex (of_nat oc * of_nat N) F = int (oc * N + F)"
    by (rule PassCbvHeapIndex_small)
  have IH: "Descriptors (fold (\<lambda>f. CreateConstantBufferView (PassCBV f)
                              (PassCbvHeapIndex (of_nat oc * of_nat N) f))
                  [0..<F] h) k =
      (if int (oc * N) \<le> k \<and> k < int (oc * N + F)
       then Some (PassCBV (nat k - oc * N)) else Descriptors h k)"
    using Suc.IH Suc.prems by simp
  show ?case
  proof (cases "k = int (oc * N + F)")
    case True
    then have "nat k - oc * N = F" by (simp del: of_nat_add of_nat_mult)
    then show ?thesis using True by (simp add: CCBV_fields idx del: of_nat_add of_nat_mult)
  next
    case False
    then show ?thesis using IH by (auto simp add: CCBV_fields idx simp del: of_nat_add of_nat_mult)
  qed
qed

lemma nested_CCBV_num:
  "NumDescriptors (fold (\<lambda>f. fold (\<lambda>i. CreateConstantBufferView (v f i) (key f i)) (ys f)) xs h)
     = NumDescriptors h"
  by (induction xs arbitrary: h) (simp_all add: fold_CCBV_num)

lemma BuildDescriptorHeaps_fields:
  "mOpaqueRitems (BuildDescriptorHeaps N s) = mOpaqueRitems s"
  "mPassCbvOffset (BuildDescriptorHeaps N s) = of_nat (length (mOpaqueRitems s)) * of_nat N"
  "mCbvHeap (BuildDescriptorHeaps N s) =
     \<lparr> NumDescriptors = (of_nat (length (mOpaqueRitems s)) + 1) * of_nat N, Descriptors = Map.empty \<rparr>"
  by (simp_all add: BuildDescriptorHeaps_def Let_def)

lemma heap_capacity:
  "NumDescriptors (mCbvHeap (BuildConstantBufferViews N (BuildDescriptorHeaps N s)))
     = of_nat ((length (mOpaqueRitems s) + 1) * N)"
  by (simp add: BuildConstantBufferViews_def Let_def BuildDescriptorHeaps_fields
        fold_CCBV_num nested_CCBV_num algebra_simps)

lemma heap_descriptors:
  assumes oc: "length (mOpaqueRitems s) = oc" and small: "oc < 2 ^ 32"
  shows "Descriptors (mCbvHeap (BuildConstantBufferViews N (BuildDescriptorHeaps N s))) =
     Descriptors
       (fold (\<lambda>f. CreateConstantBufferView (PassCBV f) (PassCbvHeapIndex (of_nat oc * of_nat N) f))
          [0..<N]
          (fold (\<lambda>f. fold (\<lambda>i. CreateConstantBufferView (ObjectCBV f i)
                                     (ObjCbvHeapIndex f (of_nat oc) i))
                              (map of_nat [0..<oc]))
             [0..<N] \<lparr> NumDescriptors = (of_nat oc + 1) * of_nat N, Descriptors = Map.empty \<rparr>))"
proof -
  have "unat (of_nat oc :: UINT) = oc" using small by (rule unat_of_nat_small)
  then show ?thesis
    by (simp add: BuildConstantBufferViews_def Let_def BuildDescriptorHeaps_fields oc)
qed

lemma layout_bounds:
  fixes N objCount :: nat
  assumes fits: "N * (objCount + 1) < 2 ^ 31" and N: "0 < N"
  shows "objCount * N + N < 2 ^ 31" and "N * objCount < 2 ^ 31" and "objCount < 2 ^ 32"
    and "N * (objCount + 1) < 2 ^ 32"
proof -
  have cap: "N * (objCount + 1) = objCount * N + N" by (simp add: algebra_simps)
  show b_pass: "objCount * N + N < 2 ^ 31" using fits by (simp only: cap)
  have "N * objCount \<le> objCount * N + N" by (simp add: algebra_simps)
  then show "N * objCount < 2 ^ 31" using b_pass by (rule le_less_trans)
  have "1 \<le> N" using N by simp
  then have "objCount * 1 \<le> objCount * N" by (rule mult_le_mono2)
  then have "objCount \<le> objCount * N" by (simp only: mult_1_right)
  then have "objCount \<le> objCount * N + N" by (rule trans_le_add1)
  then have "objCount < 2 ^ 31" using b_pass by (rule le_less_trans)
  moreover have p: "(2::nat) ^ 31 < 2 ^ 32" by simp
  ultimately show "objCount < 2 ^ 32" by (rule less_trans)
  show "N * (objCount + 1) < 2 ^ 32" using fits p by (rule less_trans)
qed

lemma heap_contents:
  assumes oc: "length (mOpaqueRitems s) = objCount"
    and fits: "N * (objCount + 1) < 2 ^ 31" and N: "0 < N"
  shows "Descriptors (mCbvHeap (BuildConstantBufferViews N (BuildDescriptorHeaps N s))) k =
      (if int (objCount * N) \<le> k \<and> k < int (objCount * N + N)
       then Some (PassCBV (nat k - objCount * N))
       else if 0 \<le> k \<and> k < int (N * objCount)
       then Some (ObjectCBV (nat k div objCount) (of_nat (nat k mod objCount))) else None)"
proof -
  note b = layout_bounds[OF fits N]
  show ?thesis
    by (simp only: heap_descriptors[OF oc b(3), of N] pass_views[OF b(1) le_refl]
          outer_views[OF b(2) le_refl]) simp
qed

lemma heap_object_view:
  assumes oc: "length (mOpaqueRitems s) = objCount"
    and fits: "N * (objCount + 1) < 2 ^ 31" and f: "f < N" and i: "i < objCount"
  shows "Descriptors (mCbvHeap (BuildConstantBufferViews N (BuildDescriptorHeaps N s)))
           (int (f * objCount + i)) = Some (ObjectCBV f (of_nat i))"
proof -
  have N: "0 < N" using f by simp
  have obj_lt: "f * objCount + i < N * objCount" using f i by (rule slot_offset_bound)
  have "\<not> (int (objCount * N) \<le> int (f * objCount + i))"
    using obj_lt by (simp del: of_nat_add of_nat_mult add: mult.commute)
  moreover have "0 \<le> int (f * objCount + i) \<and> int (f * objCount + i) < int (N * objCount)"
    using obj_lt by (simp del: of_nat_add of_nat_mult)
  moreover have "nat (int (f * objCount + i)) div objCount = f"
    "nat (int (f * objCount + i)) mod objCount = i"
    using i by (simp_all del: of_nat_add of_nat_mult)
  ultimately show ?thesis
    by (simp only: heap_contents[OF oc fits N] if_False if_True simp_thms)
qed

lemma heap_pass_view:
  assumes oc: "length (mOpaqueRitems s) = objCount"
    and fits: "N * (objCount + 1) < 2 ^ 31" and f: "f < N"
  shows "Descriptors (mCbvHeap (BuildConstantBufferViews N (BuildDescriptorHeaps N s)))
           (int (objCount * N + f)) = Some (PassCBV f)"
proof -
  have N: "0 < N" using f by simp
  have "int (objCount * N) \<le> int (objCount * N + f) \<and> int (objCount * N + f) < int (objCount * N + N)"
    using f by (simp del: of_nat_add of_nat_mult)
  moreover have "nat (int (objCount * N + f)) - objCount * N = f"
    by (simp del: of_nat_add of_nat_mult)
  ultimately show ?thesis
    by (simp only: heap_contents[OF oc fits N] if_True simp_thms)
qed

lemma heap_capacity_small:
  assumes oc: "length (mOpaqueRitems s) = objCount"
    and fits: "N * (objCount + 1) < 2 ^ 31" and N: "0 < N"
  shows "unat (NumDescriptors (mCbvHeap (BuildConstantBufferViews N (BuildDescriptorHeaps N s))))
           = N * (objCount + 1)"
proof -
  have "unat (of_nat (N * (objCount + 1)) :: UINT) = N * (objCount + 1)"
    using layout_bounds(4)[OF fits N] by (rule unat_of_nat_small)
  then show ?thesis by (simp add: heap_capacity oc mult.commute)
qed

text \<open>Claim C2. Let the heap be built for \<open>objCount\<close> opaque render items and ring
  depth \<open>N\<close>, the capacity \<open>N * (objCount + 1)\<close> lying in the range of the 32-bit
  integers the code computes with. Then the heap has that capacity; for every frame slot
  \<open>f < N\<close> and object index \<open>i < objCount\<close> the object offset computed by the code is
  \<open>f * objCount + i\<close>, the pass offset is \<open>objCount * N + f\<close>, and the heap holds at
  these offsets the view of object \<open>i\<close> of slot \<open>f\<close> and the pass view of slot \<open>f\<close>;
  object offsets lie below the pass block, pass offsets below the capacity, and
  different (slot, object) pairs have different offsets.\<close>

theorem C2_descriptor_layout:
  assumes oc: "length (mOpaqueRitems s) = objCount"
    and fits: "N * (objCount + 1) < 2 ^ 31"
    and f: "f < N" and i: "i < objCount"
  shows
    "unat (NumDescriptors (mCbvHeap (BuildConstantBufferViews N (BuildDescriptorHeaps N s))))
       = N * (objCount + 1) \<and>
     ObjCbvHeapIndex f (of_nat objCount) (of_nat i) = int (f * objCount + i) \<and>
     PassCbvHeapIndex (mPassCbvOffset (BuildDescriptorHeaps N s)) f = int (objCount * N + f) \<and>
     Descriptors (mCbvHeap (BuildConstantBufferViews N (BuildDescriptorHeaps N s)))
       (int (f * objCount + i)) = Some (ObjectCBV f (of_nat i)) \<and>
     Descriptors (mCbvHeap (BuildConstantBufferViews N (BuildDescriptorHeaps N s)))
       (int (objCount * N + f)) = Some (PassCBV f) \<and>
     f * objCount + i < N * objCount \<and>
     objCount * N + f < N * (objCount + 1) \<and>
     (\<forall>f' i'. f' < N \<and> i' < objCount \<and> f' * objCount + i' = f * objCount + i
                 \<longrightarrow> f' = f \<and> i' = i)"
proof -
  let ?h = "mCbvHeap (BuildConstantBufferViews N (BuildDescriptorHeaps N s))"
  have N: "0 < N" using f by simp
  note b = layout_bounds[OF fits N]
  have obj_lt: "f * objCount + i < N * objCount" using f i by (rule slot_offset_bound)
  have pass_lt: "objCount * N + f < N * (objCount + 1)" using f by (simp add: algebra_simps)
  have b1: "f * objCount + i < 2 ^ 31" using obj_lt b(2) by (rule less_trans)
  have "objCount * N + f < objCount * N + N" using f by simp
  then have b2: "objCount * N + f < 2 ^ 31" using b(1) by (rule less_trans)
  have c1: "unat (NumDescriptors ?h) = N * (objCount + 1)"
    using oc fits N by (rule heap_capacity_small)
  have c2: "ObjCbvHeapIndex f (of_nat objCount) (of_nat i) = int (f * objCount + i)"
    using b1 by (rule ObjCbvHeapIndex_small)
  have c3: "PassCbvHeapIndex (mPassCbvOffset (BuildDescriptorHeaps N s)) f = int (objCount * N + f)"
    using PassCbvHeapIndex_small[OF b2] by (simp add: BuildDescriptorHeaps_fields oc)
  have c4: "Descriptors ?h (int (f * objCount + i)) = Some (ObjectCBV f (of_nat i))"
    using oc fits f i by (rule heap_object_view)
  have c5: "Descriptors ?h (int (objCount * N + f)) = Some (PassCBV f)"
    using oc fits f by (rule heap_pass_view)
  have c6: "\<forall>f' i'. f' < N \<and> i' < objCount \<and> f' * objCount + i' = f * objCount + i
                 \<longrightarrow> f' = f \<and> i' = i"
    using slot_offset_inj[OF i] by blast
  show ?thesis using c1 c2 c3 c4 c5 c6 obj_lt pass_lt by blast
qed

lemma SeventeenObjects_opaque: "length (mOpaqueRitems SeventeenObjects) = 17"
  by (simp add: SeventeenObjects_def ShapesApp_new_def)

text \<open>With 17 objects and ring depth 3: capacity 54, the object view of slot 2 and
  object 5 at offset 39, the pass view of slot 2 at offset 53.\<close>

theorem C2_descriptor_layout_witness:
  "length (mOpaqueRitems SeventeenObjects) = 17 \<and>
   unat (NumDescriptors (mCbvHeap (BuildConstantBufferViews gNumFrameResources
           (BuildDescriptorHeaps gNumFrameResources SeventeenObjects)))) = 54 \<and>
   ObjCbvHeapIndex 2 17 5 = 39 \<and>
   PassCbvHeapIndex (mPassCbvOffset (BuildDescriptorHeaps gNumFrameResources SeventeenObjects)) 2 = 53 \<and>
   Descriptors (mCbvHeap (BuildConstantBufferViews gNumFrameResources
           (BuildDescriptorHeaps gNumFrameResources SeventeenObjects))) 39 = Some (ObjectCBV 2 5) \<and>
   Descriptors (mCbvHeap (BuildConstantBufferViews gNumFrameResources
           (BuildDescriptorHeaps gNumFrameResources SeventeenObjects))) 53 = Some (PassCBV 2)"
proof -
  have h2: "gNumFrameResources * (17 + 1) < 2 ^ 31" by (simp add: gNumFrameResources_def)
  have h3: "2 < gNumFrameResources" by (simp add: gNumFrameResources_def)
  have h4: "(5::nat) < 17" by simp
  show ?thesis
    using C2_descriptor_layout[OF SeventeenObjects_opaque h2 h3 h4] SeventeenObjects_opaque
    by (simp add: gNumFrameResources_def)
qed

subsection \<open>Descriptor indices computed while drawing\<close>

lemma Frame_static:
  "mOpaqueRitems (AfterFrame N inp s) = mOpaqueRitems s"
  "mPassCbvOffset (AfterFrame N inp s) = mPassCbvOffset s"
  "mCbvHeap (AfterFrame N inp s) = mCbvHeap s"
  by (simp_all add: Frame_eq Frame_Draw_unchanged Update_unchanged)

lemma RunFrames_static:
  "mOpaqueRitems (AfterFrames N inps s) = mOpaqueRitems s"
  "mPassCbvOffset (AfterFrames N inps s) = mPassCbvOffset s"
  "mCbvHeap (AfterFrames N inps s) = mCbvHeap s"
  by (induction inps rule: rev_induct) (simp_all add: RunFrames_snoc Frame_static)

lemma Initialize_heap:
  fixes world_of :: "string \<Rightarrow> ('a::{zero,one}) XMFLOAT4X4"
  shows "\<exists>s1 :: ('a, 'p) ShapesApp. length (mOpaqueRitems s1) = 22 \<and>
     mCbvHeap (Initialize N f0 args world_of :: ('a, 'p) ShapesApp)
       = mCbvHeap (BuildConstantBufferViews N (BuildDescriptorHeaps N s1)) \<and>
     mPassCbvOffset (Initialize N f0 args world_of :: ('a, 'p) ShapesApp)
       = mPassCbvOffset (BuildDescriptorHeaps N s1)"
proof -
  let ?s1 = "BuildFrameResources N (BuildRenderItems N args world_of (ShapesApp_new f0)) :: ('a, 'p) ShapesApp"
  have "length (mOpaqueRitems ?s1) = 22"
    by (simp add: BuildFrameResources_def BuildRenderItems_def ShapesApp_new_def Let_def
          PushRitems_length Scene_length)
  moreover have "mCbvHeap (Initialize N f0 args world_of :: ('a, 'p) ShapesApp)
       = mCbvHeap (BuildConstantBufferViews N (BuildDescriptorHeaps N ?s1))"
    by (simp add: Initialize_def)
  moreover have "mPassCbvOffset (Initialize N f0 args world_of :: ('a, 'p) ShapesApp)
       = mPassCbvOffset (BuildDescriptorHeaps N ?s1)"
    by (simp add: Initialize_def BuildConstantBufferViews_def Let_def)
  ultimately show ?thesis by blast
qed

lemma Initialize_item_index:
  fixes world_of :: "string \<Rightarrow> ('a::{zero,one}) XMFLOAT4X4"
  assumes "p < 22"
  shows "ObjCBIndex (mAllRitems (Initialize N f0 args world_of :: ('a, 'p) ShapesApp) ! p) = of_nat p"
proof -
  let ?s = "Initialize N f0 args world_of :: ('a, 'p) ShapesApp"
  have len: "length (mAllRitems ?s) = 22"
    by (simp add: Initialize_items PushRitems_length Scene_length)
  have "map ObjCBIndex (mAllRitems ?s) ! p = map of_nat [0..<22] ! p"
    by (simp only: Initialize_ObjCBIndex)
  then show ?thesis using assms len by (simp del: upt_Suc)
qed

lemma draws_of_slot:
  assumes ptr: "mCurrFrameResource u = Some cur"
    and opaque: "mOpaqueRitems u = [0..<22]"
    and index: "\<And>q. q < 22 \<Longrightarrow> ObjCBIndex (mAllRitems u ! q) = of_nat q"
    and small: "mCurrFrameResourceIndex u * 22 + 22 \<le> 2 ^ 31"
  shows "DrawRenderItems u (mOpaqueRitems u) =
     Inr (concat (map (\<lambda>q. [ SetGraphicsRootDescriptorTable 0
                                (int (mCurrFrameResourceIndex u * 22 + q)),
                              DrawIndexedInstanced (riIndexCount (mAllRitems u ! q)) 1
                                (riStartIndexLocation (mAllRitems u ! q))
                                (riBaseVertexLocation (mAllRitems u ! q)) 0 ]) [0..<22]))"
proof -
  have "\<And>q. q \<in> set [0..<22] \<Longrightarrow>
      ObjCbvHeapIndex (mCurrFrameResourceIndex u) (of_nat (length (mOpaqueRitems u)))
        (ObjCBIndex (mAllRitems u ! q)) = int (mCurrFrameResourceIndex u * 22 + q)"
  proof -
    fix q :: nat assume "q \<in> set [0..<22]"
    then have q: "q < 22" by (simp del: upt_Suc)
    then have "mCurrFrameResourceIndex u * 22 + q < mCurrFrameResourceIndex u * 22 + 22" by simp
    then have "mCurrFrameResourceIndex u * 22 + q < 2 ^ 31" using small by (rule less_le_trans)
    then have "ObjCbvHeapIndex (mCurrFrameResourceIndex u) (of_nat 22) (of_nat q)
        = int (mCurrFrameResourceIndex u * 22 + q)"
      by (rule ObjCbvHeapIndex_small)
    then show "ObjCbvHeapIndex (mCurrFrameResourceIndex u) (of_nat (length (mOpaqueRitems u)))
        (ObjCBIndex (mAllRitems u ! q)) = int (mCurrFrameResourceIndex u * 22 + q)"
      by (simp only: opaque index[OF q] length_upt diff_zero)
  qed
  then have "map (\<lambda>p. [ SetGraphicsRootDescriptorTable 0
                          (ObjCbvHeapIndex (mCurrFrameResourceIndex u)
                             (of_nat (length (mOpaqueRitems u))) (ObjCBIndex (mAllRitems u ! p))),
                        DrawIndexedInstanced (riIndexCount (mAllRitems u ! p)) 1
                          (riStartIndexLocation (mAllRitems u ! p))
                          (riBaseVertexLocation (mAllRitems u ! p)) 0 ]) [0..<22]
      = map (\<lambda>q. [ SetGraphicsRootDescriptorTable 0 (int (mCurrFrameResourceIndex u * 22 + q)),
                    DrawIndexedInstanced (riIndexCount (mAllRitems u ! q)) 1
                      (riStartIndexLocation (mAllRitems u ! q))
                      (riBaseVertexLocation (mAllRitems u ! q)) 0 ]) [0..<22]"
    by (intro map_cong refl) (simp del: upt_Suc of_nat_add of_nat_mult)
  then show ?thesis
    by (simp only: DrawRenderItems_returns[OF ptr] opaque)
qed

text \<open>Claim C10. \<open>BuildRenderItems\<close> gives the 22 render items the constant buffer
  indices 0, 1, ..., 21 in order, without duplicates, and puts every item on the opaque
  list. Provided the heap capacity \<open>N * 23\<close> lies in the range of the 32-bit integers,
  the following holds after \<open>Initialize\<close>, any number of frames and the \<open>Update\<close> of
  the next frame. The ring index \<open>i\<close> is below \<open>N\<close>. The commands that
  \<open>DrawRenderItems\<close> records are, for the items 0, ..., 21 in order, the binding of the
  descriptor at \<open>i * 22 + q\<close> followed by the draw call of item \<open>q\<close>; \<open>Draw\<close> submits
  exactly these after the binding of the pass descriptor at \<open>N * 22 + i\<close>. Every such
  index is below \<open>N * 22\<close>, where the pass descriptors begin, hence below the capacity
  \<open>N * 23\<close>, and the heap holds there the view of that item's element in the buffer of
  slot \<open>i\<close>. For every frame slot \<open>f < N\<close> and every item \<open>p\<close> the index computed by the
  code's formula is \<open>f * 22 + p\<close>, below \<open>N * 22\<close>, where the heap holds the view of
  element \<open>p\<close> in the buffer of slot \<open>f\<close>.\<close>

theorem C10_draw_descriptor_in_range:
  fixes world_of :: "string \<Rightarrow> ('a::{zero,one}) XMFLOAT4X4" and inps :: "(UINT64 \<times> 'p) list"
  assumes fits: "N * 23 < 2 ^ 31" and f: "f < N" and p: "p < 22"
  shows
    "map ObjCBIndex (mAllRitems (Initialize N f0 args world_of :: ('a, 'p) ShapesApp))
       = map of_nat [0..<22] \<and>
     distinct (map ObjCBIndex (mAllRitems (Initialize N f0 args world_of :: ('a, 'p) ShapesApp))) \<and>
     mOpaqueRitems (Initialize N f0 args world_of :: ('a, 'p) ShapesApp) = [0..<22] \<and>
     length (mAllRitems (Initialize N f0 args world_of :: ('a, 'p) ShapesApp)) = 22 \<and>
     f * 22 + p < N * 22 \<and>
     N * 22 < N * 23 \<and>
     (\<exists>t u v. RunFrames N inps (Initialize N f0 args world_of) = Inr t \<and>
        Update N inp t = Inr u \<and> Draw u = Inr v \<and>
        mCurrFrameResourceIndex t < N \<and>
        mCurrFrameResourceIndex u < N \<and>
        DrawRenderItems u (mOpaqueRitems u) =
          Inr (concat (map (\<lambda>q. [ SetGraphicsRootDescriptorTable 0
                                     (int (mCurrFrameResourceIndex u * 22 + q)),
                                   DrawIndexedInstanced (riIndexCount (mAllRitems u ! q)) 1
                                     (riStartIndexLocation (mAllRitems u ! q))
                                     (riBaseVertexLocation (mAllRitems u ! q)) 0 ]) [0..<22])) \<and>
        mCommandQueue v =
          mCommandQueue u @
            [ExecuteCommandLists (mCurrFrameResourceIndex u)
               (SetGraphicsRootDescriptorTable 1 (int (N * 22 + mCurrFrameResourceIndex u))
                # concat (map (\<lambda>q. [ SetGraphicsRootDescriptorTable 0
                                        (int (mCurrFrameResourceIndex u * 22 + q)),
                                      DrawIndexedInstanced (riIndexCount (mAllRitems u ! q)) 1
                                        (riStartIndexLocation (mAllRitems u ! q))
                                        (riBaseVertexLocation (mAllRitems u ! q)) 0 ]) [0..<22])),
             Signal (mCurrentFence u + 1)] \<and>
        mCurrFrameResourceIndex u * 22 + p < N * 22 \<and>
        N * 22 + mCurrFrameResourceIndex u < N * 23 \<and>
        Descriptors (mCbvHeap u) (int (mCurrFrameResourceIndex u * 22 + p))
          = Some (ObjectCBV (mCurrFrameResourceIndex u) (of_nat p)) \<and>
        Descriptors (mCbvHeap u) (int (N * 22 + mCurrFrameResourceIndex u))
          = Some (PassCBV (mCurrFrameResourceIndex u)) \<and>
        ObjCbvHeapIndex f (of_nat (length (mOpaqueRitems u))) (ObjCBIndex (mAllRitems u ! p))
          = int (f * 22 + p) \<and>
        sint (mPassCbvOffset u) = int (N * 22) \<and>
        unat (NumDescriptors (mCbvHeap u)) = N * 23 \<and>
        Descriptors (mCbvHeap u) (int (f * 22 + p)) = Some (ObjectCBV f (of_nat p)))"
proof -
  let ?init = "Initialize N f0 args world_of :: ('a, 'p) ShapesApp"
  let ?t = "AfterFrames N inps ?init"
  let ?u = "AfterUpdate N inp ?t"
  let ?v = "AfterDraw ?u"
  let ?i = "mCurrFrameResourceIndex ?u"
  let ?draws = "concat (map (\<lambda>q. [ SetGraphicsRootDescriptorTable 0 (int (?i * 22 + q)),
                                   DrawIndexedInstanced (riIndexCount (mAllRitems ?u ! q)) 1
                                     (riStartIndexLocation (mAllRitems ?u ! q))
                                     (riBaseVertexLocation (mAllRitems ?u ! q)) 0 ]) [0..<22])"
  have N: "0 < N" using f by simp
  have fits': "N * (22 + 1) < 2 ^ 31" using fits by simp
  note b = layout_bounds[OF fits' N]
  obtain s1 :: "('a, 'p) ShapesApp" where s1: "length (mOpaqueRitems s1) = 22"
      "mCbvHeap ?init = mCbvHeap (BuildConstantBufferViews N (BuildDescriptorHeaps N s1))"
      "mPassCbvOffset ?init = mPassCbvOffset (BuildDescriptorHeaps N s1)"
    using Initialize_heap[of N f0 args world_of] by blast
  have heap: "mCbvHeap ?u = mCbvHeap (BuildConstantBufferViews N (BuildDescriptorHeaps N s1))"
    by (simp add: Update_unchanged RunFrames_static s1)
  have off: "mPassCbvOffset ?u = of_nat 22 * of_nat N"
    by (simp add: Update_unchanged RunFrames_static s1 BuildDescriptorHeaps_fields)
  have c1: "map ObjCBIndex (mAllRitems ?init) = map of_nat [0..<22]" by (rule Initialize_ObjCBIndex)
  have c2: "distinct (map ObjCBIndex (mAllRitems ?init))" by (rule Initialize_distinct)
  have c3: "mOpaqueRitems ?init = [0..<22]" by (rule Initialize_opaque)
  have c4: "length (mAllRitems ?init) = 22"
    by (simp add: Initialize_items PushRitems_length Scene_length)
  have it: "mCurrFrameResourceIndex ?t < N"
    using N by (simp add: RunFrames_index Initialize_index)
  have iu: "?i < N" using N by (simp add: Update_index)
  have ptr: "mCurrFrameResource ?u = Some ?i" by (simp add: Update_pointer Update_index)
  have opaque: "mOpaqueRitems ?u = [0..<22]"
    by (simp add: Update_unchanged RunFrames_static c3)
  have index: "\<And>q. q < 22 \<Longrightarrow> ObjCBIndex (mAllRitems ?u ! q) = of_nat q"
  proof -
    fix q :: nat assume q: "q < 22"
    have q': "q < length (mAllRitems ?init)" using q c4 by simp
    then have "q < length (mAllRitems ?t)" by (simp add: RunFrames_items_length)
    then have "ObjCBIndex (mAllRitems ?u ! q) = ObjCBIndex (mAllRitems ?t ! q)"
      by (simp add: Update_items ItemRefreshed_fields)
    then show "ObjCBIndex (mAllRitems ?u ! q) = of_nat q"
      using RunFrames_item_fields(1)[OF q', of N inps] Initialize_item_index[OF q, of N f0 args world_of]
      by simp
  qed
  have lt: "f * 22 + p < N * 22" using f p by (rule slot_offset_bound)
  then have small: "f * 22 + p < 2 ^ 31" using b(2) by (rule less_trans)
  have ilt: "?i * 22 + p < N * 22" using iu p by (rule slot_offset_bound)
  have "?i * 22 + 22 = (?i + 1) * 22" by simp
  also have "\<dots> \<le> N * 22" using iu by (intro mult_le_mono1) simp
  finally have "?i * 22 + 22 \<le> N * 22" .
  moreover have "N * 22 \<le> 2 ^ 31" using b(2) by (rule less_imp_le)
  ultimately have slot_small: "?i * 22 + 22 \<le> 2 ^ 31" by (rule le_trans)
  have draws: "DrawRenderItems ?u (mOpaqueRitems ?u) = Inr ?draws"
    using ptr opaque index slot_small by (rule draws_of_slot)
  have "22 * N + ?i < 22 * N + N" using iu by simp
  then have pass_small: "22 * N + ?i < 2 ^ 31" using b(1) by (rule less_trans)
  then have "PassCbvHeapIndex (of_nat 22 * of_nat N) ?i = int (22 * N + ?i)"
    by (rule PassCbvHeapIndex_small)
  then have pass: "PassCbvHeapIndex (mPassCbvOffset ?u) ?i = int (N * 22 + ?i)"
    by (simp only: off mult.commute[of N 22])
  have queue: "mCommandQueue ?v =
      mCommandQueue ?u @
        [ExecuteCommandLists ?i (SetGraphicsRootDescriptorTable 1 (int (N * 22 + ?i)) # ?draws),
         Signal (mCurrentFence ?u + 1)]"
    using Draw_queue[OF ptr] by (simp only: draws pass sum.sel)
  have plt: "N * 22 + ?i < N * 23" using iu by simp
  have hobj: "Descriptors (mCbvHeap ?u) (int (?i * 22 + p)) = Some (ObjectCBV ?i (of_nat p))"
    using heap_object_view[OF s1(1) fits' iu p] by (simp only: heap)
  have hpass: "Descriptors (mCbvHeap ?u) (int (N * 22 + ?i)) = Some (PassCBV ?i)"
    using heap_pass_view[OF s1(1) fits' iu] by (simp only: heap mult.commute[of N 22])
  have "ObjCbvHeapIndex f (of_nat 22) (of_nat p) = int (f * 22 + p)"
    using small by (rule ObjCbvHeapIndex_small)
  then have c6: "ObjCbvHeapIndex f (of_nat (length (mOpaqueRitems ?u))) (ObjCBIndex (mAllRitems ?u ! p))
       = int (f * 22 + p)"
    by (simp only: opaque index[OF p] length_upt diff_zero)
  have "22 * N + 0 < 2 ^ 31" using b(2) by (simp add: mult.commute)
  then have "PassCbvHeapIndex (of_nat 22 * of_nat N) 0 = int (22 * N + 0)"
    by (rule PassCbvHeapIndex_small)
  then have c7: "sint (mPassCbvOffset ?u) = int (N * 22)"
    by (simp add: off PassCbvHeapIndex_def mult.commute)
  have c8: "N * 22 < N * 23" using N by simp
  have c9: "unat (NumDescriptors (mCbvHeap ?u)) = N * 23"
    using heap_capacity_small[OF s1(1) fits' N] by (simp add: heap)
  have c10: "Descriptors (mCbvHeap ?u) (int (f * 22 + p)) = Some (ObjectCBV f (of_nat p))"
    using heap_object_view[OF s1(1) fits' f p] by (simp only: heap)
  have run: "RunFrames N inps ?init = Inr ?t \<and>
        Update N inp ?t = Inr ?u \<and> Draw ?u = Inr ?v \<and>
        mCurrFrameResourceIndex ?t < N \<and> ?i < N \<and>
        DrawRenderItems ?u (mOpaqueRitems ?u) = Inr ?draws \<and>
        mCommandQueue ?v =
          mCommandQueue ?u @
            [ExecuteCommandLists ?i (SetGraphicsRootDescriptorTable 1 (int (N * 22 + ?i)) # ?draws),
             Signal (mCurrentFence ?u + 1)] \<and>
        ?i * 22 + p < N * 22 \<and>
        N * 22 + ?i < N * 23 \<and>
        Descriptors (mCbvHeap ?u) (int (?i * 22 + p)) = Some (ObjectCBV ?i (of_nat p)) \<and>
        Descriptors (mCbvHeap ?u) (int (N * 22 + ?i)) = Some (PassCBV ?i) \<and>
        ObjCbvHeapIndex f (of_nat (length (mOpaqueRitems ?u))) (ObjCBIndex (mAllRitems ?u ! p))
          = int (f * 22 + p) \<and>
        sint (mPassCbvOffset ?u) = int (N * 22) \<and>
        unat (NumDescriptors (mCbvHeap ?u)) = N * 23 \<and>
        Descriptors (mCbvHeap ?u) (int (f * 22 + p)) = Some (ObjectCBV f (of_nat p))"
    by (intro conjI RunFrames_total Update_returns Draw_returns[OF ptr] it iu draws queue
          ilt plt hobj hpass c6 c7 c9 c10)
  then have ex: "\<exists>t u v. RunFrames N inps ?init = Inr t \<and>
        Update N inp t = Inr u \<and> Draw u = Inr v \<and>
        mCurrFrameResourceIndex t < N \<and>
        mCurrFrameResourceIndex u < N \<and>
        DrawRenderItems u (mOpaqueRitems u) =
          Inr (concat (map (\<lambda>q. [ SetGraphicsRootDescriptorTable 0
                                     (int (mCurrFrameResourceIndex u * 22 + q)),
                                   DrawIndexedInstanced (riIndexCount (mAllRitems u ! q)) 1
                                     (riStartIndexLocation (mAllRitems u ! q))
                                     (riBaseVertexLocation (mAllRitems u ! q)) 0 ]) [0..<22])) \<and>
        mCommandQueue v =
          mCommandQueue u @
            [ExecuteCommandLists (mCurrFrameResourceIndex u)
               (SetGraphicsRootDescriptorTable 1 (int (N * 22 + mCurrFrameResourceIndex u))
                # concat (map (\<lambda>q. [ SetGraphicsRootDescriptorTable 0
                                        (int (mCurrFrameResourceIndex u * 22 + q)),
                                      DrawIndexedInstanced (riIndexCount (mAllRitems u ! q)) 1
                                        (riStartIndexLocation (mAllRitems u ! q))
                                        (riBaseVertexLocation (mAllRitems u ! q)) 0 ]) [0..<22])),
             Signal (mCurrentFence u + 1)] \<and>
        mCurrFrameResourceIndex u * 22 + p < N * 22 \<and>
        N * 22 + mCurrFrameResourceIndex u < N * 23 \<and>
        Descriptors (mCbvHeap u) (int (mCurrFrameResourceIndex u * 22 + p))
          = Some (ObjectCBV (mCurrFrameResourceIndex u) (of_nat p)) \<and>
        Descriptors (mCbvHeap u) (int (N * 22 + mCurrFrameResourceIndex u))
          = Some (PassCBV (mCurrFrameResourceIndex u)) \<and>
        ObjCbvHeapIndex f (of_nat (length (mOpaqueRitems u))) (ObjCBIndex (mAllRitems u ! p))
          = int (f * 22 + p) \<and>
        sint (mPassCbvOffset u) = int (N * 22) \<and>
        unat (NumDescriptors (mCbvHeap u)) = N * 23 \<and>
        Descriptors (mCbvHeap u) (int (f * 22 + p)) = Some (ObjectCBV f (of_nat p))"
    by (intro exI)
  show ?thesis by (intro conjI c1 c2 c3 c4 lt c8 ex)
qed

lemma two_frames_then_update:
  "mCurrFrameResourceIndex (AfterUpdate gNumFrameResources (0, ())
      (AfterFrames gNumFrameResources [(0, ()), (0, ())] ExampleApp)) = 0"
  by (simp add: Update_index RunFrames_index ExampleApp_fields gNumFrameResources_def)

text \<open>On the concrete run: the third frame draws from slot 0, binding the descriptors
  0, ..., 21 for its items, the last of which is the view of element 21 of slot 0, and
  the pass descriptor 66; for slot 2 and the last item the formula gives 65, below the
  capacity 69, where the heap holds the view of element 21 of slot 2.\<close>

theorem C10_draw_descriptor_in_range_witness:
  "mOpaqueRitems ExampleApp = [0..<22] \<and>
   (\<exists>t u v. RunFrames gNumFrameResources [(0, ()), (0, ())] ExampleApp = Inr t \<and>
      Update gNumFrameResources (0, ()) t = Inr u \<and> Draw u = Inr v \<and>
      mCurrFrameResourceIndex u = 0 \<and>
      DrawRenderItems u (mOpaqueRitems u) =
        Inr (concat (map (\<lambda>q. [ SetGraphicsRootDescriptorTable 0 (int q),
                                 DrawIndexedInstanced (riIndexCount (mAllRitems u ! q)) 1
                                   (riStartIndexLocation (mAllRitems u ! q))
                                   (riBaseVertexLocation (mAllRitems u ! q)) 0 ]) [0..<22])) \<and>
      Descriptors (mCbvHeap u) 21 = Some (ObjectCBV 0 21) \<and>
      Descriptors (mCbvHeap u) 66 = Some (PassCBV 0) \<and>
      ObjCbvHeapIndex 2 (of_nat (length (mOpaqueRitems u))) (ObjCBIndex (mAllRitems u ! 21)) = 65 \<and>
      unat (NumDescriptors (mCbvHeap u)) = 69 \<and>
      Descriptors (mCbvHeap u) 65 = Some (ObjectCBV 2 21))"
proof -
  let ?inps = "[(0, ()), (0::UINT64, ())]"
  have h1: "gNumFrameResources * 23 < 2 ^ 31" by (simp add: gNumFrameResources_def)
  have h2: "2 < gNumFrameResources" by (simp add: gNumFrameResources_def)
  have h3: "(21::nat) < 22" by simp
  note c10 = C10_draw_descriptor_in_range[OF h1 h2 h3, of 0 "BuildDrawArgs ExampleMeshes"
              "\<lambda>name. (Identity4x4 :: int XMFLOAT4X4)" ?inps "(0, ())"]
  have o: "mOpaqueRitems ExampleApp = [0..<22]"
    using c10 unfolding ExampleApp_def by blast
  obtain t u v where r: "RunFrames gNumFrameResources ?inps ExampleApp = Inr t"
      "Update gNumFrameResources (0, ()) t = Inr u" "Draw u = Inr v"
      "DrawRenderItems u (mOpaqueRitems u) =
          Inr (concat (map (\<lambda>q. [ SetGraphicsRootDescriptorTable 0
                                     (int (mCurrFrameResourceIndex u * 22 + q)),
                                   DrawIndexedInstanced (riIndexCount (mAllRitems u ! q)) 1
                                     (riStartIndexLocation (mAllRitems u ! q))
                                     (riBaseVertexLocation (mAllRitems u ! q)) 0 ]) [0..<22]))"
      "Descriptors (mCbvHeap u) (int (mCurrFrameResourceIndex u * 22 + 21))
          = Some (ObjectCBV (mCurrFrameResourceIndex u) (of_nat 21))"
      "Descriptors (mCbvHeap u) (int (gNumFrameResources * 22 + mCurrFrameResourceIndex u))
          = Some (PassCBV (mCurrFrameResourceIndex u))"
      "ObjCbvHeapIndex 2 (of_nat (length (mOpaqueRitems u))) (ObjCBIndex (mAllRitems u ! 21))
          = int (2 * 22 + 21)"
      "unat (NumDescriptors (mCbvHeap u)) = gNumFrameResources * 23"
      "Descriptors (mCbvHeap u) (int (2 * 22 + 21)) = Some (ObjectCBV 2 (of_nat 21))"
    using c10[THEN conjunct2, THEN conjunct2, THEN conjunct2, THEN conjunct2, THEN conjunct2,
              THEN conjunct2]
    unfolding ExampleApp_def by blast
  have "t = AfterFrames gNumFrameResources ?inps ExampleApp" by (simp add: r(1))
  then have "u = AfterUpdate gNumFrameResources (0, ())
                   (AfterFrames gNumFrameResources ?inps ExampleApp)"
    using r(2) by simp
  then have i: "mCurrFrameResourceIndex u = 0" by (simp only: two_frames_then_update)
  have d: "DrawRenderItems u (mOpaqueRitems u) =
        Inr (concat (map (\<lambda>q. [ SetGraphicsRootDescriptorTable 0 (int q),
                                 DrawIndexedInstanced (riIndexCount (mAllRitems u ! q)) 1
                                   (riStartIndexLocation (mAllRitems u ! q))
                                   (riBaseVertexLocation (mAllRitems u ! q)) 0 ]) [0..<22]))"
    using r(4) by (simp only: i mult_zero_left add_0)
  have e: "Descriptors (mCbvHeap u) 21 = Some (ObjectCBV 0 21)"
      "Descriptors (mCbvHeap u) 66 = Some (PassCBV 0)"
      "ObjCbvHeapIndex 2 (of_nat (length (mOpaqueRitems u))) (ObjCBIndex (mAllRitems u ! 21)) = 65"
      "unat (NumDescriptors (mCbvHeap u)) = 69"
      "Descriptors (mCbvHeap u) 65 = Some (ObjectCBV 2 21)"
    using r(5,6,7,8,9) by (simp_all add: i gNumFrameResources_def)
  have "RunFrames gNumFrameResources ?inps ExampleApp = Inr t \<and>
      Update gNumFrameResources (0, ()) t = Inr u \<and> Draw u = Inr v \<and>
      mCurrFrameResourceIndex u = 0 \<and>
      DrawRenderItems u (mOpaqueRitems u) =
        Inr (concat (map (\<lambda>q. [ SetGraphicsRootDescriptorTable 0 (int q),
                                 DrawIndexedInstanced (riIndexCount (mAllRitems u ! q)) 1
                                   (riStartIndexLocation (mAllRitems u ! q))
                                   (riBaseVertexLocation (mAllRitems u ! q)) 0 ]) [0..<22])) \<and>
      Descriptors (mCbvHeap u) 21 = Some (ObjectCBV 0 21) \<and>
      Descriptors (mCbvHeap u) 66 = Some (PassCBV 0) \<and>
      ObjCbvHeapIndex 2 (of_nat (length (mOpaqueRitems u))) (ObjCBIndex (mAllRitems u ! 21)) = 65 \<and>
      unat (NumDescriptors (mCbvHeap u)) = 69 \<and>
      Descriptors (mCbvHeap u) 65 = Some (ObjectCBV 2 21)"
    by (intro conjI r(1,2,3) i d e)
  then show ?thesis using o by blast
qed

subsection \<open>The concatenated buffers\<close>

lemma FillVertices_step:
  "n + length vs \<le> length buf \<Longrightarrow> length buf < 2 ^ 32 \<Longrightarrow>
   FillVertices c vs buf (of_nat n) =
     (take n buf @ map (\<lambda>v. \<lparr> Pos = Position v, Color = c \<rparr>) vs @ drop (n + length vs) buf,
      of_nat (n + length vs))"
proof (induction vs arbitrary: buf n)
  case Nil
  then show ?case by simp
next
  case (Cons v vs)
  have n: "n < length buf" using Cons.prems(1) by simp
  then have "n < 2 ^ 32" using Cons.prems(2) by (rule less_trans)
  then have un: "unat (of_nat n :: UINT) = n" by (rule unat_of_nat_small)
  let ?x = "\<lparr> Pos = Position v, Color = c \<rparr>"
  have step: "FillVertices c (v # vs) buf (of_nat n) = FillVertices c vs (buf[n := ?x]) (of_nat (Suc n))"
    by (simp add: un add.commute)
  have "Suc n + length vs \<le> length (buf[n := ?x])" using Cons.prems(1) by simp
  moreover have "length (buf[n := ?x]) < 2 ^ 32" using Cons.prems(2) by simp
  ultimately have "FillVertices c vs (buf[n := ?x]) (of_nat (Suc n)) =
     (take (Suc n) (buf[n := ?x]) @ map (\<lambda>v. \<lparr> Pos = Position v, Color = c \<rparr>) vs
        @ drop (Suc n + length vs) (buf[n := ?x]),
      of_nat (Suc n + length vs))"
    by (rule Cons.IH)
  moreover have "take (Suc n) (buf[n := ?x]) = take n buf @ [?x]"
    using n by (simp add: take_Suc_conv_app_nth)
  moreover have "drop (Suc n + length vs) (buf[n := ?x]) = drop (n + length (v # vs)) buf"
    by simp
  ultimately show ?case using step by simp
qed

lemma FillVertices_append:
  assumes "length vs \<le> r" "length C + r < 2 ^ 32"
  shows "FillVertices c vs (C @ replicate r d) (of_nat (length C)) =
           ((C @ map (\<lambda>v. \<lparr> Pos = Position v, Color = c \<rparr>) vs) @ replicate (r - length vs) d,
            of_nat (length (C @ map (\<lambda>v. \<lparr> Pos = Position v, Color = c \<rparr>) vs)))"
proof -
  have "length C + length vs \<le> length (C @ replicate r d)" using assms(1) by simp
  moreover have "length (C @ replicate r d) < 2 ^ 32" using assms(2) by simp
  ultimately have "FillVertices c vs (C @ replicate r d) (of_nat (length C)) =
     (take (length C) (C @ replicate r d) @ map (\<lambda>v. \<lparr> Pos = Position v, Color = c \<rparr>) vs
        @ drop (length C + length vs) (C @ replicate r d),
      of_nat (length C + length vs))"
    by (rule FillVertices_step)
  then show ?thesis by simp
qed

lemma chain_step:
  assumes "P = (C @ replicate r d, of_nat (length C))" "length (Vertices mesh) \<le> r"
    "length C + r < 2 ^ 32"
  shows "(case P of (buf, k) \<Rightarrow> FillVertices c (Vertices mesh) buf k) =
           (C @ Colored c mesh @ replicate (r - length (Vertices mesh)) d,
            of_nat (length C + length (Vertices mesh)))"
  using FillVertices_append[OF assms(2,3), where c = c and d = d] by (simp add: assms(1) Colored_def)

lemma Colored_length: "length (Colored c mesh) = length (Vertices mesh)"
  by (simp add: Colored_def)

lemma vertices_chain:
  assumes T: "totalVertexCount m < 2 ^ 32"
  shows "vertices m = AllVertices (Shapes m)"
proof -
  let ?d = "\<lparr> Pos = 0, Color = NoColor \<rparr> :: 'a Vertex"
  have s0: "verticesAfter_box m = ((Colored Purple (box m)) @ replicate (length (Vertices (grid m)) + length (Vertices (sphere m)) + length (Vertices (cylinder m)) + length (Vertices (pyramid m)) + length (Vertices (wedge m)) + length (Vertices (cone m)) + length (Vertices (halfCone m)) + length (Vertices (prism m)) + length (Vertices (diamond m))) ?d, of_nat (length (Colored Purple (box m))))"
  proof -
    have "verticesAfter_box m =
        (case ([] @ replicate (totalVertexCount m) ?d, of_nat (length ([] :: 'a Vertex list))) of
           (buf, k) \<Rightarrow> FillVertices Purple (Vertices (box m)) buf k)"
      by (simp add: verticesAfter_box_def)
    also have "\<dots> = ([] @ Colored Purple (box m) @ replicate (totalVertexCount m - length (Vertices (box m))) ?d,
            of_nat (length ([] :: 'a Vertex list) + length (Vertices (box m))))"
      using T by (intro chain_step[OF refl]) (simp_all add: totalVertexCount_def)
    finally show ?thesis by (simp add: totalVertexCount_def Colored_length)
  qed
  have s1: "verticesAfter_grid m = ((Colored Purple (box m) @ Colored Gray (grid m)) @ replicate (length (Vertices (sphere m)) + length (Vertices (cylinder m)) + length (Vertices (pyramid m)) + length (Vertices (wedge m)) + length (Vertices (cone m)) + length (Vertices (halfCone m)) + length (Vertices (prism m)) + length (Vertices (diamond m))) ?d, of_nat (length (Colored Purple (box m) @ Colored Gray (grid m))))"
  proof -
    have "(case verticesAfter_box m of
             (buf, k) \<Rightarrow> FillVertices Gray (Vertices (grid m)) buf k) =
          ((Colored Purple (box m)) @ Colored Gray (grid m) @ replicate ((length (Vertices (grid m)) + length (Vertices (sphere m)) + length (Vertices (cylinder m)) + length (Vertices (pyramid m)) + length (Vertices (wedge m)) + length (Vertices (cone m)) + length (Vertices (halfCone m)) + length (Vertices (prism m)) + length (Vertices (diamond m))) - length (Vertices (grid m))) ?d,
            of_nat (length (Colored Purple (box m)) + length (Vertices (grid m))))"
      using T by (intro chain_step[OF s0]) (simp_all add: totalVertexCount_def Colored_length)
    then show ?thesis by (simp add: verticesAfter_grid_def Colored_length)
  qed
  have s2: "verticesAfter_sphere m = ((Colored Purple (box m) @ Colored Gray (grid m) @ Colored LightBlue (sphere m)) @ replicate (length (Vertices (cylinder m)) + length (Vertices (pyramid m)) + length (Vertices (wedge m)) + length (Vertices (cone m)) + length (Vertices (halfCone m)) + length (Vertices (prism m)) + length (Vertices (diamond m))) ?d, of_nat (length (Colored Purple (box m) @ Colored Gray (grid m) @ Colored LightBlue (sphere m))))"
  proof -
    have "(case verticesAfter_grid m of
             (buf, k) \<Rightarrow> FillVertices LightBlue (Vertices (sphere m)) buf k) =
          ((Colored Purple (box m) @ Colored Gray (grid m)) @ Colored LightBlue (sphere m) @ replicate ((length (Vertices (sphere m)) + length (Vertices (cylinder m)) + length (Vertices (pyramid m)) + length (Vertices (wedge m)) + length (Vertices (cone m)) + length (Vertices (halfCone m)) + length (Vertices (prism m)) + length (Vertices (diamond m))) - length (Vertices (sphere m))) ?d,
            of_nat (length (Colored Purple (box m) @ Colored Gray (grid m)) + length (Vertices (sphere m))))"
      using T by (intro chain_step[OF s1]) (simp_all add: totalVertexCount_def Colored_length)
    then show ?thesis by (simp add: verticesAfter_sphere_def Colored_length)
  qed
  have s3: "verticesAfter_cylinder m = ((Colored Purple (box m) @ Colored Gray (grid m) @ Colored LightBlue (sphere m) @ Colored SteelBlue (cylinder m)) @ replicate (length (Vertices (pyramid m)) + length (Vertices (wedge m)) + length (Vertices (cone m)) + length (Vertices (halfCone m)) + length (Vertices (prism m)) + length (Vertices (diamond m))) ?d, of_nat (length (Colored Purple (box m) @ Colored Gray (grid m) @ Colored LightBlue (sphere m) @ Colored SteelBlue (cylinder m))))"
  proof -
    have "(case verticesAfter_sphere m of
             (buf, k) \<Rightarrow> FillVertices SteelBlue (Vertices (cylinder m)) buf k) =
          ((Colored Purple (box m) @ Colored Gray (grid m) @ Colored LightBlue (sphere m)) @ Colored SteelBlue (cylinder m) @ replicate ((length (Vertices (cylinder m)) + length (Vertices (pyramid m)) + length (Vertices (wedge m)) + length (Vertices (cone m)) + length (Vertices (halfCone m)) + length (Vertices (prism m)) + length (Vertices (diamond m))) - length (Vertices (cylinder m))) ?d,
            of_nat (length (Colored Purple (box m) @ Colored Gray (grid m) @ Colored LightBlue (sphere m)) + length (Vertices (cylinder m))))"
      using T by (intro chain_step[OF s2]) (simp_all add: totalVertexCount_def Colored_length)
    then show ?thesis by (simp add: verticesAfter_cylinder_def Colored_length)
  qed
  have s4: "verticesAfter_pyramid m = ((Colored Purple (box m) @ Colored Gray (grid m) @ Colored LightBlue (sphere m) @ Colored SteelBlue (cylinder m) @ Colored Yellow (pyramid m)) @ replicate (length (Vertices (wedge m)) + length (Vertices (cone m)) + length (Vertices (halfCone m)) + length (Vertices (prism m)) + length (Vertices (diamond m))) ?d, of_nat (length (Colored Purple (box m) @ Colored Gray (grid m) @ Colored LightBlue (sphere m) @ Colored SteelBlue (cylinder m) @ Colored Yellow (pyramid m))))"
  proof -
    have "(case verticesAfter_cylinder m of
             (buf, k) \<Rightarrow> FillVertices Yellow (Vertices (pyramid m)) buf k) =
          ((Colored Purple (box m) @ Colored Gray (grid m) @ Colored LightBlue (sphere m) @ Colored SteelBlue (cylinder m)) @ Colored Yellow (pyramid m) @ replicate ((length (Vertices (pyramid m)) + length (Vertices (wedge m)) + length (Vertices (cone m)) + length (Vertices (halfCone m)) + length (Vertices (prism m)) + length (Vertices (diamond m))) - length (Vertices (pyramid m))) ?d,
            of_nat (length (Colored Purple (box m) @ Colored Gray (grid m) @ Colored LightBlue (sphere m) @ Colored SteelBlue (cylinder m)) + length (Vertices (pyramid m))))"
      using T by (intro chain_step[OF s3]) (simp_all add: totalVertexCount_def Colored_length)
    then show ?thesis by (simp add: verticesAfter_pyramid_def Colored_length)
  qed
  have s5: "verticesAfter_wedge m = ((Colored Purple (box m) @ Colored Gray (grid m) @ Colored LightBlue (sphere m) @ Colored SteelBlue (cylinder m) @ Colored Yellow (pyramid m) @ Colored Crimson (wedge m)) @ replicate (length (Vertices (cone m)) + length (Vertices (halfCone m)) + length (Vertices (prism m)) + length (Vertices (diamond m))) ?d, of_nat (length (Colored Purple (box m) @ Colored Gray (grid m) @ Colored LightBlue (sphere m) @ Colored SteelBlue (cylinder m) @ Colored Yellow (pyramid m) @ Colored Crimson (wedge m))))"
  proof -
    have "(case verticesAfter_pyramid m of
             (buf, k) \<Rightarrow> FillVertices Crimson (Vertices (wedge m)) buf k) =
          ((Colored Purple (box m) @ Colored Gray (grid m) @ Colored LightBlue (sphere m) @ Colored SteelBlue (cylinder m) @ Colored Yellow (pyramid m)) @ Colored Crimson (wedge m) @ replicate ((length (Vertices (wedge m)) + length (Vertices (cone m)) + length (Vertices (halfCone m)) + length (Vertices (prism m)) + length (Vertices (diamond m))) - length (Vertices (wedge m))) ?d,
            of_nat (length (Colored Purple (box m) @ Colored Gray (grid m) @ Colored LightBlue (sphere m) @ Colored SteelBlue (cylinder m) @ Colored Yellow (pyramid m)) + length (Vertices (wedge m))))"
      using T by (intro chain_step[OF s4]) (simp_all add: totalVertexCount_def Colored_length)
    then show ?thesis by (simp add: verticesAfter_wedge_def Colored_length)
  qed
  have s6: "verticesAfter_cone m = ((Colored Purple (box m) @ Colored Gray (grid m) @ Colored LightBlue (sphere m) @ Colored SteelBlue (cylinder m) @ Colored Yellow (pyramid m) @ Colored Crimson (wedge m) @ Colored Pink (cone m)) @ replicate (length (Vertices (halfCone m)) + length (Vertices (prism m)) + length (Vertices (diamond m))) ?d, of_nat (length (Colored Purple (box m) @ Colored Gray (grid m) @ Colored LightBlue (sphere m) @ Colored SteelBlue (cylinder m) @ Colored Yellow (pyramid m) @ Colored Crimson (wedge m) @ Colored Pink (cone m))))"
  proof -
    have "(case verticesAfter_wedge m of
             (buf, k) \<Rightarrow> FillVertices Pink (Vertices (cone m)) buf k) =
          ((Colored Purple (box m) @ Colored Gray (grid m) @ Colored LightBlue (sphere m) @ Colored SteelBlue (cylinder m) @ Colored Yellow (pyramid m) @ Colored Crimson (wedge m)) @ Colored Pink (cone m) @ replicate ((length (Vertices (cone m)) + length (Vertices (halfCone m)) + length (Vertices (prism m)) + length (Vertices (diamond m))) - length (Vertices (cone m))) ?d,
            of_nat (length (Colored Purple (box m) @ Colored Gray (grid m) @ Colored LightBlue (sphere m) @ Colored SteelBlue (cylinder m) @ Colored Yellow (pyramid m) @ Colored Crimson (wedge m)) + length (Vertices (cone m))))"
      using T by (intro chain_step[OF s5]) (simp_all add: totalVertexCount_def Colored_length)
    then show ?thesis by (simp add: verticesAfter_cone_def Colored_length)
  qed
  have s7: "verticesAfter_halfCone m = ((Colored Purple (box m) @ Colored Gray (grid m) @ Colored LightBlue (sphere m) @ Colored SteelBlue (cylinder m) @ Colored Yellow (pyramid m) @ Colored Crimson (wedge m) @ Colored Pink (cone m) @ Colored LightGreen (halfCone m)) @ replicate (length (Vertices (prism m)) + length (Vertices (diamond m))) ?d, of_nat (length (Colored Purple (box m) @ Colored Gray (grid m) @ Colored LightBlue (sphere m) @ Colored SteelBlue (cylinder m) @ Colored Yellow (pyramid m) @ Colored Crimson (wedge m) @ Colored Pink (cone m) @ Colored LightGreen (halfCone m))))"
  proof -
    have "(case verticesAfter_cone m of
             (buf, k) \<Rightarrow> FillVertices LightGreen (Vertices (halfCone m)) buf k) =
          ((Colored Purple (box m) @ Colored Gray (grid m) @ Colored LightBlue (sphere m) @ Colored SteelBlue (cylinder m) @ Colored Yellow (pyramid m) @ Colored Crimson (wedge m) @ Colored Pink (cone m)) @ Colored LightGreen (halfCone m) @ replicate ((length (Vertices (halfCone m)) + length (Vertices (prism m)) + length (Vertices (diamond m))) - length (Vertices (halfCone m))) ?d,
            of_nat (length (Colored Purple (box m) @ Colored Gray (grid m) @ Colored LightBlue (sphere m) @ Colored SteelBlue (cylinder m) @ Colored Yellow (pyramid m) @ Colored Crimson (wedge m) @ Colored Pink (cone m)) + length (Vertices (halfCone m))))"
      using T by (intro chain_step[OF s6]) (simp_all add: totalVertexCount_def Colored_length)
    then show ?thesis by (simp add: verticesAfter_halfCone_def Colored_length)
  qed
  have s8: "verticesAfter_prism m = ((Colored Purple (box m) @ Colored Gray (grid m) @ Colored LightBlue (sphere m) @ Colored SteelBlue (cylinder m) @ Colored Yellow (pyramid m) @ Colored Crimson (wedge m) @ Colored Pink (cone m) @ Colored LightGreen (halfCone m) @ Colored Orange (prism m)) @ replicate (length (Vertices (diamond m))) ?d, of_nat (length (Colored Purple (box m) @ Colored Gray (grid m) @ Colored LightBlue (sphere m) @ Colored SteelBlue (cylinder m) @ Colored Yellow (pyramid m) @ Colored Crimson (wedge m) @ Colored Pink (cone m) @ Colored LightGreen (halfCone m) @ Colored Orange (prism m))))"
  proof -
    have "(case verticesAfter_halfCone m of
             (buf, k) \<Rightarrow> FillVertices Orange (Vertices (prism m)) buf k) =
          ((Colored Purple (box m) @ Colored Gray (grid m) @ Colored LightBlue (sphere m) @ Colored SteelBlue (cylinder m) @ Colored Yellow (pyramid m) @ Colored Crimson (wedge m) @ Colored Pink (cone m) @ Colored LightGreen (halfCone m)) @ Colored Orange (prism m) @ replicate ((length (Vertices (prism m)) + length (Vertices (diamond m))) - length (Vertices (prism m))) ?d,
            of_nat (length (Colored Purple (box m) @ Colored Gray (grid m) @ Colored LightBlue (sphere m) @ Colored SteelBlue (cylinder m) @ Colored Yellow (pyramid m) @ Colored Crimson (wedge m) @ Colored Pink (cone m) @ Colored LightGreen (halfCone m)) + length (Vertices (prism m))))"
      using T by (intro chain_step[OF s7]) (simp_all add: totalVertexCount_def Colored_length)
    then show ?thesis by (simp add: verticesAfter_prism_def Colored_length)
  qed
  have s9: "verticesAfter_diamond m = ((Colored Purple (box m) @ Colored Gray (grid m) @ Colored LightBlue (sphere m) @ Colored SteelBlue (cylinder m) @ Colored Yellow (pyramid m) @ Colored Crimson (wedge m) @ Colored Pink (cone m) @ Colored LightGreen (halfCone m) @ Colored Orange (prism m) @ Colored Silver (diamond m)) @ replicate (0) ?d, of_nat (length (Colored Purple (box m) @ Colored Gray (grid m) @ Colored LightBlue (sphere m) @ Colored SteelBlue (cylinder m) @ Colored Yellow (pyramid m) @ Colored Crimson (wedge m) @ Colored Pink (cone m) @ Colored LightGreen (halfCone m) @ Colored Orange (prism m) @ Colored Silver (diamond m))))"
  proof -
    have "(case verticesAfter_prism m of
             (buf, k) \<Rightarrow> FillVertices Silver (Vertices (diamond m)) buf k) =
          ((Colored Purple (box m) @ Colored Gray (grid m) @ Colored LightBlue (sphere m) @ Colored SteelBlue (cylinder m) @ Colored Yellow (pyramid m) @ Colored Crimson (wedge m) @ Colored Pink (cone m) @ Colored LightGreen (halfCone m) @ Colored Orange (prism m)) @ Colored Silver (diamond m) @ replicate ((length (Vertices (diamond m))) - length (Vertices (diamond m))) ?d,
            of_nat (length (Colored Purple (box m) @ Colored Gray (grid m) @ Colored LightBlue (sphere m) @ Colored SteelBlue (cylinder m) @ Colored Yellow (pyramid m) @ Colored Crimson (wedge m) @ Colored Pink (cone m) @ Colored LightGreen (halfCone m) @ Colored Orange (prism m)) + length (Vertices (diamond m))))"
      using T by (intro chain_step[OF s8]) (simp_all add: totalVertexCount_def Colored_length)
    then show ?thesis by (simp add: verticesAfter_diamond_def Colored_length)
  qed
  show ?thesis
    by (simp add: vertices_def s9 AllVertices_def Shapes_def)
qed

lemma indices_all: "indices m = AllIndices (Shapes m)"
  by (simp add: indices_def AllIndices_def Shapes_def)

subsection \<open>Sub-ranges\<close>

lemma unat_ucast16_le: "unat (ucast (w :: 32 word) :: 16 word) \<le> unat w"
  by (simp add: unsigned_ucast_eq take_bit_nat_less_eq_self)

lemma GetIndices16_length: "length (GetIndices16 mesh) = length (Indices32 mesh)"
  by (simp add: GetIndices16_def)

lemma AllIndices_Cons:
  "AllIndices ((name, mesh, c) # shapes) = GetIndices16 mesh @ AllIndices shapes"
  by (simp add: AllIndices_def)

lemma AllVertices_Cons:
  "AllVertices ((name, mesh, c) # shapes) = Colored c mesh @ AllVertices shapes"
  by (simp add: AllVertices_def)

lemma SubRanges_link:
  "map (\<lambda>(name, mesh, c). DrawArgs_at (BuildDrawArgs m) name) (Shapes m) = SubRanges 0 0 (Shapes m)"
  by (simp add: Shapes_def DrawArgs_at_def BuildDrawArgs_def
        boxSubmesh_def gridSubmesh_def sphereSubmesh_def cylinderSubmesh_def pyramidSubmesh_def
        wedgeSubmesh_def coneSubmesh_def halfConeSubmesh_def prismSubmesh_def diamondSubmesh_def
        boxIndexOffset_def gridIndexOffset_def sphereIndexOffset_def cylinderIndexOffset_def
        pyramidIndexOffset_def wedgeIndexOffset_def coneIndexOffset_def halfConeIndexOffset_def
        prismIndexOffset_def diamondIndexOffset_def
        boxVertexOffset_def gridVertexOffset_def sphereVertexOffset_def cylinderVertexOffset_def
        pyramidVertexOffset_def wedgeVertexOffset_def coneVertexOffset_def halfConeVertexOffset_def
        prismVertexOffset_def diamondVertexOffset_def)

lemma tiles_SubRanges:
  "i + length (AllIndices shapes) < 2 ^ 32 \<Longrightarrow>
   tiles i (SubRanges i v shapes) (i + length (AllIndices shapes))"
proof (induction shapes arbitrary: i v)
  case Nil
  show ?case by (simp add: AllIndices_def)
next
  case (Cons x shapes)
  obtain name mesh c where x: "x = (name, mesh, c)" by (cases x)
  let ?n = "length (Indices32 mesh)"
  have total: "i + ?n + length (AllIndices shapes) < 2 ^ 32"
    using Cons.prems by (simp add: x AllIndices_Cons GetIndices16_length add.assoc)
  have "i \<le> i + ?n + length (AllIndices shapes)" by simp
  then have "i < 2 ^ 32" using total by (rule le_less_trans)
  then have ui: "unat (of_nat i :: UINT) = i" by (rule unat_of_nat_small)
  have "?n \<le> i + ?n + length (AllIndices shapes)" by simp
  then have "?n < 2 ^ 32" using total by (rule le_less_trans)
  then have un: "unat (of_nat ?n :: UINT) = ?n" by (rule unat_of_nat_small)
  have "tiles (i + ?n) (SubRanges (i + ?n) (v + length (Vertices mesh)) shapes)
          (i + ?n + length (AllIndices shapes))"
    using total by (rule Cons.IH)
  then show ?case
    by (simp add: x ui un AllIndices_Cons GetIndices16_length add.assoc)
qed

lemma slices_generic:
  assumes "list_all (\<lambda>(name, mesh, c). WellFormedMesh mesh) shapes"
    and "length ipre + length (AllIndices shapes) < 2 ^ 32"
    and "length vpre + length (AllVertices shapes) < 2 ^ 31"
  shows "list_all2 (\<lambda>sm (name, mesh, c).
            SliceOK (vpre @ AllVertices shapes @ vpost) (ipre @ AllIndices shapes @ ipost) sm mesh c)
          (SubRanges (length ipre) (length vpre) shapes) shapes"
  using assms
proof (induction shapes arbitrary: ipre vpre)
  case Nil
  show ?case by simp
next
  case (Cons x shapes)
  obtain name mesh c where x: "x = (name, mesh, c)" by (cases x)
  let ?I = "GetIndices16 mesh" and ?V = "Colored c mesh"
  let ?vb = "vpre @ AllVertices (x # shapes) @ vpost"
  let ?ib = "ipre @ AllIndices (x # shapes) @ ipost"
  have wf: "WellFormedMesh mesh" and wfs: "list_all (\<lambda>(name, mesh, c). WellFormedMesh mesh) shapes"
    using Cons.prems(1) by (simp_all add: x)
  have itotal: "length ipre + length ?I + length (AllIndices shapes) < 2 ^ 32"
    using Cons.prems(2) by (simp add: x AllIndices_Cons add.assoc)
  have vtotal: "length vpre + length ?V + length (AllVertices shapes) < 2 ^ 31"
    using Cons.prems(3) by (simp add: x AllVertices_Cons add.assoc)
  have "length ipre \<le> length ipre + length ?I + length (AllIndices shapes)" by simp
  then have "length ipre < 2 ^ 32" using itotal by (rule le_less_trans)
  then have ui: "unat (of_nat (length ipre) :: UINT) = length ipre" by (rule unat_of_nat_small)
  have "length (Indices32 mesh) \<le> length ipre + length ?I + length (AllIndices shapes)"
    by (simp add: GetIndices16_length)
  then have "length (Indices32 mesh) < 2 ^ 32" using itotal by (rule le_less_trans)
  then have un: "unat (of_nat (length (Indices32 mesh)) :: UINT) = length (Indices32 mesh)"
    by (rule unat_of_nat_small)
  have "length vpre \<le> length vpre + length ?V + length (AllVertices shapes)" by simp
  then have "length vpre < 2 ^ 31" using vtotal by (rule le_less_trans)
  then have sv: "sint (of_nat (length vpre) :: UINT) = int (length vpre)" by (rule sint_of_nat_small)
  have inrange: "list_all (\<lambda>ix. length vpre + unat ix < length ?vb) ?I"
  proof -
    have "\<And>w. w \<in> set (Indices32 mesh) \<Longrightarrow>
            length vpre + unat (ucast w :: 16 word) < length ?vb"
    proof -
      fix w assume "w \<in> set (Indices32 mesh)"
      then have "unat w < length (Vertices mesh)"
        using wf by (simp add: WellFormedMesh_def list_all_iff)
      then have "unat (ucast w :: 16 word) < length (Vertices mesh)"
        using unat_ucast16_le[of w] by (rule le_less_trans[rotated])
      then show "length vpre + unat (ucast w :: 16 word) < length ?vb"
        by (simp add: x AllVertices_Cons Colored_length)
    qed
    then show ?thesis by (simp add: GetIndices16_def list_all_iff)
  qed
  have "take (length ?I) (drop (length ipre) ?ib) = ?I"
    by (simp add: x AllIndices_Cons)
  then have islice: "take (length (Indices32 mesh)) (drop (length ipre) ?ib) = ?I"
    by (simp only: GetIndices16_length)
  have "take (length ?V) (drop (length vpre) ?vb) = ?V"
    by (simp add: x AllVertices_Cons)
  then have vslice: "take (length (Vertices mesh)) (drop (length vpre) ?vb) = ?V"
    by (simp only: Colored_length)
  have head: "SliceOK ?vb ?ib
      \<lparr> IndexCount = of_nat (length (Indices32 mesh)),
        StartIndexLocation = of_nat (length ipre),
        BaseVertexLocation = sint (of_nat (length vpre) :: UINT) \<rparr> mesh c"
    unfolding SliceOK_def using inrange islice vslice
    by (simp only: SubmeshGeometry.simps ui un sv nat_int of_nat_0_le_iff simp_thms)
  have "list_all2 (\<lambda>sm (name, mesh, c).
            SliceOK ((vpre @ ?V) @ AllVertices shapes @ vpost) ((ipre @ ?I) @ AllIndices shapes @ ipost)
              sm mesh c)
          (SubRanges (length (ipre @ ?I)) (length (vpre @ ?V)) shapes) shapes"
    using wfs itotal vtotal by (intro Cons.IH) simp_all
  then have tail: "list_all2 (\<lambda>sm (name, mesh, c). SliceOK ?vb ?ib sm mesh c)
          (SubRanges (length ipre + length (Indices32 mesh)) (length vpre + length (Vertices mesh)) shapes)
          shapes"
    by (simp add: x AllIndices_Cons AllVertices_Cons GetIndices16_length Colored_length)
  show ?case using head tail by (simp add: x)
qed

subsection \<open>The result of the build\<close>

lemma AllVertices_length: "length (AllVertices (Shapes m)) = totalVertexCount m"
  by (simp add: AllVertices_def Shapes_def totalVertexCount_def Colored_length)

lemma BuildShapeGeometry_Inr:
  assumes "BuildShapeGeometry dev m = Inr geo"
  shows "VertexBufferCPU geo = take (unat (vbByteSize m) div sizeof_Vertex) (vertices m)"
    and "IndexBufferCPU geo = take (unat (ibByteSize m) div sizeof_uint16) (indices m)"
    and "DrawArgs geo = BuildDrawArgs m"
  using assms by (auto simp: BuildShapeGeometry_def split: if_splits)

lemma byte_size_div:
  fixes n k :: nat
  assumes "k * n < 2 ^ 32" "0 < k"
  shows "unat (of_nat (unat (of_nat n :: UINT) * k) :: UINT) div k = n"
proof -
  have "n * 1 \<le> n * k" using assms(2) by (intro mult_le_mono2) simp
  then have "n \<le> k * n" by (simp add: mult.commute)
  then have "n < 2 ^ 32" using assms(1) by (rule le_less_trans)
  then have "unat (of_nat n :: UINT) = n" by (rule unat_of_nat_small)
  moreover have "n * k < 2 ^ 32" using assms(1) by (simp add: mult.commute)
  then have "unat (of_nat (n * k) :: UINT) = n * k" by (rule unat_of_nat_small)
  ultimately show ?thesis using assms(2) by simp
qed

lemma vertex_total_small:
  assumes "sizeof_Vertex * n < 2 ^ 32"
  shows "n < 2 ^ 31" and "n < 2 ^ 32"
proof -
  have "2 * n \<le> sizeof_Vertex * n" by (simp add: sizeof_Vertex_def)
  then have "2 * n < 2 ^ 32" using assms by (rule le_less_trans)
  then have "2 * n < 2 * 2 ^ 31" by simp
  then show "n < 2 ^ 31" by (simp only: mult_less_cancel1)
  have "n * 1 \<le> n * sizeof_Vertex" by (intro mult_le_mono2) (simp add: sizeof_Vertex_def)
  then have "n \<le> sizeof_Vertex * n" by (simp add: mult.commute)
  then show "n < 2 ^ 32" using assms by (rule le_less_trans)
qed

lemma index_total_small:
  assumes "sizeof_uint16 * n < 2 ^ 32"
  shows "n < 2 ^ 32"
proof -
  have "n * 1 \<le> n * sizeof_uint16" by (intro mult_le_mono2) (simp add: sizeof_uint16_def)
  then have "n \<le> sizeof_uint16 * n" by (simp add: mult.commute)
  then show "n < 2 ^ 32" using assms by (rule le_less_trans)
qed

text \<open>Claim C6. Let the build succeed on meshes that are well formed and whose two
  buffers have byte sizes in the range of the 32-bit integers the code computes them in.
  Then the vertex buffer is the concatenation of the shapes' coloured vertices and the
  index buffer the concatenation of their 16-bit indices, both in input order; the
  recorded sub-ranges, in input order, start at 0, each begin where the previous one
  ends, and end at the length of the index buffer; and every sub-range covers exactly its
  shape's indices, has as base vertex the position where its shape's vertices start, and
  its base vertex plus any index of the shape addresses a vertex of the buffer.\<close>

theorem C6_subranges_tile:
  assumes ok: "BuildShapeGeometry dev m = Inr geo"
    and vfit: "sizeof_Vertex * totalVertexCount m < 2 ^ 32"
    and ifit: "sizeof_uint16 * length (indices m) < 2 ^ 32"
    and wf: "list_all (\<lambda>(name, mesh, c). WellFormedMesh mesh) (Shapes m)"
  shows "VertexBufferCPU geo = AllVertices (Shapes m) \<and>
         IndexBufferCPU geo = AllIndices (Shapes m) \<and>
         tiles 0 (map (\<lambda>(name, mesh, c). DrawArgs_at (DrawArgs geo) name) (Shapes m))
           (length (IndexBufferCPU geo)) \<and>
         list_all (\<lambda>(name, mesh, c).
             SliceOK (VertexBufferCPU geo) (IndexBufferCPU geo) (DrawArgs_at (DrawArgs geo) name) mesh c)
           (Shapes m)"
proof -
  note T = vertex_total_small[OF vfit]
  have verts: "vertices m = AllVertices (Shapes m)" using T(2) by (rule vertices_chain)
  have vlen: "length (vertices m) = totalVertexCount m" by (simp add: verts AllVertices_length)
  have "unat (vbByteSize m) div sizeof_Vertex = length (vertices m)"
    unfolding vbByteSize_def vlen using vfit by (rule byte_size_div) (simp add: sizeof_Vertex_def)
  then have vb: "VertexBufferCPU geo = AllVertices (Shapes m)"
    by (simp add: BuildShapeGeometry_Inr(1)[OF ok] verts)
  have "unat (ibByteSize m) div sizeof_uint16 = length (indices m)"
    unfolding ibByteSize_def using ifit by (rule byte_size_div) (simp add: sizeof_uint16_def)
  then have ib: "IndexBufferCPU geo = AllIndices (Shapes m)"
    by (simp add: BuildShapeGeometry_Inr(2)[OF ok] indices_all)
  have args: "map (\<lambda>(name, mesh, c). DrawArgs_at (DrawArgs geo) name) (Shapes m)
                = SubRanges 0 0 (Shapes m)"
    by (simp only: BuildShapeGeometry_Inr(3)[OF ok] SubRanges_link)
  have ilen: "0 + length (AllIndices (Shapes m)) < 2 ^ 32"
    using index_total_small[OF ifit] by (simp add: indices_all)
  have t: "tiles 0 (SubRanges 0 0 (Shapes m)) (0 + length (AllIndices (Shapes m)))"
    using ilen by (rule tiles_SubRanges)
  have "length ([] :: 16 word list) + length (AllIndices (Shapes m)) < 2 ^ 32"
    using ilen by simp
  moreover have "length ([] :: 'a Vertex list) + length (AllVertices (Shapes m)) < 2 ^ 31"
    using T(1) by (simp add: AllVertices_length)
  ultimately have "list_all2 (\<lambda>sm (name, mesh, c).
            SliceOK ([] @ AllVertices (Shapes m) @ []) ([] @ AllIndices (Shapes m) @ []) sm mesh c)
          (SubRanges (length ([] :: 16 word list)) (length ([] :: 'a Vertex list)) (Shapes m)) (Shapes m)"
    using wf by (intro slices_generic)
  then have "list_all2 (\<lambda>sm (name, mesh, c).
            SliceOK (VertexBufferCPU geo) (IndexBufferCPU geo) sm mesh c)
          (map (\<lambda>(name, mesh, c). DrawArgs_at (DrawArgs geo) name) (Shapes m)) (Shapes m)"
    by (simp add: vb ib args)
  then have s: "list_all (\<lambda>(name, mesh, c).
             SliceOK (VertexBufferCPU geo) (IndexBufferCPU geo) (DrawArgs_at (DrawArgs geo) name) mesh c)
           (Shapes m)"
    by (simp add: list_all2_map1 list_all2_same list_all_iff case_prod_unfold)
  show ?thesis using vb ib t s by (simp add: args)
qed

lemma Example_build:
  "BuildShapeGeometry AcceptAll ExampleMeshes = Inr (projr (BuildShapeGeometry AcceptAll ExampleMeshes))"
  by (simp add: BuildShapeGeometry_def AcceptAll_def)

lemma Example_shapes:
  "Shapes ExampleMeshes =
     [(''box'', TriangleMesh, Purple), (''grid'', TriangleMesh, Gray),
      (''sphere'', TriangleMesh, LightBlue), (''cylinder'', TriangleMesh, SteelBlue),
      (''pyramid'', TriangleMesh, Yellow), (''wedge'', TriangleMesh, Crimson),
      (''cone'', TriangleMesh, Pink), (''halfCone'', TriangleMesh, LightGreen),
      (''prism'', TriangleMesh, Orange), (''diamond'', TriangleMesh, Silver)]"
  by (simp add: Shapes_def ExampleMeshes_def)

text \<open>On the concrete run of ten triangles: 30 vertices, 30 indices, the grid's
  sub-range starts at index 3 and its first vertex is the fourth of the buffer.\<close>

theorem C6_subranges_tile_witness:
  "length (VertexBufferCPU (projr (BuildShapeGeometry AcceptAll ExampleMeshes))) = 30 \<and>
   length (IndexBufferCPU (projr (BuildShapeGeometry AcceptAll ExampleMeshes))) = 30 \<and>
   unat (StartIndexLocation
           (DrawArgs_at (DrawArgs (projr (BuildShapeGeometry AcceptAll ExampleMeshes))) ''grid'')) = 3 \<and>
   VertexBufferCPU (projr (BuildShapeGeometry AcceptAll ExampleMeshes)) ! 3
     = \<lparr> Pos = 0, Color = Gray \<rparr>"
proof -
  let ?geo = "projr (BuildShapeGeometry AcceptAll ExampleMeshes)"
  have h2: "sizeof_Vertex * totalVertexCount ExampleMeshes < 2 ^ 32"
    by (simp add: sizeof_Vertex_def totalVertexCount_def ExampleMeshes_def TriangleMesh_def)
  have h3: "sizeof_uint16 * length (indices ExampleMeshes) < 2 ^ 32"
    by (simp add: sizeof_uint16_def indices_def GetIndices16_def ExampleMeshes_def TriangleMesh_def)
  have h4: "list_all (\<lambda>(name, mesh, c). WellFormedMesh mesh) (Shapes ExampleMeshes)"
    by (simp add: Example_shapes WellFormedMesh_def TriangleMesh_def)
  note c6 = C6_subranges_tile[OF Example_build h2 h3 h4]
  have v: "VertexBufferCPU ?geo = AllVertices (Shapes ExampleMeshes)"
    and i: "IndexBufferCPU ?geo = AllIndices (Shapes ExampleMeshes)"
    and t: "tiles 0 (map (\<lambda>(name, mesh, c). DrawArgs_at (DrawArgs ?geo) name) (Shapes ExampleMeshes))
           (length (IndexBufferCPU ?geo))"
    and s: "list_all (\<lambda>(name, mesh, c).
             SliceOK (VertexBufferCPU ?geo) (IndexBufferCPU ?geo) (DrawArgs_at (DrawArgs ?geo) name) mesh c)
           (Shapes ExampleMeshes)"
    using c6 by blast+
  have a: "length (VertexBufferCPU ?geo) = 30" "VertexBufferCPU ?geo ! 3 = \<lparr> Pos = 0, Color = Gray \<rparr>"
    by (simp_all add: v Example_shapes AllVertices_def Colored_def TriangleMesh_def)
  have b: "length (IndexBufferCPU ?geo) = 30"
    by (simp add: i Example_shapes AllIndices_def GetIndices16_def TriangleMesh_def)
  have "unat (IndexCount (DrawArgs_at (DrawArgs ?geo) ''box'')) = 3"
    using s by (simp add: Example_shapes SliceOK_def TriangleMesh_def)
  then have c: "unat (StartIndexLocation (DrawArgs_at (DrawArgs ?geo) ''grid'')) = 3"
    using t by (simp add: Example_shapes)
  show ?thesis using a b c by simp
qed

lemma BuildShapeGeometry_fails_iff:
  "(\<exists>e. BuildShapeGeometry dev m = Inl e) \<longleftrightarrow>
     \<not> (D3DCreateBlob dev (vbByteSize m) \<and> D3DCreateBlob dev (ibByteSize m) \<and>
        CreateDefaultBuffer dev (vbByteSize m) \<and> CreateDefaultBuffer dev (ibByteSize m))"
  by (auto simp: BuildShapeGeometry_def)

text \<open>Claim C7, as the code has it. The build compares the vertex count with nothing: it
  fails exactly when one of its four device calls fails, and on a device whose calls
  succeed it succeeds for every shape set.\<close>

theorem C7_build_fails_only_on_device_failure:
  "((\<exists>e. BuildShapeGeometry dev m = Inl e) \<longleftrightarrow>
      \<not> (D3DCreateBlob dev (vbByteSize m) \<and> D3DCreateBlob dev (ibByteSize m) \<and>
         CreateDefaultBuffer dev (vbByteSize m) \<and> CreateDefaultBuffer dev (ibByteSize m))) \<and>
   (\<exists>geo. BuildShapeGeometry AcceptAll m = Inr geo)"
proof -
  have "\<exists>geo. BuildShapeGeometry AcceptAll m = Inr geo"
    by (simp add: BuildShapeGeometry_def AcceptAll_def)
  then show ?thesis using BuildShapeGeometry_fails_iff[of dev m] by blast
qed

text \<open>Claim C7 as stated fails: with 65537 vertices, more than 16-bit indices can
  address, the build does not fail.\<close>

theorem C7_no_vertex_count_check_counterexample:
  "65536 < totalVertexCount BigMeshes \<and>
   BuildShapeGeometry AcceptAll BigMeshes \<noteq> Inl DxException"
  by (simp add: BuildShapeGeometry_def AcceptAll_def totalVertexCount_def BigMeshes_def
        EmptyMesh_def)

end
